(* ===== verification/Prelude.thy ===== *)
theory Prelude
  imports Main "HOL-Library.Multiset" "HOL-Library.List_Lexorder" "HOL-Library.Char_ord"
begin

text \<open>
  Shared foundations of the development: the state-and-error monad in which both the Lua
  scripts and the Go functions are written, the named collections of simplification rules
  that the component theories fill, and the generic facts on lists and sorting they share.
\<close>

section \<open>Computations that change a state and may fail\<close>

text \<open>
  A Go function that performs input/output takes the state of the world and returns an error
  (\<open>Inl\<close>) or a result (\<open>Inr\<close>) together with the state it leaves behind. The state is
  returned on the error path too: what a failing function already did is not rolled back.
\<close>

type_synonym ('e, 's, 'a) sem = "'s \<Rightarrow> ('e + 'a) \<times> 's"

definition returnE :: "'a \<Rightarrow> ('e, 's, 'a) sem" where
  "returnE x = (\<lambda>s. (Inr x, s))"

definition raiseE :: "'e \<Rightarrow> ('e, 's, 'a) sem" where
  "raiseE e = (\<lambda>s. (Inl e, s))"

definition bindE :: "('e, 's, 'a) sem \<Rightarrow> ('a \<Rightarrow> ('e, 's, 'b) sem) \<Rightarrow> ('e, 's, 'b) sem" where
  "bindE m f = (\<lambda>s. case m s of (Inl e, s') \<Rightarrow> (Inl e, s') | (Inr x, s') \<Rightarrow> f x s')"

text \<open>A computation whose error is inspected rather than propagated (\<open>if err := f(); ...\<close>).\<close>

definition tryE :: "('e, 's, 'a) sem \<Rightarrow> ('e + 'a \<Rightarrow> ('e2, 's, 'b) sem) \<Rightarrow> ('e2, 's, 'b) sem" where
  "tryE m f = (\<lambda>s. case m s of (r, s') \<Rightarrow> f r s')"

named_theorems sem_simps \<open>unfolding a computation on a given state\<close>
named_theorems key_simps \<open>distinctness and injectivity of Redis keys\<close>
named_theorems view_simps \<open>what a Redis command does to the observable key space\<close>
named_theorems inv_intros \<open>preservation of the registry invariant\<close>

lemma returnE_apply [sem_simps]: "returnE x s = (Inr x, s)"
  by (simp add: returnE_def)

lemma raiseE_apply [sem_simps]: "raiseE e s = (Inl e, s)"
  by (simp add: raiseE_def)

lemma bindE_apply [sem_simps]:
  "bindE m f s = (case m s of (Inl e, s') \<Rightarrow> (Inl e, s') | (Inr x, s') \<Rightarrow> f x s')"
  by (simp add: bindE_def)

lemma tryE_apply [sem_simps]: "tryE m f s = (case m s of (r, s') \<Rightarrow> f r s')"
  by (simp add: tryE_def)

lemma bindE_Inr_iff:
  "bindE m f s = (Inr y, s'') \<longleftrightarrow> (\<exists>x s'. m s = (Inr x, s') \<and> f x s' = (Inr y, s''))"
  by (auto simp: bindE_def split: prod.splits sum.splits)

lemma bindE_Inl_iff:
  "bindE m f s = (Inl e, s'') \<longleftrightarrow>
     m s = (Inl e, s'') \<or> (\<exists>x s'. m s = (Inr x, s') \<and> f x s' = (Inl e, s''))"
  by (auto simp: bindE_def split: prod.splits sum.splits)

lemma bindE_assoc: "bindE (bindE m f) g = bindE m (\<lambda>x. bindE (f x) g)"
  by (rule ext) (simp add: bindE_def split: prod.splits sum.splits)

lemma bindE_returnE: "bindE (returnE x) f = f x"
  by (rule ext) (simp add: bindE_def returnE_def)

lemma snd_bind_return: "snd (bindE m (\<lambda>x. returnE (f x)) s) = snd (m s)"
  by (simp add: bindE_def returnE_def split: prod.splits sum.splits)

text \<open>A state predicate that a computation keeps on the success and on the error path.\<close>

definition keeps :: "('s \<Rightarrow> bool) \<Rightarrow> ('e, 's, 'a) sem \<Rightarrow> bool" where
  "keeps P m \<longleftrightarrow> (\<forall>s. P s \<longrightarrow> P (snd (m s)))"

lemma keepsI: "(\<And>s. P s \<Longrightarrow> P (snd (m s))) \<Longrightarrow> keeps P m"
  by (simp add: keeps_def)

lemma keepsD: "keeps P m \<Longrightarrow> P s \<Longrightarrow> P (snd (m s))"
  by (simp add: keeps_def)

lemma keeps_run: "keeps P m \<Longrightarrow> P s \<Longrightarrow> m s = (r, s') \<Longrightarrow> P s'"
  by (force simp: keeps_def)

lemma keeps_return [intro, simp]: "keeps P (returnE x)"
  by (simp add: keeps_def returnE_def)

lemma keeps_raise [intro, simp]: "keeps P (raiseE e)"
  by (simp add: keeps_def raiseE_def)

lemma keeps_bind [intro]: "keeps P m \<Longrightarrow> (\<And>x. keeps P (f x)) \<Longrightarrow> keeps P (bindE m f)"
  by (fastforce simp: keeps_def bindE_def split: prod.splits sum.splits)

lemma keeps_try [intro]: "keeps P m \<Longrightarrow> (\<And>r. keeps P (f r)) \<Longrightarrow> keeps P (tryE m f)"
  by (fastforce simp: keeps_def tryE_def split: prod.splits)

text \<open>A computation that keeps \<open>P\<close> and whose results, when it succeeds, satisfy \<open>Q\<close>.\<close>

definition ensures :: "('s \<Rightarrow> bool) \<Rightarrow> ('e, 's, 'a) sem \<Rightarrow> ('a \<Rightarrow> bool) \<Rightarrow> bool" where
  "ensures P m Q \<longleftrightarrow> keeps P m \<and> (\<forall>s x s'. P s \<longrightarrow> m s = (Inr x, s') \<longrightarrow> Q x)"

lemma ensuresI: "keeps P m \<Longrightarrow> (\<And>s x s'. P s \<Longrightarrow> m s = (Inr x, s') \<Longrightarrow> Q x) \<Longrightarrow> ensures P m Q"
  by (auto simp: ensures_def)

lemma ensures_keeps: "ensures P m Q \<Longrightarrow> keeps P m"
  by (simp add: ensures_def)

lemma ensures_result: "ensures P m Q \<Longrightarrow> P s \<Longrightarrow> m s = (Inr x, s') \<Longrightarrow> Q x"
  by (auto simp: ensures_def)

lemma keeps_bind_ensures:
  assumes "ensures P m Q" and "\<And>x. Q x \<Longrightarrow> keeps P (f x)"
  shows "keeps P (bindE m f)"
proof (rule keepsI)
  fix s
  assume s: "P s"
  have k: "P (snd (m s))" using assms(1) s by (simp add: ensures_def keeps_def)
  show "P (snd (bindE m f s))"
  proof (cases "m s")
    case (Pair r s')
    show ?thesis
    proof (cases r)
      case (Inl e)
      with Pair k show ?thesis by (simp add: bindE_apply)
    next
      case (Inr x)
      then have "Q x" using assms(1) s Pair by (auto intro: ensures_result)
      with Pair Inr k show ?thesis by (simp add: bindE_apply keepsD [OF assms(2)])
    qed
  qed
qed

section \<open>Lists sorted by a key\<close>

lemma sorted_perm_unique:
  fixes f :: "'a \<Rightarrow> 'k :: linorder"
  assumes "mset xs = mset ys" and "sorted (map f xs)" and "sorted (map f ys)"
    and "inj_on f (set xs)"
  shows "xs = ys"
proof -
  have s: "set xs = set ys"
    using assms(1) by (rule mset_eq_setD)
  have "mset (map f xs) = mset (map f ys)"
    using assms(1) by (metis mset_map)
  then have "map f xs = map f ys"
    using assms(2,3) by (metis properties_for_sort sorted_sort_id)
  then show ?thesis
    using assms(4) s by (metis inj_on_map_eq_map sup.idem)
qed

lemma distinct_map_inj_on: "distinct (map f xs) \<Longrightarrow> inj_on f (set xs)"
  by (simp add: distinct_map)

end
