(* ===== verification/GoStd.thy ===== *)
theory GoStd
  imports Prelude "HOL-Library.Sublist"
begin

text \<open>
  The parts of the Go standard library (and of Lua's number printing) that the service uses,
  as executable functions on byte strings: \<open>strconv\<close>, \<open>strings\<close>, \<open>encoding/hex\<close>,
  \<open>encoding/base64\<close>, \<open>unicode/utf8\<close>, \<open>time\<close> and slicing. A Go string is a
  sequence of bytes, and so is \<^typ>\<open>string\<close>, whose characters are 8 bits wide.
\<close>

section \<open>Decimal numbers: strconv.FormatUint, ParseUint and Redis integers\<close>

definition digit :: "nat \<Rightarrow> char" where
  "digit d = ''0123456789'' ! d"

definition is_digit :: "char \<Rightarrow> bool" where
  "is_digit c \<longleftrightarrow> 48 \<le> (of_char c :: nat) \<and> (of_char c :: nat) \<le> 57"

definition digit_val :: "char \<Rightarrow> nat" where
  "digit_val c = of_char c - 48"

fun dec :: "nat \<Rightarrow> string" where
  "dec n = (if n < 10 then [digit n] else dec (n div 10) @ [digit (n mod 10)])"

declare dec.simps [simp del]

definition dec_step :: "nat option \<Rightarrow> char \<Rightarrow> nat option" where
  "dec_step a c = (case a of None \<Rightarrow> None
     | Some v \<Rightarrow> if is_digit c then Some (10 * v + digit_val c) else None)"

definition dec_val :: "string \<Rightarrow> nat option" where
  "dec_val s = foldl dec_step (Some 0) s"

definition ParseUint64 :: "string \<Rightarrow> nat option" where
  "ParseUint64 s = (if s = [] then None else
     (case dec_val s of None \<Rightarrow> None | Some n \<Rightarrow> if n < 2 ^ 64 then Some n else None))"

definition dec_int :: "int \<Rightarrow> string" where
  "dec_int i = (if i < 0 then CHR ''-'' # dec (nat (- i)) else dec (nat i))"

text \<open>The integers Redis reads from a command argument: signed, 64 bits, no leading zeros.\<close>

definition canonical_dec :: "string \<Rightarrow> bool" where
  "canonical_dec s \<longleftrightarrow> s \<noteq> [] \<and> (s = ''0'' \<or> hd s \<noteq> CHR ''0'')"

definition parse_int64 :: "string \<Rightarrow> int option" where
  "parse_int64 s =
     (case s of
        [] \<Rightarrow> None
      | c # cs \<Rightarrow>
          if c = CHR ''-'' then
            (if canonical_dec cs \<and> cs \<noteq> ''0'' then
               (case dec_val cs of None \<Rightarrow> None
                | Some n \<Rightarrow> if n \<le> 2 ^ 63 then Some (- int n) else None)
             else None)
          else if canonical_dec s then
            (case dec_val s of None \<Rightarrow> None
             | Some n \<Rightarrow> if n < 2 ^ 63 then Some (int n) else None)
          else None)"

lemma less_10_cases:
  "(d :: nat) < 10 \<Longrightarrow> d = 0 \<or> d = 1 \<or> d = 2 \<or> d = 3 \<or> d = 4 \<or> d = 5 \<or> d = 6 \<or> d = 7 \<or> d = 8 \<or> d = 9"
  by arith

lemma of_char_digit: "d < 10 \<Longrightarrow> (of_char (digit d) :: nat) = 48 + d"
  by (drule less_10_cases) (elim disjE; simp add: digit_def)

lemma is_digit_digit [simp]: "d < 10 \<Longrightarrow> is_digit (digit d)"
  by (simp add: is_digit_def of_char_digit)

lemma digit_val_digit [simp]: "d < 10 \<Longrightarrow> digit_val (digit d) = d"
  by (simp add: digit_val_def of_char_digit)

lemma digit_eq_iff: "d < 10 \<Longrightarrow> e < 10 \<Longrightarrow> digit d = digit e \<longleftrightarrow> d = e"
  by (metis digit_val_digit)

lemma not_is_digit_minus [simp]: "\<not> is_digit (CHR ''-'')"
  by (simp add: is_digit_def)

lemma dec_Nil [simp]: "dec n \<noteq> []"
  by (subst dec.simps) simp

lemma foldl_dec_step_None [simp]: "foldl dec_step None s = None"
  by (induction s) (auto simp: dec_step_def)

lemma dec_val_snoc: "dec_val (s @ [c]) = dec_step (dec_val s) c"
  by (simp add: dec_val_def)

lemma dec_val_dec [simp]: "dec_val (dec n) = Some n"
proof (induction n rule: dec.induct)
  case (1 n)
  show ?case
  proof (cases "n < 10")
    case True
    then show ?thesis by (subst dec.simps) (simp add: dec_val_def dec_step_def)
  next
    case False
    with 1 have "dec_val (dec (n div 10)) = Some (n div 10)" by simp
    with False show ?thesis
      by (subst dec.simps) (simp add: dec_val_snoc dec_step_def)
  qed
qed

lemma dec_inj [simp]: "dec m = dec n \<longleftrightarrow> m = n"
  by (metis dec_val_dec option.inject)

lemma dec_all_digits: "c \<in> set (dec n) \<Longrightarrow> is_digit c"
proof (induction n rule: dec.induct)
  case (1 n)
  then show ?case
    by (subst (asm) (2) dec.simps) (auto split: if_splits)
qed

lemma dec_no_minus [simp]: "CHR ''-'' \<notin> set (dec n)"
  using dec_all_digits not_is_digit_minus by blast

lemma hd_dec_zero: "hd (dec n) = CHR ''0'' \<longleftrightarrow> n = 0"
proof (induction n rule: dec.induct)
  case (1 n)
  have z: "CHR ''0'' = digit 0" by (simp add: digit_def)
  show ?case
  proof (cases "n < 10")
    case True
    then show ?thesis by (subst dec.simps) (simp add: z digit_eq_iff del: One_nat_def)
  next
    case False
    with 1 show ?thesis by (subst dec.simps) (auto simp: hd_append)
  qed
qed

lemma dec_0: "dec 0 = ''0''"
  by (subst dec.simps) (simp add: digit_def)

lemma canonical_dec_dec [simp]: "canonical_dec (dec n)"
  by (cases "n = 0") (auto simp: canonical_dec_def hd_dec_zero dec_0)

lemma dec_eq_Cons_minus [simp]: "dec n \<noteq> CHR ''-'' # cs"
  by (metis dec_no_minus list.set_intros(1))

lemma ParseUint64_dec [simp]: "n < 2 ^ 64 \<Longrightarrow> ParseUint64 (dec n) = Some n"
  by (simp add: ParseUint64_def)

lemma parse_int64_dec: "n < 2 ^ 63 \<Longrightarrow> parse_int64 (dec n) = Some (int n)"
proof -
  assume n: "n < 2 ^ 63"
  obtain c cs where c: "dec n = c # cs" by (cases "dec n") auto
  have "c \<noteq> CHR ''-''" using c dec_eq_Cons_minus [of n cs] by auto
  moreover have "dec_val (c # cs) = Some n" "canonical_dec (c # cs)"
    using dec_val_dec [of n] canonical_dec_dec [of n] c by simp_all
  ultimately show ?thesis using n c by (simp add: parse_int64_def)
qed

lemma parse_int64_dec_int:
  assumes "- (2 ^ 63) \<le> i" and "i < 2 ^ 63"
  shows "parse_int64 (dec_int i) = Some i"
proof (cases "i < 0")
  case True
  have "dec (nat (- i)) \<noteq> ''0''" using True dec_inj [of "nat (- i)" 0] by (simp add: dec_0)
  moreover have "nat (- i) \<le> 2 ^ 63" using assms(1) True by (simp add: nat_le_iff)
  ultimately show ?thesis using True by (simp add: parse_int64_def dec_int_def)
next
  case False
  have "nat i < 2 ^ 63" using assms(2) False by (simp add: nat_less_iff)
  then show ?thesis using False parse_int64_dec [of "nat i"] by (simp add: dec_int_def)
qed


section \<open>Strings\<close>

text \<open>\<open>strings.HasPrefix\<close>, \<open>strings.Contains\<close> and \<open>strings.Cut\<close> at a one-byte separator.\<close>

definition strings_HasPrefix :: "string \<Rightarrow> string \<Rightarrow> bool" where
  "strings_HasPrefix s p = prefix p s"

definition strings_Contains :: "string \<Rightarrow> string \<Rightarrow> bool" where
  "strings_Contains s sub = list_ex (prefix sub) (suffixes s)"

fun strings_Cut :: "string \<Rightarrow> char \<Rightarrow> string \<times> string \<times> bool" where
  "strings_Cut [] c = ([], [], False)"
| "strings_Cut (x # xs) c =
     (if x = c then ([], xs, True)
      else (case strings_Cut xs c of
              (b, a, True) \<Rightarrow> (x # b, a, True)
            | (b, a, False) \<Rightarrow> (x # xs, [], False)))"

text \<open>The first element of \<open>strings.Split(s, "-")\<close>: all of \<open>s\<close> when there is no separator.\<close>

definition strings_Split_first :: "string \<Rightarrow> char \<Rightarrow> string" where
  "strings_Split_first s c = takeWhile (\<lambda>x. x \<noteq> c) s"

lemma strings_Contains_iff: "strings_Contains s sub \<longleftrightarrow> (\<exists>a b. s = a @ sub @ b)"
  by (simp add: strings_Contains_def list_ex_iff Bex_def suffix_def prefix_def) blast

lemma strings_Cut_found:
  "c \<notin> set xs \<Longrightarrow> strings_Cut (xs @ c # ys) c = (xs, ys, True)"
  by (induction xs) auto

lemma strings_Cut_not_found: "c \<notin> set xs \<Longrightarrow> strings_Cut xs c = (xs, [], False)"
  by (induction xs) auto

lemma strings_Cut_sound: "strings_Cut s c = (b, a, True) \<Longrightarrow> s = b @ c # a \<and> c \<notin> set b"
  by (induction s c arbitrary: b a rule: strings_Cut.induct)
    (auto split: if_splits prod.splits bool.splits)

lemma strings_Split_first_append: "c \<notin> set xs \<Longrightarrow> strings_Split_first (xs @ c # ys) c = xs"
  by (simp add: strings_Split_first_def takeWhile_append)

section \<open>Numbers inside Lua scripts\<close>

text \<open>
  Redis hands the reply of \<open>INCR\<close> to a script as a Lua number, an IEEE double: integers
  from \<open>2\<^sup>53\<close> on are rounded to 53 significant bits. Concatenation (\<open>revision .. '-0'\<close>)
  prints a number with the C format \<open>%.14g\<close>: up to 14 digits as an integer, from
  \<open>10\<^sup>14\<close> on in scientific notation.
\<close>

definition round_even :: "nat \<Rightarrow> nat \<Rightarrow> nat" where
  \<comment> \<open>the multiple of \<open>m\<close> nearest to \<open>n\<close>, in units of \<open>m\<close>; ties go to the even multiple\<close>
  "round_even n m =
     (let q = n div m; r = n mod m in
      if 2 * r < m \<or> (2 * r = m \<and> even q) then q else q + 1)"

fun bit_length :: "nat \<Rightarrow> nat" where
  "bit_length n = (if n = 0 then 0 else Suc (bit_length (n div 2)))"

declare bit_length.simps [simp del]

definition lua_number :: "nat \<Rightarrow> nat" where
  "lua_number n =
     (if n < 2 ^ 53 then n
      else let m = 2 ^ (bit_length n - 53) in round_even n m * m)"

definition drop_trailing_zeros :: "string \<Rightarrow> string" where
  "drop_trailing_zeros s = rev (dropWhile (\<lambda>c. c = CHR ''0'') (rev s))"

definition two_digits :: "nat \<Rightarrow> string" where
  "two_digits n = (if n < 10 then CHR ''0'' # dec n else dec n)"

definition sci14 :: "nat \<Rightarrow> string" where
  "sci14 n =
     (let e = length (dec n) - 1;
          q = round_even n (10 ^ (e - 13));
          ds = dec q;
          e' = (if length ds > 14 then e + 1 else e);
          frac = drop_trailing_zeros (take 13 (tl ds))
      in hd ds # (if frac = [] then [] else CHR ''.'' # frac) @ ''e+'' @ two_digits e')"

definition lua_tostring :: "nat \<Rightarrow> string" where
  "lua_tostring n = (if n < 10 ^ 14 then dec n else sci14 n)"

lemma lua_number_exact [simp]: "n < 2 ^ 53 \<Longrightarrow> lua_number n = n"
  by (simp add: lua_number_def)

lemma lua_tostring_dec [simp]: "n < 10 ^ 14 \<Longrightarrow> lua_tostring n = dec n"
  by (simp add: lua_tostring_def)

lemma bit_length_lower: "0 < n \<Longrightarrow> 2 ^ (bit_length n - 1) \<le> n"
proof (induction n rule: bit_length.induct)
  case (1 n)
  show ?case
  proof (cases "n div 2 = 0")
    case True
    then show ?thesis using "1.prems" by (simp add: bit_length.simps [of n] bit_length.simps [of 0])
  next
    case False
    then have "2 ^ (bit_length (n div 2) - 1) \<le> n div 2" using 1 by simp
    moreover have "bit_length (n div 2) \<noteq> 0" using False by (simp add: bit_length.simps [of "n div 2"])
    then obtain b where "bit_length (n div 2) = Suc b" by (cases "bit_length (n div 2)") auto
    ultimately show ?thesis using "1.prems" by (simp add: bit_length.simps [of n])
  qed
qed

lemma bit_length_upper: "n < 2 ^ bit_length n"
proof (induction n rule: bit_length.induct)
  case (1 n)
  show ?case
  proof (cases "n = 0")
    case False
    then have "n div 2 < 2 ^ bit_length (n div 2)" using 1 by simp
    then show ?thesis using False by (simp add: bit_length.simps [of n])
  qed (simp add: bit_length.simps)
qed

text \<open>Rounding to a double never takes a number from \<open>10\<^sup>14\<close> on below \<open>10\<^sup>14\<close>.\<close>

lemma lua_number_ge: "10 ^ 14 \<le> n \<Longrightarrow> 10 ^ 14 \<le> lua_number n"
proof (cases "n < 2 ^ 53")
  case False
  define b where "b = bit_length n - 1"
  have n: "2 ^ b \<le> n" unfolding b_def using False by (intro bit_length_lower) auto
  have "(2 :: nat) ^ 53 < 2 ^ bit_length n" using False bit_length_upper [of n] by linarith
  then have "53 < bit_length n" by (rule power_less_imp_less_exp [rotated]) simp
  then have b: "53 \<le> b" "bit_length n - 53 = b - 52" by (simp_all add: b_def)
  then have e: "(2 :: nat) ^ b = 2 ^ 52 * 2 ^ (b - 52)"
    by (subst power_add [symmetric]) simp
  have "(2 :: nat) ^ 52 \<le> n div 2 ^ (b - 52)"
    using n e by (metis div_le_mono nonzero_mult_div_cancel_right power_not_zero zero_neq_numeral)
  then have "2 ^ 52 \<le> round_even n (2 ^ (b - 52))"
    by (simp add: round_even_def Let_def)
  then have "(2 :: nat) ^ b \<le> lua_number n"
    using False b e by (simp add: lua_number_def Let_def)
  moreover have "(2 :: nat) ^ 53 \<le> 2 ^ b" using b(1) by (rule power_increasing) simp
  ultimately show ?thesis by simp
qed simp

lemma lua_tostring_sci: "10 ^ 14 \<le> n \<Longrightarrow> CHR ''e'' \<in> set (lua_tostring n)"
  by (simp add: lua_tostring_def sci14_def Let_def)

section \<open>Fixed-width integers, division and slices\<close>

text \<open>Go's \<open>int\<close> and \<open>int64\<close>: two's complement with 64 bits; division truncates to zero.\<close>

definition wrap64 :: "int \<Rightarrow> int" where
  "wrap64 i = (i + 2 ^ 63) mod 2 ^ 64 - 2 ^ 63"

definition go_quot :: "int \<Rightarrow> int \<Rightarrow> int" where
  "go_quot a b = sgn a * sgn b * (\<bar>a\<bar> div \<bar>b\<bar>)"

lemma wrap64_id [simp]: "- (2 ^ 63) \<le> i \<Longrightarrow> i < 2 ^ 63 \<Longrightarrow> wrap64 i = i"
  by (simp add: wrap64_def)

lemma go_quot_nonneg: "0 \<le> a \<Longrightarrow> 0 < b \<Longrightarrow> go_quot a b = a div b"
  by (cases "a = 0") (auto simp: go_quot_def)

text \<open>\<open>xs[a:b]\<close>; a bound out of order or out of range panics (\<open>None\<close>).\<close>

definition go_slice :: "'a list \<Rightarrow> int \<Rightarrow> int \<Rightarrow> 'a list option" where
  "go_slice xs a b =
     (if 0 \<le> a \<and> a \<le> b \<and> b \<le> int (length xs)
      then Some (take (nat (b - a)) (drop (nat a) xs)) else None)"

section \<open>Time\<close>

text \<open>
  An instant is a number of nanoseconds since the Unix epoch, a \<open>time.Duration\<close> a number of
  nanoseconds. A protobuf timestamp holds whole seconds and the nanoseconds within the second.
\<close>

type_synonym instant = int
type_synonym duration = int

definition time_Second :: duration where
  "time_Second = 1000000000"

definition time_Millisecond :: duration where
  "time_Millisecond = 1000000"

definition duration_Milliseconds :: "duration \<Rightarrow> int" where
  "duration_Milliseconds d = go_quot d time_Millisecond"

text \<open>\<open>Time.Sub\<close> (and so \<open>time.Until\<close>) saturates at the largest and smallest duration.\<close>

definition time_Sub :: "instant \<Rightarrow> instant \<Rightarrow> duration" where
  "time_Sub t u = max (- (2 ^ 63)) (min (2 ^ 63 - 1) (t - u))"

record Timestamp =
  Seconds :: int
  Nanos :: int

definition timestamppb_New :: "instant \<Rightarrow> Timestamp" where
  "timestamppb_New t = \<lparr>Seconds = t div 1000000000, Nanos = t mod 1000000000\<rparr>"

text \<open>\<open>AsTime\<close> on a missing timestamp is the epoch.\<close>

definition AsTime :: "Timestamp option \<Rightarrow> instant" where
  "AsTime ts = (case ts of None \<Rightarrow> 0 | Some t \<Rightarrow> Seconds t * 1000000000 + Nanos t)"

lemma AsTime_New [simp]: "AsTime (Some (timestamppb_New t)) = t"
  by (simp add: AsTime_def timestamppb_New_def)

end
