(* ===== verification/Redis.thy ===== *)
theory Redis
  imports GoStd
begin

text \<open>
  The interface to Redis. The server is not part of the repository, so it is a parameter of the
  model: one function \<open>call\<close> that executes a command on a server state of any type. What the
  service relies on is the locale \<open>redis_server\<close>, one assumption per command, in the words of
  the command's documentation, over an observer \<open>view\<close> that reads the key space. The theory
  also holds the two ways the service reaches the server (Lua scripts, which run atomically, and
  single commands of the Go client) and the \<open>world\<close> in which a Go function runs: the server
  together with the schedule of what other clients and the network do before each round trip.
  At the end, an in-memory server is shown to satisfy every assumption.
\<close>

section \<open>Commands, replies, key space\<close>

datatype cmd =
    EXISTS string
  | GET string
  | SET_PX string string string
  | PEXPIRE string string
  | DEL "string list"
  | SADD string string
  | SREM string "string list"
  | SMEMBERS string
  | INCR string
  | XADD string string "(string \<times> string) list"
  | XREAD nat string string

type_synonym stream_id = "nat \<times> nat"
type_synonym fields = "(string \<times> string) list"

datatype reply =
    ROk
  | RNil
  | RInt int
  | RBulk string
  | RArr "string list"
  | REntries "(string \<times> fields) list"
  | RErr string

datatype rvalue =
    RStr string
  | RSet "string set"
  | RStream "(stream_id \<times> fields) list"

text \<open>A live key has a value and, when it is volatile, a remaining time to live in milliseconds.\<close>

type_synonym keyspace = "string \<Rightarrow> (rvalue \<times> int option) option"

definition wrongtype :: string where
  "wrongtype = ''WRONGTYPE Operation against a key holding the wrong kind of value''"

definition bad_expire :: string where
  "bad_expire = ''ERR invalid expire time in 'set' command''"

definition not_integer :: string where
  "not_integer = ''ERR value is not an integer or out of range''"

definition incr_overflow :: string where
  "incr_overflow = ''ERR increment or decrement would overflow''"

definition bad_stream_id :: string where
  "bad_stream_id = ''ERR Invalid stream ID specified as stream command argument''"

definition small_stream_id :: string where
  "small_stream_id = ''ERR The ID specified in XADD is equal or smaller than the target stream top item''"

text \<open>Stream identifiers are printed and read as \<open>milliseconds-sequence\<close>.\<close>

definition show_stream_id :: "stream_id \<Rightarrow> string" where
  "show_stream_id i = dec (fst i) @ ''-'' @ dec (snd i)"

definition parse_stream_id :: "string \<Rightarrow> stream_id option" where
  "parse_stream_id s =
     (case strings_Cut s (CHR ''-'') of
        (a, b, True) \<Rightarrow>
          (case (ParseUint64 a, ParseUint64 b) of
             (Some m, Some n) \<Rightarrow> Some (m, n)
           | _ \<Rightarrow> None)
      | _ \<Rightarrow> None)"

definition id_less :: "stream_id \<Rightarrow> stream_id \<Rightarrow> bool" where
  "id_less i j \<longleftrightarrow> fst i < fst j \<or> (fst i = fst j \<and> snd i < snd j)"

text \<open>What the clock does to one key: a volatile key disappears when its time is used up.\<close>

definition expire_by :: "nat \<Rightarrow> (rvalue \<times> int option) option \<Rightarrow> (rvalue \<times> int option) option" where
  "expire_by d e =
     (case e of
        None \<Rightarrow> None
      | Some (v, None) \<Rightarrow> Some (v, None)
      | Some (v, Some t) \<Rightarrow> if t \<le> int d then None else Some (v, Some (t - int d)))"

lemma parse_show_stream_id [simp]:
  "a < 2 ^ 64 \<Longrightarrow> b < 2 ^ 64 \<Longrightarrow> parse_stream_id (dec a @ CHR ''-'' # dec b) = Some (a, b)"
  by (simp add: parse_stream_id_def strings_Cut_found)

section \<open>What the service relies on\<close>

locale redis_server =
  fixes call :: "cmd \<Rightarrow> 's \<Rightarrow> reply \<times> 's"
    and view :: "'s \<Rightarrow> keyspace"
    and advance :: "nat \<Rightarrow> 's \<Rightarrow> 's"
  assumes exists_reply: "fst (call (EXISTS k) s) = RInt (if view s k = None then 0 else 1)"
    and exists_view: "view (snd (call (EXISTS k) s)) = view s"
    and get_reply: "fst (call (GET k) s) =
      (case view s k of None \<Rightarrow> RNil | Some (RStr v, _) \<Rightarrow> RBulk v | _ \<Rightarrow> RErr wrongtype)"
    and get_view: "view (snd (call (GET k) s)) = view s"
    and set_px_reply: "fst (call (SET_PX k v px) s) =
      (case parse_int64 px of None \<Rightarrow> RErr not_integer
       | Some n \<Rightarrow> if 0 < n then ROk else RErr bad_expire)"
    and set_px_view: "view (snd (call (SET_PX k v px) s)) =
      (case parse_int64 px of None \<Rightarrow> view s
       | Some n \<Rightarrow> if 0 < n then (view s)(k \<mapsto> (RStr v, Some n)) else view s)"
    and pexpire_reply: "fst (call (PEXPIRE k px) s) =
      (case parse_int64 px of None \<Rightarrow> RErr not_integer
       | Some n \<Rightarrow> RInt (if view s k = None then 0 else 1))"
    and pexpire_view: "view (snd (call (PEXPIRE k px) s)) =
      (case (parse_int64 px, view s k) of
         (Some n, Some (v, _)) \<Rightarrow> if 0 < n then (view s)(k \<mapsto> (v, Some n)) else (view s)(k := None)
       | _ \<Rightarrow> view s)"
    and del_reply: "fst (call (DEL ks) s) = RInt (int (card (set ks \<inter> dom (view s))))"
    and del_view: "view (snd (call (DEL ks) s)) = (view s) |` (- set ks)"
    and sadd_reply: "fst (call (SADD k m) s) =
      (case view s k of None \<Rightarrow> RInt 1 | Some (RSet S, _) \<Rightarrow> RInt (if m \<in> S then 0 else 1)
       | _ \<Rightarrow> RErr wrongtype)"
    and sadd_view: "view (snd (call (SADD k m) s)) =
      (case view s k of None \<Rightarrow> (view s)(k \<mapsto> (RSet {m}, None))
       | Some (RSet S, t) \<Rightarrow> (view s)(k \<mapsto> (RSet (insert m S), t)) | _ \<Rightarrow> view s)"
    and srem_reply: "fst (call (SREM k ms) s) =
      (case view s k of None \<Rightarrow> RInt 0 | Some (RSet S, _) \<Rightarrow> RInt (int (card (S \<inter> set ms)))
       | _ \<Rightarrow> RErr wrongtype)"
    and srem_view: "view (snd (call (SREM k ms) s)) =
      (case view s k of
         Some (RSet S, t) \<Rightarrow>
           if S \<subseteq> set ms then (view s)(k := None) else (view s)(k \<mapsto> (RSet (S - set ms), t))
       | _ \<Rightarrow> view s)"
    and smembers_reply:
      "view s k = None \<Longrightarrow> fst (call (SMEMBERS k) s) = RArr []"
      "view s k = Some (RSet S, t) \<Longrightarrow>
         \<exists>xs. fst (call (SMEMBERS k) s) = RArr xs \<and> distinct xs \<and> set xs = S"
      "view s k = Some (RStr v, t) \<Longrightarrow> fst (call (SMEMBERS k) s) = RErr wrongtype"
      "view s k = Some (RStream es, t) \<Longrightarrow> fst (call (SMEMBERS k) s) = RErr wrongtype"
    and smembers_view: "view (snd (call (SMEMBERS k) s)) = view s"
    and incr_reply: "fst (call (INCR k) s) =
      (case view s k of
         None \<Rightarrow> RInt 1
       | Some (RStr v, _) \<Rightarrow>
           (case parse_int64 v of None \<Rightarrow> RErr not_integer
            | Some n \<Rightarrow> if n = 2 ^ 63 - 1 then RErr incr_overflow else RInt (n + 1))
       | _ \<Rightarrow> RErr wrongtype)"
    and incr_view: "view (snd (call (INCR k) s)) =
      (case view s k of
         None \<Rightarrow> (view s)(k \<mapsto> (RStr ''1'', None))
       | Some (RStr v, t) \<Rightarrow>
           (case parse_int64 v of None \<Rightarrow> view s
            | Some n \<Rightarrow> if n = 2 ^ 63 - 1 then view s
                         else (view s)(k \<mapsto> (RStr (dec_int (n + 1)), t)))
       | _ \<Rightarrow> view s)"
    and xadd_malformed:
      "\<exists>c \<in> set i. \<not> is_digit c \<and> c \<noteq> CHR ''-'' \<Longrightarrow> view s k = None \<or> view s k = Some (RStream es, t) \<Longrightarrow>
         call (XADD k i fs) s = (RErr bad_stream_id, s)"
    and xadd_new:
      "parse_stream_id i = Some n \<Longrightarrow> n \<noteq> (0, 0) \<Longrightarrow> view s k = None \<Longrightarrow>
         fst (call (XADD k i fs) s) = RBulk (show_stream_id n) \<and>
         view (snd (call (XADD k i fs) s)) = (view s)(k \<mapsto> (RStream [(n, fs)], None))"
    and xadd_append:
      "parse_stream_id i = Some n \<Longrightarrow> view s k = Some (RStream es, t) \<Longrightarrow> es \<noteq> [] \<Longrightarrow>
         id_less (fst (last es)) n \<Longrightarrow>
         fst (call (XADD k i fs) s) = RBulk (show_stream_id n) \<and>
         view (snd (call (XADD k i fs) s)) = (view s)(k \<mapsto> (RStream (es @ [(n, fs)]), t))"
    and xadd_small:
      "parse_stream_id i = Some n \<Longrightarrow> view s k = Some (RStream es, t) \<Longrightarrow> es \<noteq> [] \<Longrightarrow>
         \<not> id_less (fst (last es)) n \<Longrightarrow> call (XADD k i fs) s = (RErr small_stream_id, s)"
    and xread_reply:
      "view s k = None \<Longrightarrow> parse_stream_id i = Some n \<Longrightarrow> fst (call (XREAD c k i) s) = RNil"
      "view s k = Some (RStream es, t) \<Longrightarrow> parse_stream_id i = Some n \<Longrightarrow> 0 < c \<Longrightarrow>
         fst (call (XREAD c k i) s) =
           (case take c (filter (\<lambda>e. id_less n (fst e)) es) of
              [] \<Rightarrow> RNil
            | xs \<Rightarrow> REntries (map (\<lambda>e. (show_stream_id (fst e), snd e)) xs))"
    and xread_view: "view (snd (call (XREAD c k i) s)) = view s"
    and advance_view: "view (advance d s) k = expire_by d (view s k)"
begin

lemmas view_laws [view_simps] =
  exists_reply exists_view get_reply get_view set_px_reply set_px_view pexpire_reply pexpire_view
  del_reply del_view sadd_reply sadd_view srem_reply srem_view smembers_view incr_reply incr_view
  xread_view advance_view

lemma smembers_set:
  assumes "view s k = None \<and> S = {} \<or> (\<exists>t. view s k = Some (RSet S, t))"
  shows "\<exists>xs. fst (call (SMEMBERS k) s) = RArr xs \<and> distinct xs \<and> set xs = S"
  using assms smembers_reply(1,2) by fastforce

end

section \<open>Lua scripts\<close>

text \<open>
  \<open>redis.call\<close> inside a script: an error reply aborts the script (the writes already made
  stay), any other reply is the value of the call. \<open>return {err = e}\<close> ends the script with
  the error \<open>e\<close>, which the client sees like an error of a command.
\<close>

type_synonym ('s, 'a) script = "(string, 's, 'a) sem"

definition redis_call :: "(cmd \<Rightarrow> 's \<Rightarrow> reply \<times> 's) \<Rightarrow> cmd \<Rightarrow> ('s, reply) script" where
  "redis_call call c = (\<lambda>s. case call c s of (RErr e, s') \<Rightarrow> (Inl e, s') | (r, s') \<Rightarrow> (Inr r, s'))"

lemma redis_call_apply [sem_simps]:
  "redis_call call c s =
     (case fst (call c s) of RErr e \<Rightarrow> (Inl e, snd (call c s)) | r \<Rightarrow> (Inr r, snd (call c s)))"
  by (simp add: redis_call_def split: prod.splits reply.splits)

section \<open>The world of a Go function\<close>

text \<open>
  Errors of Go code. \<open>Wrap\<close> is \<open>fmt.Errorf("context: %w", err)\<close>, the three registry errors
  and \<open>redis.Nil\<close> are sentinel values, any other error is known by its text.
\<close>

datatype go_err =
    ErrText string
  | RedisNil
  | ErrAlreadyRegistered
  | ErrNotFound
  | ErrLeaseNotOwned
  | Wrap string go_err

primrec errors_Is :: "go_err \<Rightarrow> go_err \<Rightarrow> bool" where
  "errors_Is (ErrText m) t = (ErrText m = t)"
| "errors_Is RedisNil t = (RedisNil = t)"
| "errors_Is ErrAlreadyRegistered t = (ErrAlreadyRegistered = t)"
| "errors_Is ErrNotFound t = (ErrNotFound = t)"
| "errors_Is ErrLeaseNotOwned t = (ErrLeaseNotOwned = t)"
| "errors_Is (Wrap c e) t = (Wrap c e = t \<or> errors_Is e t)"

primrec Error :: "go_err \<Rightarrow> string" where
  "Error (ErrText m) = m"
| "Error RedisNil = ''redis: nil''"
| "Error ErrAlreadyRegistered = ''instance is already registered''"
| "Error ErrNotFound = ''instance was not found''"
| "Error ErrLeaseNotOwned = ''lease is not owned''"
| "Error (Wrap c e) = c @ '': '' @ Error e"

text \<open>
  What happens around one round trip: other clients (and the clock) first change the server in
  any way, then the network delivers the reply, refuses the request before it reaches the
  server, or loses the reply after the server has executed the request.
\<close>

datatype net = Reply | Refused string | Lost string

record 's world =
  db :: 's
  sched :: "(('s \<Rightarrow> 's) \<times> net) list"

definition quiet :: "'s \<Rightarrow> 's world" where
  "quiet s = \<lparr>db = s, sched = []\<rparr>"

definition roundtrip :: "('s \<Rightarrow> 'r \<times> 's) \<Rightarrow> (go_err, 's world, 'r) sem" where
  "roundtrip f w =
     (let (others, n) = (case sched w of [] \<Rightarrow> (id, Reply) | x # _ \<Rightarrow> x);
          s = others (db w); (r, s') = f s; rest = tl (sched w)
      in case n of
           Reply \<Rightarrow> (Inr r, \<lparr>db = s', sched = rest\<rparr>)
         | Refused e \<Rightarrow> (Inl (ErrText e), \<lparr>db = s, sched = rest\<rparr>)
         | Lost e \<Rightarrow> (Inl (ErrText e), \<lparr>db = s', sched = rest\<rparr>))"

text \<open>One command of the Go client: a nil reply is \<open>redis.Nil\<close>, an error reply an error.\<close>

definition client_do :: "(cmd \<Rightarrow> 's \<Rightarrow> reply \<times> 's) \<Rightarrow> cmd \<Rightarrow> (go_err, 's world, reply) sem" where
  "client_do call c =
     bindE (roundtrip (call c))
       (\<lambda>r. case r of RErr e \<Rightarrow> raiseE (ErrText e) | RNil \<Rightarrow> raiseE RedisNil | _ \<Rightarrow> returnE r)"

text \<open>\<open>redis.Script.Run\<close>: the whole script is one atomic round trip.\<close>

definition script_Run :: "('s, 'a) script \<Rightarrow> (go_err, 's world, 'a) sem" where
  "script_Run f =
     bindE (roundtrip f) (\<lambda>r. case r of Inl e \<Rightarrow> raiseE (ErrText e) | Inr x \<Rightarrow> returnE x)"

lemma quiet_simps [simp]: "db (quiet s) = s" "sched (quiet s) = []"
  by (simp_all add: quiet_def)

lemma quiet_inject [simp]: "quiet s = quiet s' \<longleftrightarrow> s = s'"
  by (simp add: quiet_def)

lemma roundtrip_Nil:
  "sched w = [] \<Longrightarrow>
     roundtrip f w = (Inr (fst (f (db w))), \<lparr>db = snd (f (db w)), sched = []\<rparr>)"
  by (simp add: roundtrip_def split_beta Let_def)

lemma roundtrip_Cons:
  "sched w = (others, n) # rest \<Longrightarrow>
     roundtrip f w =
       (let s = others (db w) in
        case n of
          Reply \<Rightarrow> (Inr (fst (f s)), \<lparr>db = snd (f s), sched = rest\<rparr>)
        | Refused e \<Rightarrow> (Inl (ErrText e), \<lparr>db = s, sched = rest\<rparr>)
        | Lost e \<Rightarrow> (Inl (ErrText e), \<lparr>db = snd (f s), sched = rest\<rparr>))"
  by (simp add: roundtrip_def split_beta Let_def split: net.splits)

lemma roundtrip_quiet [sem_simps]: "roundtrip f (quiet s) = (Inr (fst (f s)), quiet (snd (f s)))"
  by (simp add: roundtrip_Nil quiet_def)

text \<open>
  A world in which the other clients change the server along a relation \<open>R\<close> only, and the
  server satisfies \<open>P\<close>. A round trip keeps such a world when \<open>R\<close> and the request keep \<open>P\<close>,
  whatever the network does.
\<close>

definition rely :: "('s \<Rightarrow> 's \<Rightarrow> bool) \<Rightarrow> ('s \<Rightarrow> bool) \<Rightarrow> 's world \<Rightarrow> bool" where
  "rely R P w \<longleftrightarrow> P (db w) \<and> (\<forall>(others, n) \<in> set (sched w). \<forall>s. R s (others s))"

definition closed_under :: "('s \<Rightarrow> 's \<Rightarrow> bool) \<Rightarrow> ('s \<Rightarrow> bool) \<Rightarrow> bool" where
  "closed_under R P \<longleftrightarrow> (\<forall>s s'. P s \<longrightarrow> R s s' \<longrightarrow> P s')"

lemma closed_underD: "closed_under R P \<Longrightarrow> P s \<Longrightarrow> R s s' \<Longrightarrow> P s'"
  by (auto simp: closed_under_def)

lemma rely_db: "rely R P w \<Longrightarrow> P (db w)"
  by (simp add: rely_def)

lemma rely_quiet [simp]: "rely R P (quiet s) = P s"
  by (simp add: rely_def quiet_def)

text \<open>What a round trip does: it runs on a state the others left, or fails.\<close>

lemma roundtrip_cases:
  assumes "rely R P w" and "closed_under R P"
  obtains s where "P s" "roundtrip f w = (Inr (fst (f s)), \<lparr>db = snd (f s), sched = tl (sched w)\<rparr>)"
  | s e where "P s" "roundtrip f w = (Inl (ErrText e), \<lparr>db = s, sched = tl (sched w)\<rparr>)"
  | s e where "P s" "roundtrip f w = (Inl (ErrText e), \<lparr>db = snd (f s), sched = tl (sched w)\<rparr>)"
proof (cases "sched w")
  case Nil
  with assms(1) show thesis by (intro that(1) [of "db w"]) (simp_all add: roundtrip_Nil rely_def)
next
  case (Cons x rest)
  then obtain others n where x: "sched w = (others, n) # rest" by (cases x) simp
  with assms have "P (others (db w))" by (auto simp: rely_def closed_under_def)
  then show thesis
    using x that by (cases n) (auto simp: roundtrip_Cons Let_def)
qed

lemma rely_tl: "rely R P w \<Longrightarrow> P s \<Longrightarrow> rely R P \<lparr>db = s, sched = tl (sched w)\<rparr>"
  by (cases "sched w") (auto simp: rely_def)

lemma keeps_roundtrip:
  assumes closed: "closed_under R P" and f: "\<And>s. P s \<Longrightarrow> P (snd (f s))"
  shows "keeps (rely R P) (roundtrip f)"
proof (rule keepsI)
  fix w
  assume w: "rely R P w"
  show "rely R P (snd (roundtrip f w))"
    by (rule roundtrip_cases [OF w closed, of f]) (simp_all add: rely_tl [OF w] f)
qed

lemma keeps_client_do:
  assumes "closed_under R P" and "\<And>s. P s \<Longrightarrow> P (snd (call c s))"
  shows "keeps (rely R P) (client_do call c)"
  unfolding client_do_def
  by (rule keeps_bind, rule keeps_roundtrip [OF assms(1)], erule assms(2)) (auto split: reply.splits)

lemma keeps_script_Run:
  assumes "closed_under R P" and "\<And>s. P s \<Longrightarrow> P (snd (f s))"
  shows "keeps (rely R P) (script_Run f)"
  unfolding script_Run_def
  by (rule keeps_bind, rule keeps_roundtrip [OF assms(1)], erule assms(2)) (auto split: sum.splits)

end
