(* ===== verification/GoBytes.thy ===== *)
theory GoBytes
  imports GoStd
begin

text \<open>
  Byte encodings of the Go standard library that the service relies on: lower-case hexadecimal
  (\<open>encoding/hex\<close>), unpadded URL-safe base64 (\<open>base64.RawURLEncoding\<close>) and the validity
  of UTF-8 strings (\<open>unicode/utf8\<close>). Both encodings are shown to be injective, so equal
  printed tokens come from equal bytes.
\<close>

section \<open>Hexadecimal\<close>

definition hex_digit :: "nat \<Rightarrow> char" where
  "hex_digit d = ''0123456789abcdef'' ! d"

definition byte :: "char \<Rightarrow> nat" where
  "byte c = of_char c"

primrec hex_EncodeToString :: "string \<Rightarrow> string" where
  "hex_EncodeToString [] = []"
| "hex_EncodeToString (c # cs) =
     hex_digit (byte c div 16) # hex_digit (byte c mod 16) # hex_EncodeToString cs"

lemma byte_less [simp]: "byte c < 256"
  by (simp add: byte_def)

lemma byte_eq_iff [simp]: "byte c = byte d \<longleftrightarrow> c = d"
  by (simp add: byte_def)

lemma hex_digit_inj: "d < 16 \<Longrightarrow> e < 16 \<Longrightarrow> hex_digit d = hex_digit e \<longleftrightarrow> d = e"
proof -
  have "distinct ''0123456789abcdef''" by simp
  moreover assume "d < 16" "e < 16"
  ultimately show ?thesis unfolding hex_digit_def by (subst nth_eq_iff_index_eq) auto
qed

lemma length_hex [simp]: "length (hex_EncodeToString s) = 2 * length s"
  by (induction s) auto

lemma hex_inj: "hex_EncodeToString s = hex_EncodeToString t \<longleftrightarrow> s = t"
proof (induction s arbitrary: t)
  case Nil
  then show ?case by (cases t) auto
next
  case (Cons c cs)
  show ?case
  proof (cases t)
    case Nil
    then show ?thesis by simp
  next
    case (Cons d ds)
    have "byte c div 16 = byte d div 16 \<and> byte c mod 16 = byte d mod 16 \<longleftrightarrow> c = d"
      by (metis byte_eq_iff div_mult_mod_eq)
    then show ?thesis
      using Cons.IH Cons by (auto simp: hex_digit_inj less_mult_imp_div_less)
  qed
qed

section \<open>Base64, URL alphabet, no padding\<close>

definition b64_alphabet :: string where
  "b64_alphabet = ''ABCDEFGHIJKLMNOPQRSTUVWXYZabcdefghijklmnopqrstuvwxyz0123456789-_''"

definition b64_char :: "nat \<Rightarrow> char" where
  "b64_char d = b64_alphabet ! d"

fun b64_sextets :: "nat list \<Rightarrow> nat list" where
  "b64_sextets (a # b # c # xs) =
     a div 4 # ((a mod 4) * 16 + b div 16) # ((b mod 16) * 4 + c div 64) # (c mod 64)
       # b64_sextets xs"
| "b64_sextets [a, b] = [a div 4, (a mod 4) * 16 + b div 16, (b mod 16) * 4]"
| "b64_sextets [a] = [a div 4, (a mod 4) * 16]"
| "b64_sextets [] = []"

definition base64_RawURL_EncodeToString :: "string \<Rightarrow> string" where
  "base64_RawURL_EncodeToString s = map b64_char (b64_sextets (map byte s))"

lemma b64_char_inj: "d < 64 \<Longrightarrow> e < 64 \<Longrightarrow> b64_char d = b64_char e \<longleftrightarrow> d = e"
proof -
  have "distinct b64_alphabet" "length b64_alphabet = 64" by (simp_all add: b64_alphabet_def)
  moreover assume "d < 64" "e < 64"
  ultimately show ?thesis unfolding b64_char_def by (subst nth_eq_iff_index_eq) auto
qed

lemma b64_sextets_bound:
  "\<forall>x \<in> set xs. x < 256 \<Longrightarrow> y \<in> set (b64_sextets xs) \<Longrightarrow> y < 64"
  by (induction xs rule: b64_sextets.induct) auto

lemma mult_add_inj:
  fixes x y m :: nat
  assumes "x * m + y = x' * m + y'" and "y < m" and "y' < m"
  shows "x = x' \<and> y = y'"
proof -
  have "(x * m + y) div m = (x' * m + y') div m" "(x * m + y) mod m = (x' * m + y') mod m"
    using assms(1) by simp_all
  then show ?thesis using assms(2,3) by simp
qed

lemma div_mod_inj: "(x :: nat) div m = y div m \<Longrightarrow> x mod m = y mod m \<Longrightarrow> x = y"
  by (metis div_mult_mod_eq)

lemma inj_byte: "inj byte"
  by (simp add: inj_def)

lemma b64_sextets_inj:
  "\<forall>x \<in> set xs. x < 256 \<Longrightarrow> \<forall>y \<in> set ys. y < 256 \<Longrightarrow> b64_sextets xs = b64_sextets ys \<Longrightarrow> xs = ys"
proof (induction xs arbitrary: ys rule: b64_sextets.induct)
  case (1 a b c xs)
  from "1.prems"(3) obtain a' b' c' zs where ys: "ys = a' # b' # c' # zs"
    by (cases ys rule: b64_sextets.cases) auto
  have "xs = zs" using "1.IH" [of zs] "1.prems" ys by simp
  moreover have "a mod 4 = a' mod 4 \<and> b div 16 = b' div 16"
    by (rule mult_add_inj [where m = 16]) (use "1.prems" ys in \<open>simp_all add: less_mult_imp_div_less\<close>)
  moreover have "b mod 16 = b' mod 16 \<and> c div 64 = c' div 64"
    by (rule mult_add_inj [where m = 4]) (use "1.prems" ys in \<open>simp_all add: less_mult_imp_div_less\<close>)
  moreover have "a div 4 = a' div 4" "c mod 64 = c' mod 64"
    using "1.prems" ys by auto
  ultimately have "xs = zs \<and> a = a' \<and> b = b' \<and> c = c'"
    by (blast intro: div_mod_inj)
  then show ?case using ys by simp
next
  case (2 a b)
  then obtain a' b' where ys: "ys = [a', b']"
    by (cases ys rule: b64_sextets.cases) auto
  have "a mod 4 = a' mod 4 \<and> b div 16 = b' div 16"
    by (rule mult_add_inj [where m = 16]) (use "2.prems" ys in \<open>simp_all add: less_mult_imp_div_less\<close>)
  moreover have "a div 4 = a' div 4" "b mod 16 = b' mod 16"
    using "2.prems" ys by auto
  ultimately have "a = a' \<and> b = b'" by (blast intro: div_mod_inj)
  then show ?case using ys by simp
next
  case (3 a)
  then obtain a' where ys: "ys = [a']"
    by (cases ys rule: b64_sextets.cases) auto
  have "a div 4 = a' div 4" "a mod 4 = a' mod 4" using "3.prems" ys by simp_all
  then have "a = a'" by (rule div_mod_inj)
  then show ?case using ys by simp
next
  case 4
  then show ?case by (cases ys rule: b64_sextets.cases) auto
qed

lemma length_b64_sextets: "length (b64_sextets xs) = (length xs * 4 + 2) div 3"
  by (induction xs rule: b64_sextets.induct) auto

lemma base64_length: "length (base64_RawURL_EncodeToString s) = (length s * 4 + 2) div 3"
  by (simp add: base64_RawURL_EncodeToString_def length_b64_sextets)

lemma base64_inj:
  "base64_RawURL_EncodeToString s = base64_RawURL_EncodeToString t \<longleftrightarrow> s = t"
proof
  assume eq: "base64_RawURL_EncodeToString s = base64_RawURL_EncodeToString t"
  let ?S = "b64_sextets (map byte s)" and ?T = "b64_sextets (map byte t)"
  have "inj_on b64_char (set ?S \<union> set ?T)"
  proof (rule inj_onI)
    fix x y assume "x \<in> set ?S \<union> set ?T" "y \<in> set ?S \<union> set ?T"
    then have "x < 64" "y < 64"
      using b64_sextets_bound [of "map byte s"] b64_sextets_bound [of "map byte t"] by auto
    then show "b64_char x = b64_char y \<Longrightarrow> x = y" by (simp add: b64_char_inj)
  qed
  then have "?S = ?T"
    using eq unfolding base64_RawURL_EncodeToString_def by (metis inj_on_map_eq_map)
  then have "map byte s = map byte t"
    by (rule b64_sextets_inj [rotated 2]) simp_all
  then show "s = t" by (simp add: inj_map_eq_map inj_byte)
qed simp

section \<open>UTF-8\<close>

definition cont :: "nat \<Rightarrow> bool" where
  "cont b \<longleftrightarrow> 128 \<le> b \<and> b \<le> 191"

text \<open>
  The well-formed byte sequences of the Unicode standard, table 3-7, as \<open>utf8.ValidString\<close>
  decides them: no overlong forms, no surrogates, nothing above U+10FFFF.
\<close>

fun valid_utf8_bytes :: "nat list \<Rightarrow> bool" where
  "valid_utf8_bytes [] = True"
| "valid_utf8_bytes (a # xs) =
     (if a < 128 then valid_utf8_bytes xs
      else if 194 \<le> a \<and> a \<le> 223 then
        (case xs of b # ys \<Rightarrow> cont b \<and> valid_utf8_bytes ys | _ \<Rightarrow> False)
      else if 224 \<le> a \<and> a \<le> 239 then
        (case xs of b # c # ys \<Rightarrow>
           cont b \<and> cont c \<and> (a = 224 \<longrightarrow> 160 \<le> b) \<and> (a = 237 \<longrightarrow> b \<le> 159) \<and> valid_utf8_bytes ys
         | _ \<Rightarrow> False)
      else if 240 \<le> a \<and> a \<le> 244 then
        (case xs of b # c # d # ys \<Rightarrow>
           cont b \<and> cont c \<and> cont d \<and> (a = 240 \<longrightarrow> 144 \<le> b) \<and> (a = 244 \<longrightarrow> b \<le> 143)
           \<and> valid_utf8_bytes ys
         | _ \<Rightarrow> False)
      else False)"

definition utf8_ValidString :: "string \<Rightarrow> bool" where
  "utf8_ValidString s = valid_utf8_bytes (map byte s)"

lemma utf8_ascii: "\<forall>c \<in> set s. byte c < 128 \<Longrightarrow> utf8_ValidString s"
  unfolding utf8_ValidString_def by (induction s) auto

end
