(* ===== verification/RegistryTypes.thy ===== *)
theory RegistryTypes
  imports Redis GoBytes "HOL-Library.Finite_Map"
begin

text \<open>
  The messages of the registry protocol as the Go code reads and writes them (the fields of the
  generated protobuf structs that the source names), and the code outside the repository the
  registry calls, collected in the record \<open>platform\<close>: the Redis server, the JSON codec of
  the generated instance struct, SHA-256, URL parsing and \<open>sort.Slice\<close>. What the registry
  relies on of each is a locale; \<open>registry_deps\<close> is their conjunction.
\<close>

section \<open>Messages\<close>

text \<open>Protobuf enums are open: a value outside the named ones stays an integer.\<close>

datatype InstanceStatus =
    STATUS_UNSPECIFIED
  | STATUS_HEALTHY
  | STATUS_DRAINING
  | STATUS_OTHER int

record ServiceInstance =
  si_ServiceName :: string
  si_InstanceId :: string
  si_Endpoint :: string
  si_Protocol :: string
  si_Status :: InstanceStatus
  si_Weight :: nat
  si_Version :: string
  si_Metadata :: "(string, string) fmap"
  si_RegisteredAt :: "Timestamp option"
  si_UpdatedAt :: "Timestamp option"
  si_LeaseExpiresAt :: "Timestamp option"

record RegisterInstanceRequest =
  rir_Instance :: "ServiceInstance option"
  rir_LeaseSeconds :: nat

record RegisterInstanceResponse =
  ris_Instance :: ServiceInstance
  ris_LeaseToken :: string
  ris_Revision :: nat

record RenewLeaseRequest =
  rlr_ServiceName :: string
  rlr_InstanceId :: string
  rlr_LeaseToken :: string
  rlr_LeaseSeconds :: nat

record InstanceResponse =
  ir_Instance :: ServiceInstance
  ir_Revision :: nat

record DeregisterInstanceRequest =
  dir_ServiceName :: string
  dir_InstanceId :: string
  dir_LeaseToken :: string

record SetInstanceStatusRequest =
  ssr_ServiceName :: string
  ssr_InstanceId :: string
  ssr_LeaseToken :: string
  ssr_Status :: InstanceStatus

record ListInstancesRequest =
  lir_ServiceName :: string
  lir_Selector :: "(string, string) fmap"
  lir_IncludeDraining :: bool

record ListInstancesResponse =
  lis_Instances :: "ServiceInstance list"
  lis_Revision :: nat

record ServiceSummary =
  ss_ServiceName :: string
  ss_HealthyInstances :: nat
  ss_DrainingInstances :: nat

record ListServicesResponse =
  lss_Services :: "ServiceSummary list"
  lss_Revision :: nat

text \<open>\<open>url.URL\<close>, as far as the source looks into it.\<close>

record URL =
  url_Scheme :: string
  url_Host :: string

section \<open>Code outside the repository\<close>

record 's platform =
  rcall :: "cmd \<Rightarrow> 's \<Rightarrow> reply \<times> 's"
  json_Marshal :: "ServiceInstance \<Rightarrow> string + string"
  json_Unmarshal :: "string \<Rightarrow> string + ServiceInstance"
  sha256_Sum256 :: "string \<Rightarrow> string"
  url_Parse :: "string \<Rightarrow> URL option"
  sort_instances ::
    "(ServiceInstance \<Rightarrow> ServiceInstance \<Rightarrow> bool) \<Rightarrow> ServiceInstance list \<Rightarrow> ServiceInstance list"
  sort_summaries ::
    "(ServiceSummary \<Rightarrow> ServiceSummary \<Rightarrow> bool) \<Rightarrow> ServiceSummary list \<Rightarrow> ServiceSummary list"

text \<open>
  The strings of an instance are valid UTF-8. Protobuf guarantees it of every string field of a
  decoded message, and \<open>encoding/json\<close> keeps such strings unchanged (it replaces other bytes).
\<close>

definition inst_utf8 :: "ServiceInstance \<Rightarrow> bool" where
  "inst_utf8 i \<longleftrightarrow>
     utf8_ValidString (si_ServiceName i) \<and> utf8_ValidString (si_InstanceId i) \<and>
     utf8_ValidString (si_Endpoint i) \<and> utf8_ValidString (si_Protocol i) \<and>
     utf8_ValidString (si_Version i) \<and>
     fmpred (\<lambda>k v. utf8_ValidString k \<and> utf8_ValidString v) (si_Metadata i)"

text \<open>JSON: an instance is printed as an object (which starts with a brace) and read back.\<close>

locale json_codec =
  fixes marshal :: "ServiceInstance \<Rightarrow> string + string"
    and unmarshal :: "string \<Rightarrow> string + ServiceInstance"
  assumes marshal_unmarshal: "inst_utf8 i \<Longrightarrow> \<exists>p. marshal i = Inr (CHR ''{'' # p) \<and> unmarshal (CHR ''{'' # p) = Inr i"
begin

lemma marshalE:
  assumes "inst_utf8 i"
  obtains p where "marshal i = Inr p" "unmarshal p = Inr i" "p \<noteq> []" "p \<noteq> ''<nil>''"
  using marshal_unmarshal [OF assms] by auto

end

text \<open>
  \<open>sort.Slice\<close> with a comparison of string keys: the result is a permutation, in order of the
  keys. The order of elements with equal keys is not specified (the sort is not stable).
\<close>

locale sort_slice =
  fixes srt :: "('a \<Rightarrow> 'a \<Rightarrow> bool) \<Rightarrow> 'a list \<Rightarrow> 'a list"
  assumes srt_mset: "mset (srt lt xs) = mset xs"
    and srt_sorted: "sorted (map f (srt (\<lambda>x y. f x < (f y :: string)) xs))"
begin

lemma srt_set [simp]: "set (srt lt xs) = set xs"
  by (metis srt_mset mset_eq_setD)

lemma srt_length [simp]: "length (srt lt xs) = length xs"
  by (metis srt_mset mset_eq_length)

text \<open>With distinct keys the result is determined, whatever order the input had.\<close>

lemma srt_unique:
  assumes "distinct (map f xs)" and "mset xs = mset ys"
  shows "srt (\<lambda>x y. f x < (f y :: string)) xs = sort_key f ys"
proof (rule sorted_perm_unique [where f = f])
  show "mset (srt (\<lambda>x y. f x < f y) xs) = mset (sort_key f ys)"
    using assms(2) by (simp add: srt_mset)
  show "inj_on f (set (srt (\<lambda>x y. f x < f y) xs))"
    using assms(1) by (simp add: distinct_map)
qed (simp_all add: srt_sorted)

end

locale registry_deps =
  redis_server "rcall D" view advance +
  json_codec "json_Marshal D" "json_Unmarshal D" +
  insts: sort_slice "sort_instances D" +
  summs: sort_slice "sort_summaries D"
  for D :: "'s platform" and view and advance

end
