(* ===== verification/RegistryStore.thy ===== *)
theory RegistryStore
  imports RegistryTypes
begin

text \<open>
  The registry's store (\<open>internal/registry/store.go\<close>): the names of its Redis keys, its three
  Lua scripts, and every method of \<open>Store\<close> as a computation on the \<open>world\<close> of
  theory \<open>Redis\<close>. The lemmas are about the key names and about the effect of each script on
  the key space; the invariant and the contract of the store are in \<open>RegistryInvariant\<close>.
\<close>

section \<open>Keys\<close>

definition keyPrefix :: string where
  "keyPrefix = ''platform:registry:''"

definition instanceKey :: "string \<Rightarrow> string \<Rightarrow> string" where
  "instanceKey service instance = keyPrefix @ ''instance:'' @ service @ '':'' @ instance"

definition tokenKey :: "string \<Rightarrow> string \<Rightarrow> string" where
  "tokenKey service instance = keyPrefix @ ''token:'' @ service @ '':'' @ instance"

definition serviceKey :: "string \<Rightarrow> string" where
  "serviceKey service = keyPrefix @ ''service:'' @ service"

definition revisionKey :: string where
  "revisionKey = keyPrefix @ ''revision''"

definition streamKey :: string where
  "streamKey = keyPrefix @ ''changes''"

definition servicesKey :: string where
  "servicesKey = keyPrefix @ ''services''"

section \<open>Scripts\<close>

text \<open>\<open>KEYS[n]\<close> and \<open>ARGV[n]\<close> of a script count from one; an integer reply is a Lua number.\<close>

definition arg :: "string list \<Rightarrow> nat \<Rightarrow> string" where
  "arg xs n = xs ! (n - 1)"

definition lua_of_reply :: "reply \<Rightarrow> nat" where
  "lua_of_reply r = (case r of RInt n \<Rightarrow> lua_number (nat n) | _ \<Rightarrow> 0)"

definition registerScript ::
  "(cmd \<Rightarrow> 's \<Rightarrow> reply \<times> 's) \<Rightarrow> string list \<Rightarrow> string list \<Rightarrow> ('s, nat) script" where
  "registerScript call KEYS ARGV =
     bindE (redis_call call (EXISTS (arg KEYS 1))) (\<lambda>existing.
     if existing = RInt 1 then raiseE ''ALREADY_REGISTERED'' else
     bindE (redis_call call (SET_PX (arg KEYS 1) (arg ARGV 1) (arg ARGV 3))) (\<lambda>_.
     bindE (redis_call call (SET_PX (arg KEYS 2) (arg ARGV 2) (arg ARGV 3))) (\<lambda>_.
     bindE (redis_call call (SADD (arg KEYS 3) (arg ARGV 4))) (\<lambda>_.
     bindE (redis_call call (SADD (arg KEYS 6) (arg ARGV 5))) (\<lambda>_.
     bindE (redis_call call (INCR (arg KEYS 4))) (\<lambda>r.
     let revision = lua_of_reply r in
     bindE (redis_call call (XADD (arg KEYS 5) (lua_tostring revision @ ''-0'')
       [(''revision'', dec revision), (''type'', ''upsert''), (''service'', arg ARGV 5),
        (''instance'', arg ARGV 4), (''payload'', arg ARGV 1)])) (\<lambda>_.
     returnE revision)))))))"

definition updateScript ::
  "(cmd \<Rightarrow> 's \<Rightarrow> reply \<times> 's) \<Rightarrow> string list \<Rightarrow> string list \<Rightarrow> ('s, nat) script" where
  "updateScript call KEYS ARGV =
     bindE (redis_call call (GET (arg KEYS 2))) (\<lambda>token.
     if token = RNil then raiseE ''NOT_FOUND''
     else if token \<noteq> RBulk (arg ARGV 2) then raiseE ''LEASE_NOT_OWNED'' else
     bindE (redis_call call (SET_PX (arg KEYS 1) (arg ARGV 1) (arg ARGV 3))) (\<lambda>_.
     bindE (redis_call call (PEXPIRE (arg KEYS 2) (arg ARGV 3))) (\<lambda>_.
     bindE (redis_call call (INCR (arg KEYS 3))) (\<lambda>r.
     let revision = lua_of_reply r in
     bindE (redis_call call (XADD (arg KEYS 4) (lua_tostring revision @ ''-0'')
       [(''revision'', dec revision), (''type'', ''upsert''), (''service'', arg ARGV 4),
        (''instance'', arg ARGV 5), (''payload'', arg ARGV 1)])) (\<lambda>_.
     returnE revision)))))"

definition deleteScript ::
  "(cmd \<Rightarrow> 's \<Rightarrow> reply \<times> 's) \<Rightarrow> string list \<Rightarrow> string list \<Rightarrow> ('s, nat) script" where
  "deleteScript call KEYS ARGV =
     bindE (redis_call call (GET (arg KEYS 2))) (\<lambda>token.
     if token = RNil then raiseE ''NOT_FOUND''
     else if token \<noteq> RBulk (arg ARGV 1) then raiseE ''LEASE_NOT_OWNED'' else
     bindE (redis_call call (DEL [arg KEYS 1, arg KEYS 2])) (\<lambda>_.
     bindE (redis_call call (SREM (arg KEYS 3) [arg ARGV 2])) (\<lambda>_.
     bindE (redis_call call (INCR (arg KEYS 4))) (\<lambda>r.
     let revision = lua_of_reply r in
     bindE (redis_call call (XADD (arg KEYS 5) (lua_tostring revision @ ''-0'')
       [(''revision'', dec revision), (''type'', ''delete''), (''service'', arg ARGV 3),
        (''instance'', arg ARGV 2)])) (\<lambda>_.
     returnE revision)))))"

section \<open>Methods of Store\<close>

definition hashToken :: "'s platform \<Rightarrow> string \<Rightarrow> string" where
  "hashToken D token = hex_EncodeToString (sha256_Sum256 D token)"

definition mapScriptError :: "go_err \<Rightarrow> go_err" where
  "mapScriptError err =
     (if strings_Contains (Error err) ''ALREADY_REGISTERED'' then ErrAlreadyRegistered
      else if strings_Contains (Error err) ''NOT_FOUND'' then ErrNotFound
      else if strings_Contains (Error err) ''LEASE_NOT_OWNED'' then ErrLeaseNotOwned
      else err)"

definition run_mapped :: "('s, nat) script \<Rightarrow> (go_err, 's world, nat) sem" where
  "run_mapped f =
     tryE (script_Run f) (\<lambda>r. case r of Inl err \<Rightarrow> raiseE (mapScriptError err) | Inr n \<Rightarrow> returnE n)"

definition register_script_for ::
  "'s platform \<Rightarrow> ServiceInstance \<Rightarrow> string \<Rightarrow> string \<Rightarrow> duration \<Rightarrow> ('s, nat) script" where
  "register_script_for D i payload token lease =
     registerScript (rcall D)
       [instanceKey (si_ServiceName i) (si_InstanceId i), tokenKey (si_ServiceName i) (si_InstanceId i),
        serviceKey (si_ServiceName i), revisionKey, streamKey, servicesKey]
       [payload, hashToken D token, dec_int (duration_Milliseconds lease), si_InstanceId i,
        si_ServiceName i]"

definition Store_Register ::
  "'s platform \<Rightarrow> ServiceInstance \<Rightarrow> string \<Rightarrow> duration \<Rightarrow> (go_err, 's world, nat) sem" where
  "Store_Register D i token lease =
     (case json_Marshal D i of
        Inl err \<Rightarrow> raiseE (Wrap ''marshal instance'' (ErrText err))
      | Inr payload \<Rightarrow> run_mapped (register_script_for D i payload token lease))"

definition update_script_for ::
  "'s platform \<Rightarrow> ServiceInstance \<Rightarrow> string \<Rightarrow> string \<Rightarrow> duration \<Rightarrow> ('s, nat) script" where
  "update_script_for D i payload token lease =
     updateScript (rcall D)
       [instanceKey (si_ServiceName i) (si_InstanceId i), tokenKey (si_ServiceName i) (si_InstanceId i),
        revisionKey, streamKey]
       [payload, hashToken D token, dec_int (duration_Milliseconds lease), si_ServiceName i,
        si_InstanceId i]"

definition Store_Update ::
  "'s platform \<Rightarrow> ServiceInstance \<Rightarrow> string \<Rightarrow> duration \<Rightarrow> (go_err, 's world, nat) sem" where
  "Store_Update D i token lease =
     (case json_Marshal D i of
        Inl err \<Rightarrow> raiseE (Wrap ''marshal instance'' (ErrText err))
      | Inr payload \<Rightarrow> run_mapped (update_script_for D i payload token lease))"

definition delete_script_for ::
  "'s platform \<Rightarrow> string \<Rightarrow> string \<Rightarrow> string \<Rightarrow> ('s, nat) script" where
  "delete_script_for D service instance token =
     deleteScript (rcall D)
       [instanceKey service instance, tokenKey service instance, serviceKey service, revisionKey,
        streamKey]
       [hashToken D token, instance, service]"

definition Store_Deregister ::
  "'s platform \<Rightarrow> string \<Rightarrow> string \<Rightarrow> string \<Rightarrow> (go_err, 's world, nat) sem" where
  "Store_Deregister D service instance token = run_mapped (delete_script_for D service instance token)"

definition unexpected_reply :: go_err where
  "unexpected_reply = ErrText ''redis: unexpected type''"

definition Store_Get ::
  "'s platform \<Rightarrow> string \<Rightarrow> string \<Rightarrow> (go_err, 's world, ServiceInstance) sem" where
  "Store_Get D service instance =
     tryE (client_do (rcall D) (GET (instanceKey service instance))) (\<lambda>r.
       case r of
         Inl err \<Rightarrow>
           if errors_Is err RedisNil then raiseE ErrNotFound else raiseE (Wrap ''get instance'' err)
       | Inr (RBulk payload) \<Rightarrow>
           (case json_Unmarshal D payload of
              Inl err \<Rightarrow> raiseE (Wrap ''decode instance'' (ErrText err))
            | Inr v \<Rightarrow> returnE v)
       | Inr _ \<Rightarrow> raiseE (Wrap ''get instance'' unexpected_reply))"

text \<open>\<open>redis.Get(revisionKey()).Uint64()\<close>, a missing key counting as revision 0.\<close>

definition read_revision :: "'s platform \<Rightarrow> (go_err, 's world, nat) sem" where
  "read_revision D =
     tryE (client_do (rcall D) (GET revisionKey)) (\<lambda>r.
       case r of
         Inl err \<Rightarrow> if errors_Is err RedisNil then returnE 0 else raiseE err
       | Inr (RBulk s) \<Rightarrow>
           (case ParseUint64 s of
              None \<Rightarrow> raiseE (ErrText ''strconv.ParseUint: invalid syntax'')
            | Some n \<Rightarrow> returnE n)
       | Inr _ \<Rightarrow> raiseE unexpected_reply)"

definition read_members :: "'s platform \<Rightarrow> string \<Rightarrow> string \<Rightarrow> (go_err, 's world, string list) sem" where
  "read_members D key context =
     tryE (client_do (rcall D) (SMEMBERS key)) (\<lambda>r.
       case r of
         Inl err \<Rightarrow> raiseE (Wrap context err)
       | Inr (RArr ids) \<Rightarrow> returnE ids
       | Inr _ \<Rightarrow> raiseE (Wrap context unexpected_reply))"

fun list_loop ::
  "'s platform \<Rightarrow> string \<Rightarrow> string list \<Rightarrow> ServiceInstance list \<Rightarrow> string list \<Rightarrow>
     (go_err, 's world, ServiceInstance list \<times> string list) sem" where
  "list_loop D service [] instances stale = returnE (instances, stale)"
| "list_loop D service (i # ids) instances stale =
     tryE (Store_Get D service i) (\<lambda>r.
       case r of
         Inl err \<Rightarrow>
           if errors_Is err ErrNotFound then list_loop D service ids instances (stale @ [i])
           else raiseE err
       | Inr v \<Rightarrow> list_loop D service ids (instances @ [v]) stale)"

definition Store_List ::
  "'s platform \<Rightarrow> string \<Rightarrow> (go_err, 's world, ServiceInstance list \<times> nat) sem" where
  "Store_List D service =
     bindE (read_members D (serviceKey service) ''list instance ids'') (\<lambda>ids.
     bindE (list_loop D service ids [] []) (\<lambda>(instances, stale).
     bindE (if stale \<noteq> []
            then tryE (client_do (rcall D) (SREM (serviceKey service) stale)) (\<lambda>_. returnE ())
            else returnE ()) (\<lambda>_.
     bindE (read_revision D) (\<lambda>revision.
     returnE (instances, revision)))))"

definition Store_Services :: "'s platform \<Rightarrow> (go_err, 's world, string list \<times> nat) sem" where
  "Store_Services D =
     bindE (read_members D servicesKey ''list services'') (\<lambda>services.
     bindE (read_revision D) (\<lambda>revision.
     returnE (services, revision)))"

section \<open>The change feed\<close>

record Change =
  chg_Revision :: nat
  chg_Type :: string
  chg_Service :: string
  chg_Instance :: string
  chg_Value :: "ServiceInstance option"

text \<open>\<open>fmt.Sprint(message.Values[k])\<close>: a missing field prints as \<open><nil>\<close>.\<close>

definition sprint_field :: "fields \<Rightarrow> string \<Rightarrow> string" where
  "sprint_field fs k = (case map_of (rev fs) k of None \<Rightarrow> ''<nil>'' | Some v \<Rightarrow> v)"

definition change_of_message :: "'s platform \<Rightarrow> string \<times> fields \<Rightarrow> Change option" where
  "change_of_message D m =
     (case ParseUint64 (strings_Split_first (fst m) (CHR ''-'')) of
        None \<Rightarrow> None
      | Some revision \<Rightarrow>
          let payload = sprint_field (snd m) ''payload'' in
          Some \<lparr>chg_Revision = revision,
                chg_Type = sprint_field (snd m) ''type'',
                chg_Service = sprint_field (snd m) ''service'',
                chg_Instance = sprint_field (snd m) ''instance'',
                chg_Value =
                  (if payload \<noteq> ''<nil>'' \<and> payload \<noteq> ''''
                   then (case json_Unmarshal D payload of Inl _ \<Rightarrow> None | Inr v \<Rightarrow> Some v)
                   else None)\<rparr>)"

definition Store_Changes :: "'s platform \<Rightarrow> nat \<Rightarrow> (go_err, 's world, Change list) sem" where
  "Store_Changes D after =
     tryE (client_do (rcall D) (XREAD 128 streamKey (dec after @ ''-0''))) (\<lambda>r.
       case r of
         Inl err \<Rightarrow>
           if errors_Is err RedisNil then returnE []
           else raiseE (Wrap ''read registry changes'' err)
       | Inr (REntries ms) \<Rightarrow> returnE (List.map_filter (change_of_message D) ms)
       | Inr _ \<Rightarrow> raiseE (Wrap ''read registry changes'' unexpected_reply))"

section \<open>Preparing an instance\<close>

text \<open>The loop over a Go map runs in an unspecified order; the result does not depend on it.\<close>

definition cloneMap :: "(string, string) fmap \<Rightarrow> (string, string) fmap" where
  "cloneMap input = fold (\<lambda>(key, v) output. fmupd key v output) (sorted_list_of_fmap input) fmempty"

definition prepareInstance :: "ServiceInstance \<Rightarrow> duration \<Rightarrow> instant \<Rightarrow> ServiceInstance" where
  "prepareInstance input lease now =
     (let c = input\<lparr>si_Metadata := cloneMap (si_Metadata input),
                    si_RegisteredAt := Some (timestamppb_New now),
                    si_UpdatedAt := Some (timestamppb_New now),
                    si_LeaseExpiresAt := Some (timestamppb_New (now + lease))\<rparr>;
          c = (if si_Weight c = 0 then c\<lparr>si_Weight := 100\<rparr> else c)
      in if si_Status c = STATUS_UNSPECIFIED then c\<lparr>si_Status := STATUS_HEALTHY\<rparr> else c)"

section \<open>Facts about key names\<close>

lemma instanceKey_eq_iff:
  "instanceKey s i = instanceKey s' i' \<longleftrightarrow> s @ CHR '':'' # i = s' @ CHR '':'' # i'"
  by (simp add: instanceKey_def)

lemma tokenKey_eq_iff: "tokenKey s i = tokenKey s' i' \<longleftrightarrow> instanceKey s i = instanceKey s' i'"
  by (simp add: tokenKey_def instanceKey_eq_iff)

lemma serviceKey_eq_iff [key_simps]: "serviceKey s = serviceKey s' \<longleftrightarrow> s = s'"
  by (simp add: serviceKey_def)

lemma append_sep_inj:
  assumes "xs @ c # ys = xs' @ c # ys'" and "c \<notin> set xs" and "c \<notin> set xs'"
  shows "xs = xs' \<and> ys = ys'"
  using assms by (induction xs arbitrary: xs') (auto simp: Cons_eq_append_conv)

text \<open>Services whose names hold no colon have disjoint instance keys.\<close>

lemma instanceKey_inj:
  "CHR '':'' \<notin> set s \<Longrightarrow> CHR '':'' \<notin> set s' \<Longrightarrow>
     instanceKey s i = instanceKey s' i' \<longleftrightarrow> s = s' \<and> i = i'"
  by (auto simp: instanceKey_eq_iff dest: append_sep_inj)

lemma keys_distinct [key_simps]:
  "instanceKey s i \<noteq> tokenKey s' i'" "tokenKey s' i' \<noteq> instanceKey s i"
  "instanceKey s i \<noteq> serviceKey s'" "serviceKey s' \<noteq> instanceKey s i"
  "instanceKey s i \<noteq> revisionKey" "revisionKey \<noteq> instanceKey s i"
  "instanceKey s i \<noteq> streamKey" "streamKey \<noteq> instanceKey s i"
  "instanceKey s i \<noteq> servicesKey" "servicesKey \<noteq> instanceKey s i"
  "tokenKey s i \<noteq> serviceKey s'" "serviceKey s' \<noteq> tokenKey s i"
  "tokenKey s i \<noteq> revisionKey" "revisionKey \<noteq> tokenKey s i"
  "tokenKey s i \<noteq> streamKey" "streamKey \<noteq> tokenKey s i"
  "tokenKey s i \<noteq> servicesKey" "servicesKey \<noteq> tokenKey s i"
  "serviceKey s \<noteq> revisionKey" "revisionKey \<noteq> serviceKey s"
  "serviceKey s \<noteq> streamKey" "streamKey \<noteq> serviceKey s"
  "serviceKey s \<noteq> servicesKey" "servicesKey \<noteq> serviceKey s"
  "revisionKey \<noteq> streamKey" "streamKey \<noteq> revisionKey"
  "revisionKey \<noteq> servicesKey" "servicesKey \<noteq> revisionKey"
  "streamKey \<noteq> servicesKey" "servicesKey \<noteq> streamKey"
  by (simp_all add: instanceKey_def tokenKey_def serviceKey_def revisionKey_def streamKey_def
      servicesKey_def keyPrefix_def)

section \<open>Facts about single functions\<close>

lemma map_of_rev: "distinct (map fst xs) \<Longrightarrow> map_of (rev xs) = map_of xs"
proof (rule ext)
  fix k
  assume d: "distinct (map fst xs)"
  show "map_of (rev xs) k = map_of xs k"
  proof (cases "map_of xs k")
    case None
    then have "map_of (rev xs) k = None" by (simp add: map_of_eq_None_iff)
    with None show ?thesis by simp
  next
    case (Some v)
    have "distinct (map fst (rev xs))" using d by (simp flip: rev_map)
    moreover have "(k, v) \<in> set (rev xs)" using Some d by simp
    ultimately show ?thesis using Some by (metis map_of_is_SomeI)
  qed
qed

lemma fold_fmupd: "fold (\<lambda>(k, v) m. fmupd k v m) xs m = m ++\<^sub>f fmap_of_list (rev xs)"
proof (rule fmap_ext)
  fix x
  show "fmlookup (fold (\<lambda>(k, v) m. fmupd k v m) xs m) x = fmlookup (m ++\<^sub>f fmap_of_list (rev xs)) x"
    by (induction xs arbitrary: m)
      (auto simp: fmlookup_of_list map_of_append map_add_def split: option.splits)
qed

lemma cloneMap_id [simp]: "cloneMap m = m"
proof (rule fmap_ext)
  fix x
  have d: "distinct (map fst (sorted_list_of_fmap m))"
    by (simp add: sorted_list_of_fmap_def comp_def sorted_list_of_fset.rep_eq)
  have "map_of (rev (sorted_list_of_fmap m)) = map_of (sorted_list_of_fmap m)"
    by (rule map_of_rev) (rule d)
  then show "fmlookup (cloneMap m) x = fmlookup m x"
    by (simp add: cloneMap_def fold_fmupd fmlookup_of_list)
qed

lemma prepareInstance_fields [simp]:
  "si_ServiceName (prepareInstance i l t) = si_ServiceName i"
  "si_InstanceId (prepareInstance i l t) = si_InstanceId i"
  "si_Endpoint (prepareInstance i l t) = si_Endpoint i"
  "si_Protocol (prepareInstance i l t) = si_Protocol i"
  "si_Version (prepareInstance i l t) = si_Version i"
  "si_Metadata (prepareInstance i l t) = si_Metadata i"
  "si_RegisteredAt (prepareInstance i l t) = Some (timestamppb_New t)"
  "si_UpdatedAt (prepareInstance i l t) = Some (timestamppb_New t)"
  "si_LeaseExpiresAt (prepareInstance i l t) = Some (timestamppb_New (t + l))"
  "si_Weight (prepareInstance i l t) = (if si_Weight i = 0 then 100 else si_Weight i)"
  "si_Status (prepareInstance i l t) =
     (if si_Status i = STATUS_UNSPECIFIED then STATUS_HEALTHY else si_Status i)"
  by (simp_all add: prepareInstance_def Let_def)

lemma inst_utf8_prepare [simp]: "inst_utf8 (prepareInstance i l t) = inst_utf8 i"
  by (simp add: inst_utf8_def)

lemma mapScriptError_scripts [simp]:
  "mapScriptError (ErrText ''ALREADY_REGISTERED'') = ErrAlreadyRegistered"
  "mapScriptError (ErrText ''NOT_FOUND'') = ErrNotFound"
  "mapScriptError (ErrText ''LEASE_NOT_OWNED'') = ErrLeaseNotOwned"
  by (simp_all add: mapScriptError_def strings_Contains_def)

lemma run_mapped_apply [sem_simps]:
  "run_mapped f (quiet s) =
     (case f s of
        (Inl e, s') \<Rightarrow> (Inl (mapScriptError (ErrText e)), quiet s')
      | (Inr n, s') \<Rightarrow> (Inr n, quiet s'))"
  by (simp add: run_mapped_def script_Run_def sem_simps split: prod.splits sum.splits)

end
