(* ===== verification/RegistryInvariant.thy ===== *)
theory RegistryInvariant
  imports RegistryStore
begin

text \<open>
  The invariant of the registry's key space, the exact effect of the three scripts on it, and
  its preservation by every atomic step of the store. The scripts and single commands are the
  only steps the server sees, so an invariant they keep holds in every interleaving of any number
  of clients.
\<close>

section \<open>Reading the key space\<close>

definition members :: "keyspace \<Rightarrow> string \<Rightarrow> string set" where
  "members v k = (case v k of Some (RSet S, _) \<Rightarrow> S | _ \<Rightarrow> {})"

definition revision_of :: "keyspace \<Rightarrow> nat" where
  "revision_of v =
     (case v revisionKey of
        Some (RStr s, _) \<Rightarrow> (case ParseUint64 s of Some n \<Rightarrow> n | None \<Rightarrow> 0)
      | _ \<Rightarrow> 0)"

definition stream_of :: "keyspace \<Rightarrow> (stream_id \<times> fields) list" where
  "stream_of v = (case v streamKey of Some (RStream es, _) \<Rightarrow> es | _ \<Rightarrow> [])"

section \<open>The invariant\<close>

text \<open>The instance and its token are both there, with the same time to live, or both absent.\<close>

definition lease_pair :: "(rvalue \<times> int option) option \<Rightarrow> (rvalue \<times> int option) option \<Rightarrow> bool" where
  "lease_pair a b \<longleftrightarrow>
     a = None \<and> b = None \<or>
     (\<exists>p h t. a = Some (RStr p, Some t) \<and> b = Some (RStr h, Some t) \<and> 0 < t)"

definition set_slot :: "(rvalue \<times> int option) option \<Rightarrow> bool" where
  "set_slot e \<longleftrightarrow> e = None \<or> (\<exists>S. e = Some (RSet S, None))"

text \<open>
  The largest revision a script can publish: from \<open>10\<^sup>14\<close> on Lua prints the revision in
  scientific notation, which is no stream identifier.
\<close>

definition max_published :: nat where
  "max_published = 10 ^ 14 - 1"

text \<open>The counter is at \<open>n\<close> and the stream holds the entries \<open>es\<close>, one per revision, no gap.\<close>

definition log_state :: "keyspace \<Rightarrow> nat \<Rightarrow> (stream_id \<times> fields) list \<Rightarrow> bool" where
  "log_state v n es \<longleftrightarrow>
     (n = 0 \<and> es = [] \<and> v revisionKey = None \<and> v streamKey = None \<or>
      0 < n \<and> n < 2 ^ 63 \<and> v revisionKey = Some (RStr (dec n), None) \<and>
      v streamKey = Some (RStream es, None)) \<and>
     map fst es = map (\<lambda>k. (k, 0)) [1..<Suc (min n max_published)]"

text \<open>A payload stored under a key decodes to an instance that belongs under that key.\<close>

definition inst_ok :: "ServiceInstance \<Rightarrow> bool" where
  "inst_ok i \<longleftrightarrow> inst_utf8 i \<and> CHR '':'' \<notin> set (si_ServiceName i)"

definition payload_ok :: "'s platform \<Rightarrow> string \<Rightarrow> string \<Rightarrow> bool" where
  "payload_ok D k p \<longleftrightarrow>
     (\<exists>i. json_Unmarshal D p = Inr i \<and> inst_ok i \<and> instanceKey (si_ServiceName i) (si_InstanceId i) = k)"

definition upsert_fields :: "nat \<Rightarrow> string \<Rightarrow> string \<Rightarrow> string \<Rightarrow> fields" where
  "upsert_fields n service instance payload =
     [(''revision'', dec n), (''type'', ''upsert''), (''service'', service),
      (''instance'', instance), (''payload'', payload)]"

definition delete_fields :: "nat \<Rightarrow> string \<Rightarrow> string \<Rightarrow> fields" where
  "delete_fields n service instance =
     [(''revision'', dec n), (''type'', ''delete''), (''service'', service), (''instance'', instance)]"

text \<open>An entry of the stream: a whole instance, or the name of a deleted one.\<close>

definition entry_ok :: "'s platform \<Rightarrow> stream_id \<times> fields \<Rightarrow> bool" where
  "entry_ok D e \<longleftrightarrow>
     (\<exists>i p. json_Unmarshal D p = Inr i \<and> inst_ok i \<and> p \<noteq> [] \<and> p \<noteq> ''<nil>'' \<and>
        snd e = upsert_fields (fst (fst e)) (si_ServiceName i) (si_InstanceId i) p) \<or>
     (\<exists>s i. snd e = delete_fields (fst (fst e)) s i)"

definition reg_inv :: "'s platform \<Rightarrow> keyspace \<Rightarrow> bool" where
  "reg_inv D v \<longleftrightarrow>
     (\<forall>s i. lease_pair (v (instanceKey s i)) (v (tokenKey s i))) \<and>
     (\<forall>s i p t. v (instanceKey s i) = Some (RStr p, t) \<longrightarrow> payload_ok D (instanceKey s i) p) \<and>
     (\<forall>s. set_slot (v (serviceKey s))) \<and> set_slot (v servicesKey) \<and>
     (\<exists>n es. log_state v n es \<and> list_all (entry_ok D) es)"

lemma log_state_revision: "log_state v n es \<Longrightarrow> revision_of v = n"
  by (auto simp: log_state_def revision_of_def)

lemma log_state_stream: "log_state v n es \<Longrightarrow> stream_of v = es"
  by (auto simp: log_state_def stream_of_def)

lemma reg_inv_log: "reg_inv D v \<Longrightarrow> log_state v (revision_of v) (stream_of v)"
  unfolding reg_inv_def using log_state_revision log_state_stream by metis

lemma reg_inv_entries: "reg_inv D v \<Longrightarrow> list_all (entry_ok D) (stream_of v)"
  unfolding reg_inv_def using log_state_stream by metis

lemma log_state_length: "log_state v n es \<Longrightarrow> length es = min n max_published"
  unfolding log_state_def by (metis diff_Suc_1 length_map length_upt)

lemma log_state_last:
  "log_state v n es \<Longrightarrow> 0 < n \<Longrightarrow> es \<noteq> [] \<and> fst (last es) = (min n max_published, 0)"
proof -
  assume l: "log_state v n es" and n: "0 < n"
  have ne: "es \<noteq> []" using log_state_length [OF l] n by (auto simp: max_published_def)
  have "fst (last es) = last (map fst es)" using ne by (simp add: last_map)
  also have "\<dots> = (min n max_published, 0)"
    using l n by (simp add: log_state_def last_map max_published_def)
  finally show ?thesis using ne by simp
qed

lemma set_slot_members: "set_slot (v k) \<Longrightarrow> v k \<noteq> None \<Longrightarrow> v k = Some (RSet (members v k), None)"
  by (auto simp: set_slot_def members_def)

lemma members_None: "v k = None \<Longrightarrow> members v k = {}"
  by (simp add: members_def)

section \<open>Effect of the scripts on the key space\<close>

text \<open>The key space after the two commands every script ends with: \<open>INCR\<close> and \<open>XADD\<close>.\<close>

definition published :: "keyspace \<Rightarrow> (nat \<Rightarrow> fields) \<Rightarrow> keyspace" where
  "published v F =
     v(revisionKey \<mapsto> (RStr (dec (Suc (revision_of v))), None),
       streamKey \<mapsto> (RStream (stream_of v @ [((Suc (revision_of v), 0), F (Suc (revision_of v)))]), None))"

text \<open>The key space after the writes of \<open>registerScript\<close>, before it publishes them.\<close>

definition leased :: "keyspace \<Rightarrow> string \<Rightarrow> string \<Rightarrow> string \<Rightarrow> string \<Rightarrow> int \<Rightarrow> keyspace" where
  "leased v service instance payload hash ms =
     v(instanceKey service instance \<mapsto> (RStr payload, Some ms),
       tokenKey service instance \<mapsto> (RStr hash, Some ms))"

definition indexed :: "keyspace \<Rightarrow> string \<Rightarrow> string \<Rightarrow> keyspace" where
  "indexed v service instance =
     v(serviceKey service \<mapsto> (RSet (insert instance (members v (serviceKey service))), None),
       servicesKey \<mapsto> (RSet (insert service (members v servicesKey)), None))"

definition unindexed :: "keyspace \<Rightarrow> string \<Rightarrow> string set \<Rightarrow> keyspace" where
  "unindexed v service ids =
     (case v (serviceKey service) of
        Some (RSet S, t) \<Rightarrow>
          if S \<subseteq> ids then v(serviceKey service := None)
          else v(serviceKey service \<mapsto> (RSet (S - ids), t))
      | _ \<Rightarrow> v)"

lemma redis_call_ok:
  "fst (call c s) = r \<Longrightarrow> (\<And>e. r \<noteq> RErr e) \<Longrightarrow> redis_call call c s = (Inr r, snd (call c s))"
  by (auto simp: redis_call_apply split: reply.splits)

lemma bind_call:
  "bindE (redis_call call c) f s =
     (case fst (call c s) of RErr e \<Rightarrow> (Inl e, snd (call c s)) | r \<Rightarrow> f r (snd (call c s)))"
  by (simp add: bindE_apply redis_call_apply split: reply.splits)

lemma bind_call_ok:
  "fst (call c s) = r \<Longrightarrow> (\<And>e. r \<noteq> RErr e) \<Longrightarrow> bindE (redis_call call c) f s = f r (snd (call c s))"
  by (simp add: bindE_apply redis_call_ok)

lemma parse_id_dash0 [simp]: "n < 2 ^ 64 \<Longrightarrow> parse_stream_id (dec n @ ''-0'') = Some (n, 0)"
  using parse_show_stream_id [of n 0] by (simp add: dec_0)

lemma dec_int_of_nat [simp]: "dec_int (int n) = dec n" "dec_int (int n + 1) = dec (Suc n)"
  by (simp_all add: dec_int_def nat_add_distrib)

lemma dec_Suc_0: "dec (Suc 0) = ''1''"
  by (subst dec.simps) (simp add: digit_def)

lemma max_published_bounds: "n \<le> max_published \<Longrightarrow> n < 10 ^ 14" "n \<le> max_published \<Longrightarrow> n < 2 ^ 53"
  by (simp_all add: max_published_def)

text \<open>
  What publishing can do to a key space \<open>w\<close>: append one entry under the next revision, or, when
  the revisions are used up, fail having at most moved the counter.
\<close>

definition publish_outcome :: "keyspace \<Rightarrow> (nat \<Rightarrow> fields) \<Rightarrow> string + nat \<Rightarrow> keyspace \<Rightarrow> bool" where
  "publish_outcome w F r v \<longleftrightarrow>
     (if revision_of w < max_published
      then r = Inr (Suc (revision_of w)) \<and> v = published w F
      else (\<exists>e \<in> {bad_stream_id, incr_overflow}. r = Inl e) \<and>
           (v = w \<or> Suc (revision_of w) < 2 ^ 63 \<and>
              v = w(revisionKey \<mapsto> (RStr (dec (Suc (revision_of w))), None))))"

lemma log_state_cong:
  "v revisionKey = v' revisionKey \<Longrightarrow> v streamKey = v' streamKey \<Longrightarrow>
     log_state v n es = log_state v' n es"
  by (simp add: log_state_def)

lemma revision_of_cong: "v revisionKey = v' revisionKey \<Longrightarrow> revision_of v = revision_of v'"
  by (simp add: revision_of_def)

lemma stream_of_cong: "v streamKey = v' streamKey \<Longrightarrow> stream_of v = stream_of v'"
  by (simp add: stream_of_def)

context registry_deps
begin

abbreviation publish :: "(nat \<Rightarrow> fields) \<Rightarrow> ('s, nat) script" where
  "publish F \<equiv>
     bindE (redis_call (rcall D) (INCR revisionKey)) (\<lambda>r. let revision = lua_of_reply r in
       bindE (redis_call (rcall D) (XADD streamKey (lua_tostring revision @ ''-0'') (F revision)))
         (\<lambda>_. returnE revision))"

lemma incr_revision:
  assumes "log_state (view s) n es" and "Suc n < 2 ^ 63"
  shows "redis_call (rcall D) (INCR revisionKey) s =
           (Inr (RInt (int n + 1)), snd (rcall D (INCR revisionKey) s))"
    and "view (snd (rcall D (INCR revisionKey) s)) =
           (view s)(revisionKey \<mapsto> (RStr (dec (Suc n)), None))"
proof -
  have n: "n = 0 \<and> view s revisionKey = None \<or> 0 < n \<and> view s revisionKey = Some (RStr (dec n), None)"
    using assms(1) by (auto simp: log_state_def)
  have "int n \<noteq> 2 ^ 63 - 1" using assms(2) by simp
  then show "redis_call (rcall D) (INCR revisionKey) s =
           (Inr (RInt (int n + 1)), snd (rcall D (INCR revisionKey) s))"
    and "view (snd (rcall D (INCR revisionKey) s)) =
           (view s)(revisionKey \<mapsto> (RStr (dec (Suc n)), None))"
    using n assms(2)
    by (auto simp: redis_call_apply view_laws parse_int64_dec dec_Suc_0 numeral_1_eq_Suc_0)
qed

lemma publish_ok:
  assumes l: "log_state (view s) n es" and n: "n < max_published"
  shows "\<exists>s'. publish F s = (Inr (Suc n), s') \<and> view s' = published (view s) F"
proof -
  define s1 where "s1 = snd (rcall D (INCR revisionKey) s)"
  have b: "Suc n < 10 ^ 14" "Suc n < 2 ^ 53" "Suc n < 2 ^ 63" "Suc n < 2 ^ 64"
    using n by (simp_all add: max_published_def)
  note incr = incr_revision [OF l b(3), folded s1_def]
  let ?x = "rcall D (XADD streamKey (dec (Suc n) @ ''-0'') (F (Suc n))) s1"
  have "fst ?x = RBulk (show_stream_id (Suc n, 0)) \<and>
      view (snd ?x) = (view s1)(streamKey \<mapsto> (RStream (es @ [((Suc n, 0), F (Suc n))]), None))"
  proof (cases "n = 0")
    case True
    then have "view s1 streamKey = None" "es = []"
      using l by (auto simp: incr(2) log_state_def key_simps)
    then show ?thesis using xadd_new [of "dec (Suc n) @ ''-0''" "(Suc n, 0)" s1 streamKey] b by simp
  next
    case False
    then have "view s1 streamKey = Some (RStream es, None)"
      using l by (auto simp: incr(2) log_state_def key_simps)
    moreover have "es \<noteq> []" "id_less (fst (last es)) (Suc n, 0)"
      using log_state_last [OF l] False n by (auto simp: id_less_def)
    ultimately show ?thesis
      using xadd_append [of "dec (Suc n) @ ''-0''" "(Suc n, 0)" s1 streamKey es None] b by simp
  qed
  moreover have "lua_of_reply (RInt (int n + 1)) = Suc n"
    using b by (simp add: lua_of_reply_def nat_add_distrib)
  ultimately show ?thesis
    using b log_state_revision [OF l] log_state_stream [OF l]
    by (auto simp: bindE_apply returnE_apply incr Let_def redis_call_ok published_def)
qed

lemma publish_exhausted:
  assumes l: "log_state (view s) n es" and n: "max_published \<le> n"
  shows "\<exists>e s'. publish F s = (Inl e, s') \<and> e \<in> {bad_stream_id, incr_overflow} \<and>
    (view s' = view s \<or> Suc n < 2 ^ 63 \<and> view s' = (view s)(revisionKey \<mapsto> (RStr (dec (Suc n)), None)))"
proof (cases "Suc n < 2 ^ 63")
  case True
  define s1 where "s1 = snd (rcall D (INCR revisionKey) s)"
  note incr = incr_revision [OF l True, folded s1_def]
  define m where "m = lua_of_reply (RInt (int n + 1))"
  have "10 ^ 14 \<le> m"
    using n lua_number_ge [of "Suc n"]
    by (simp add: m_def lua_of_reply_def nat_add_distrib max_published_def)
  then have e: "\<exists>c \<in> set (lua_tostring m @ ''-0''). \<not> is_digit c \<and> c \<noteq> CHR ''-''"
    using lua_tostring_sci [of m] by (intro bexI [of _ "CHR ''e''"]) (simp_all add: is_digit_def)
  have "view s1 streamKey = Some (RStream es, None)"
    using l n by (auto simp: incr(2) log_state_def key_simps max_published_def)
  then have "rcall D (XADD streamKey (lua_tostring m @ ''-0'') (F m)) s1 = (RErr bad_stream_id, s1)"
    by (intro xadd_malformed [OF e]) blast
  then have "redis_call (rcall D) (XADD streamKey (lua_tostring m @ ''-0'') (F m)) s1 = (Inl bad_stream_id, s1)"
    by (simp add: redis_call_def)
  then have "publish F s = (Inl bad_stream_id, s1)"
    by (simp add: bindE_apply incr(1) m_def [symmetric] Let_def)
  then show ?thesis using incr(2) True by auto
next
  case False
  have "n = 2 ^ 63 - 1" "view s revisionKey = Some (RStr (dec n), None)"
    using l False by (auto simp: log_state_def)
  then have "fst (rcall D (INCR revisionKey) s) = RErr incr_overflow"
      "view (snd (rcall D (INCR revisionKey) s)) = view s"
    by (simp_all add: view_laws parse_int64_dec)
  then show ?thesis by (simp add: bindE_apply redis_call_apply)
qed

lemma publish_effect:
  assumes "log_state (view s) n es"
  shows "publish_outcome (view s) F (fst (publish F s)) (view (snd (publish F s)))"
proof (cases "n < max_published")
  case True
  with publish_ok [OF assms, of F] log_state_revision [OF assms] show ?thesis
    by (auto simp: publish_outcome_def)
next
  case False
  then have "max_published \<le> n" by simp
  with publish_exhausted [OF assms, of F] log_state_revision [OF assms] show ?thesis
    by (auto simp: publish_outcome_def)
qed

text \<open>A script that fails a guard changes nothing.\<close>

lemma register_rejects:
  assumes "view s (instanceKey (si_ServiceName i) (si_InstanceId i)) \<noteq> None"
  shows "\<exists>s'. register_script_for D i p t l s = (Inl ''ALREADY_REGISTERED'', s') \<and> view s' = view s"
  using assms
  by (intro exI [of _ "snd (rcall D (EXISTS (instanceKey (si_ServiceName i) (si_InstanceId i))) s)"])
    (auto simp: register_script_for_def registerScript_def arg_def bind_call
      exists_reply exists_view raiseE_apply)

lemma sadd_slot:
  assumes "set_slot (view s k)"
  shows "\<exists>n. fst (rcall D (SADD k m) s) = RInt n"
    and "view (snd (rcall D (SADD k m) s)) =
           (view s)(k \<mapsto> (RSet (insert m (members (view s) k)), None))"
  using assms by (auto simp: set_slot_def sadd_reply sadd_view members_def)

lemma set_px_ok:
  assumes "0 < ms" and "ms < 2 ^ 63"
  shows "fst (rcall D (SET_PX k v (dec_int ms)) s) = ROk"
    and "view (snd (rcall D (SET_PX k v (dec_int ms)) s)) = (view s)(k \<mapsto> (RStr v, Some ms))"
  using assms by (simp_all add: set_px_reply set_px_view parse_int64_dec_int)

lemma register_writes:
  fixes i l
  defines "svc \<equiv> si_ServiceName i" and "ins \<equiv> si_InstanceId i" and "ms \<equiv> duration_Milliseconds l"
  assumes free: "view s (instanceKey svc ins) = None"
    and ms: "0 < ms" "ms < 2 ^ 63"
    and slots: "set_slot (view s (serviceKey svc))" "set_slot (view s servicesKey)"
  shows "\<exists>s'. register_script_for D i p t l s = publish (\<lambda>n. upsert_fields n svc ins p) s' \<and>
           view s' = indexed (leased (view s) svc ins p (hashToken D t) ms) svc ins"
proof -
  define s0 where "s0 = snd (rcall D (EXISTS (instanceKey svc ins)) s)"
  define s1 where "s1 = snd (rcall D (SET_PX (instanceKey svc ins) p (dec_int ms)) s0)"
  define s2 where "s2 = snd (rcall D (SET_PX (tokenKey svc ins) (hashToken D t) (dec_int ms)) s1)"
  define s3 where "s3 = snd (rcall D (SADD (serviceKey svc) ins) s2)"
  define s4 where "s4 = snd (rcall D (SADD servicesKey svc) s3)"
  have v0: "view s0 = view s" by (simp add: s0_def exists_view)
  have v2: "view s2 = leased (view s) svc ins p (hashToken D t) ms"
    by (simp add: s2_def s1_def set_px_ok [OF ms] v0 leased_def)
  have slot2: "set_slot (view s2 (serviceKey svc))" "set_slot (view s2 servicesKey)"
    using slots by (simp_all add: v2 leased_def key_simps)
  note a3 = sadd_slot [OF slot2(1), of ins, folded s3_def]
  have "set_slot (view s3 servicesKey)" using slot2(2) by (simp add: a3(2) key_simps)
  note a4 = sadd_slot [OF this, of svc, folded s4_def]
  have v4: "view s4 = indexed (leased (view s) svc ins p (hashToken D t) ms) svc ins"
    by (simp add: a4(2) a3(2) v2 indexed_def members_def key_simps)
  obtain n3 n4 where r: "fst (rcall D (SADD (serviceKey svc) ins) s2) = RInt n3"
      "fst (rcall D (SADD servicesKey svc) s3) = RInt n4"
    using a3(1) a4(1) by blast
  have "register_script_for D i p t l s = publish (\<lambda>n. upsert_fields n svc ins p) s4"
    unfolding register_script_for_def registerScript_def arg_def svc_def [symmetric]
      ins_def [symmetric] ms_def [symmetric]
    by (simp add: bind_call exists_reply free s0_def [symmetric] set_px_ok [OF ms] s1_def [symmetric]
        s2_def [symmetric] r s3_def [symmetric] s4_def [symmetric] upsert_fields_def del: fun_upd_apply)
  with v4 show ?thesis by blast
qed

lemma register_effect:
  fixes i l
  defines "svc \<equiv> si_ServiceName i" and "ins \<equiv> si_InstanceId i" and "ms \<equiv> duration_Milliseconds l"
  assumes inv: "reg_inv D (view s)" and "view s (instanceKey svc ins) = None"
    and "0 < ms" "ms < 2 ^ 63"
  shows "publish_outcome (indexed (leased (view s) svc ins p (hashToken D t) ms) svc ins)
           (\<lambda>n. upsert_fields n svc ins p)
           (fst (register_script_for D i p t l s)) (view (snd (register_script_for D i p t l s)))"
proof -
  obtain s' where s': "register_script_for D i p t l s = publish (\<lambda>n. upsert_fields n svc ins p) s'"
      "view s' = indexed (leased (view s) svc ins p (hashToken D t) ms) svc ins"
    using register_writes [of s i l p t] assms unfolding svc_def ins_def ms_def reg_inv_def by blast
  have "log_state (view s') (revision_of (view s)) (stream_of (view s))"
    using reg_inv_log [OF inv]
    by (subst log_state_cong [of _ "view s"]) (simp_all add: s' indexed_def leased_def key_simps)
  from publish_effect [OF this, of "\<lambda>n. upsert_fields n svc ins p"] show ?thesis
    by (simp only: s')
qed

lemma update_rejects:
  fixes i s
  defines "tok \<equiv> view s (tokenKey (si_ServiceName i) (si_InstanceId i))"
  shows "tok = None \<Longrightarrow>
      \<exists>s'. update_script_for D i p t l s = (Inl ''NOT_FOUND'', s') \<and> view s' = view s"
    and "tok = Some (RStr h, x) \<Longrightarrow> h \<noteq> hashToken D t \<Longrightarrow>
      \<exists>s'. update_script_for D i p t l s = (Inl ''LEASE_NOT_OWNED'', s') \<and> view s' = view s"
  unfolding tok_def
  by (intro exI [of _ "snd (rcall D (GET (tokenKey (si_ServiceName i) (si_InstanceId i))) s)"];
      simp add: update_script_for_def updateScript_def arg_def bind_call get_reply get_view raiseE_apply)+

lemma update_bad_lease:
  assumes "view s (tokenKey (si_ServiceName i) (si_InstanceId i)) = Some (RStr (hashToken D t), x)"
    and "duration_Milliseconds l \<le> 0" "- (2 ^ 63) \<le> duration_Milliseconds l"
  shows "\<exists>s'. update_script_for D i p t l s = (Inl bad_expire, s') \<and> view s' = view s"
proof -
  have "parse_int64 (dec_int (duration_Milliseconds l)) = Some (duration_Milliseconds l)"
    using assms by (simp add: parse_int64_dec_int)
  then show ?thesis
    using assms(1,2)
    by (simp add: update_script_for_def updateScript_def arg_def bind_call get_reply get_view
        set_px_reply set_px_view)
qed

lemma update_effect:
  fixes i l
  defines "svc \<equiv> si_ServiceName i" and "ins \<equiv> si_InstanceId i" and "ms \<equiv> duration_Milliseconds l"
  assumes inv: "reg_inv D (view s)"
    and own: "view s (tokenKey svc ins) = Some (RStr (hashToken D t), x)"
    and ms: "0 < ms" "ms < 2 ^ 63"
  shows "publish_outcome (leased (view s) svc ins p (hashToken D t) ms)
           (\<lambda>n. upsert_fields n svc ins p)
           (fst (update_script_for D i p t l s)) (view (snd (update_script_for D i p t l s)))"
proof -
  define s0 where "s0 = snd (rcall D (GET (tokenKey svc ins)) s)"
  define s1 where "s1 = snd (rcall D (SET_PX (instanceKey svc ins) p (dec_int ms)) s0)"
  define s2 where "s2 = snd (rcall D (PEXPIRE (tokenKey svc ins) (dec_int ms)) s1)"
  have pm: "parse_int64 (dec_int ms) = Some ms" using ms by (simp add: parse_int64_dec_int)
  have v1: "view s1 = (view s)(instanceKey svc ins \<mapsto> (RStr p, Some ms))"
    by (simp add: s1_def set_px_ok [OF ms] s0_def get_view)
  have r2: "fst (rcall D (PEXPIRE (tokenKey svc ins) (dec_int ms)) s1) = RInt 1"
    and v2: "view s2 = leased (view s) svc ins p (hashToken D t) ms"
    using own ms(1) by (simp_all add: s2_def pexpire_reply pexpire_view pm v1 key_simps leased_def)
  have s2: "update_script_for D i p t l s = publish (\<lambda>n. upsert_fields n svc ins p) s2"
    unfolding update_script_for_def updateScript_def arg_def svc_def [symmetric]
      ins_def [symmetric] ms_def [symmetric]
    by (simp add: bind_call get_reply own s0_def [symmetric] set_px_ok [OF ms] s1_def [symmetric]
        r2 s2_def [symmetric] upsert_fields_def)
  have "log_state (view s2) (revision_of (view s)) (stream_of (view s))"
    using reg_inv_log [OF inv]
    by (subst log_state_cong [of _ "view s"]) (simp_all add: v2 leased_def key_simps)
  from publish_effect [OF this, of "\<lambda>n. upsert_fields n svc ins p"] show ?thesis
    by (simp only: s2 v2)
qed

lemma delete_rejects:
  fixes svc ins s
  defines "tok \<equiv> view s (tokenKey svc ins)"
  shows "tok = None \<Longrightarrow>
      \<exists>s'. delete_script_for D svc ins t s = (Inl ''NOT_FOUND'', s') \<and> view s' = view s"
    and "tok = Some (RStr h, x) \<Longrightarrow> h \<noteq> hashToken D t \<Longrightarrow>
      \<exists>s'. delete_script_for D svc ins t s = (Inl ''LEASE_NOT_OWNED'', s') \<and> view s' = view s"
  unfolding tok_def
  by (intro exI [of _ "snd (rcall D (GET (tokenKey svc ins)) s)"];
      simp add: delete_script_for_def deleteScript_def arg_def bind_call get_reply get_view raiseE_apply)+

lemma srem_slot:
  assumes "set_slot (view s (serviceKey svc))"
  shows "\<exists>n. fst (rcall D (SREM (serviceKey svc) ids) s) = RInt n"
    and "view (snd (rcall D (SREM (serviceKey svc) ids) s)) = unindexed (view s) svc (set ids)"
  using assms by (auto simp: set_slot_def srem_reply srem_view unindexed_def)

lemma delete_effect:
  assumes inv: "reg_inv D (view s)"
    and own: "view s (tokenKey svc ins) = Some (RStr (hashToken D t), x)"
  shows "publish_outcome
           (unindexed ((view s) |` (- {instanceKey svc ins, tokenKey svc ins})) svc {ins})
           (\<lambda>n. delete_fields n svc ins)
           (fst (delete_script_for D svc ins t s)) (view (snd (delete_script_for D svc ins t s)))"
proof -
  define s0 where "s0 = snd (rcall D (GET (tokenKey svc ins)) s)"
  define s1 where "s1 = snd (rcall D (DEL [instanceKey svc ins, tokenKey svc ins]) s0)"
  define s2 where "s2 = snd (rcall D (SREM (serviceKey svc) [ins]) s1)"
  have v1: "view s1 = (view s) |` (- {instanceKey svc ins, tokenKey svc ins})"
    by (simp add: s1_def s0_def del_view get_view)
  have "set_slot (view s1 (serviceKey svc))"
    using inv by (simp add: v1 reg_inv_def key_simps)
  note rem = srem_slot [OF this, of "[ins]", folded s2_def]
  obtain n where n: "fst (rcall D (SREM (serviceKey svc) [ins]) s1) = RInt n"
    using rem(1) by blast
  have s2: "delete_script_for D svc ins t s = publish (\<lambda>n. delete_fields n svc ins) s2"
    unfolding delete_script_for_def deleteScript_def arg_def
    by (simp add: bind_call get_reply own s0_def [symmetric] del_reply s1_def [symmetric]
        n s2_def [symmetric] delete_fields_def)
  have "log_state (view s2) (revision_of (view s)) (stream_of (view s))"
    using reg_inv_log [OF inv]
    by (subst log_state_cong [of _ "view s"])
      (simp_all add: rem(2) v1 unindexed_def key_simps restrict_map_def split: option.splits rvalue.splits)
  from publish_effect [OF this, of "\<lambda>n. delete_fields n svc ins"] show ?thesis
    by (simp add: s2 rem(2) v1)
qed

end

end
