(* ===== verification/RegistryContract.thy ===== *)
theory RegistryContract
  imports RegistryInvariant "HOL-Library.Sublist"
begin

text \<open>
  Every atomic step on the registry's key space keeps \<open>reg_inv\<close>: the three scripts, the cleanup
  of stale members, the reads, and the clock. An inductive relation collects these steps, so the
  invariant holds in every state that any number of interleaved clients can reach; and every method
  of the store keeps it whatever the other clients and the network do in between.
\<close>

section \<open>Key spaces that keep the invariant\<close>

lemma lease_pair_None [simp]: "lease_pair None None"
  by (simp add: lease_pair_def)

lemma lease_pair_Some [simp]:
  "lease_pair (Some (RStr p, Some t)) (Some (RStr h, Some t')) \<longleftrightarrow> t = t' \<and> 0 < t"
  by (auto simp: lease_pair_def)

lemma reg_inv_slots: "reg_inv D v \<Longrightarrow> set_slot (v (serviceKey s))" "reg_inv D v \<Longrightarrow> set_slot (v servicesKey)"
  by (simp_all add: reg_inv_def)

text \<open>The invariant depends on the registry's own keys only, and splits by kind of key.\<close>

lemma reg_invI:
  assumes "\<And>s i. lease_pair (v (instanceKey s i)) (v (tokenKey s i))"
    and "\<And>s i p t. v (instanceKey s i) = Some (RStr p, t) \<Longrightarrow> payload_ok D (instanceKey s i) p"
    and "\<And>s. set_slot (v (serviceKey s))" and "set_slot (v servicesKey)"
    and "log_state v n es" and "list_all (entry_ok D) es"
  shows "reg_inv D v"
  unfolding reg_inv_def using assms by blast

lemma reg_inv_frame:
  assumes inv: "reg_inv D v"
    and "\<And>s i. v' (instanceKey s i) = v (instanceKey s i)"
    and "\<And>s i. v' (tokenKey s i) = v (tokenKey s i)"
    and "\<And>s. set_slot (v' (serviceKey s))" and "set_slot (v' servicesKey)"
    and "log_state v' n es" and "list_all (entry_ok D) es"
  shows "reg_inv D v'"
  using assms by (intro reg_invI [where n = n and es = es]) (simp_all add: reg_inv_def)

lemma reg_inv_same_log:
  assumes "reg_inv D v" and "v' revisionKey = v revisionKey" and "v' streamKey = v streamKey"
  shows "log_state v' (revision_of v) (stream_of v)" "list_all (entry_ok D) (stream_of v)"
  using reg_inv_log [OF assms(1)] reg_inv_entries [OF assms(1)] log_state_cong [OF assms(2,3)] by simp_all

lemma leased_lease:
  "leased v svc ins p h ms (instanceKey s i) =
     (if instanceKey s i = instanceKey svc ins then Some (RStr p, Some ms) else v (instanceKey s i))"
  "leased v svc ins p h ms (tokenKey s i) =
     (if instanceKey s i = instanceKey svc ins then Some (RStr h, Some ms) else v (tokenKey s i))"
  by (simp_all add: leased_def key_simps tokenKey_eq_iff)

lemma leased_other:
  "leased v svc ins p h ms (serviceKey s) = v (serviceKey s)" "leased v svc ins p h ms servicesKey = v servicesKey"
  "leased v svc ins p h ms revisionKey = v revisionKey" "leased v svc ins p h ms streamKey = v streamKey"
  by (simp_all add: leased_def key_simps)

lemma dropped_other:
  "(v |` (- {instanceKey svc ins, tokenKey svc ins})) (serviceKey s) = v (serviceKey s)"
  "(v |` (- {instanceKey svc ins, tokenKey svc ins})) servicesKey = v servicesKey"
  "(v |` (- {instanceKey svc ins, tokenKey svc ins})) revisionKey = v revisionKey"
  "(v |` (- {instanceKey svc ins, tokenKey svc ins})) streamKey = v streamKey"
  by (simp_all add: key_simps)

lemma dropped_lease:
  "(v |` (- {instanceKey svc ins, tokenKey svc ins})) (instanceKey s i) =
     (if instanceKey s i = instanceKey svc ins then None else v (instanceKey s i))"
  "(v |` (- {instanceKey svc ins, tokenKey svc ins})) (tokenKey s i) =
     (if instanceKey s i = instanceKey svc ins then None else v (tokenKey s i))"
  by (simp_all add: key_simps tokenKey_eq_iff)

lemma reg_inv_leased:
  assumes inv: "reg_inv D v" and p: "payload_ok D (instanceKey svc ins) p" and ms: "0 < ms"
  shows "reg_inv D (leased v svc ins p h ms)"
proof -
  note log = reg_inv_same_log [OF inv, of "leased v svc ins p h ms", OF leased_other(3,4)]
  show ?thesis
    using inv p ms
    by (intro reg_invI [OF _ _ _ _ log]) (auto simp: leased_lease leased_other reg_inv_def split: if_splits)
qed

lemma reg_inv_indexed:
  assumes inv: "reg_inv D v"
  shows "reg_inv D (indexed v svc ins)"
proof -
  have "indexed v svc ins revisionKey = v revisionKey" "indexed v svc ins streamKey = v streamKey"
    by (simp_all add: indexed_def key_simps)
  note log = reg_inv_same_log [OF inv this]
  show ?thesis
    using reg_inv_slots [OF inv]
    by (intro reg_inv_frame [OF inv _ _ _ _ log]) (auto simp: indexed_def key_simps set_slot_def)
qed

lemma unindexed_other: "k \<noteq> serviceKey svc \<Longrightarrow> unindexed v svc ids k = v k"
  by (auto simp: unindexed_def split: option.splits rvalue.splits)

lemma set_slot_simps [simp]: "set_slot None" "set_slot (Some (x, t)) \<longleftrightarrow> (\<exists>S. x = RSet S) \<and> t = None"
  by (auto simp: set_slot_def)

lemma unindexed_slot: "set_slot (v (serviceKey svc)) \<Longrightarrow> set_slot (unindexed v svc ids (serviceKey svc))"
  by (auto simp: unindexed_def split: option.splits rvalue.splits)

lemma reg_inv_unindexed:
  assumes inv: "reg_inv D v"
  shows "reg_inv D (unindexed v svc ids)"
proof -
  have "unindexed v svc ids revisionKey = v revisionKey" "unindexed v svc ids streamKey = v streamKey"
    by (simp_all add: unindexed_other key_simps)
  note log = reg_inv_same_log [OF inv this]
  have "set_slot (unindexed v svc ids (serviceKey s))" for s
    using reg_inv_slots(1) [OF inv]
    by (cases "s = svc") (simp_all add: unindexed_slot unindexed_other key_simps)
  then show ?thesis
    using reg_inv_slots(2) [OF inv]
    by (intro reg_inv_frame [OF inv _ _ _ _ log]) (simp_all add: unindexed_other key_simps)
qed

lemma reg_inv_dropped:
  assumes inv: "reg_inv D v"
  shows "reg_inv D (v |` (- {instanceKey svc ins, tokenKey svc ins}))"
proof -
  note log = reg_inv_same_log [OF inv, of "v |` (- {instanceKey svc ins, tokenKey svc ins})", OF dropped_other(3,4)]
  show ?thesis
    using inv by (intro reg_invI [OF _ _ _ _ log]) (auto simp: dropped_lease dropped_other reg_inv_def
        simp del: restrict_in Compl_insert split: if_splits)
qed

lemma lease_pair_expire: "lease_pair a b \<Longrightarrow> lease_pair (expire_by d a) (expire_by d b)"
  unfolding lease_pair_def [of a b] by (auto simp: expire_by_def)

lemma expire_by_persistent: "e = None \<or> (\<exists>x. e = Some (x, None)) \<Longrightarrow> expire_by d e = e"
  by (auto simp: expire_by_def)

lemma reg_inv_persistent:
  assumes "reg_inv D v"
  shows "expire_by d (v (serviceKey s)) = v (serviceKey s)" "expire_by d (v servicesKey) = v servicesKey"
    "expire_by d (v revisionKey) = v revisionKey" "expire_by d (v streamKey) = v streamKey"
  using assms reg_inv_log [OF assms]
  by (auto intro!: expire_by_persistent simp: reg_inv_def set_slot_def log_state_def)

lemma reg_inv_expire:
  assumes inv: "reg_inv D v"
  shows "reg_inv D (\<lambda>k. expire_by d (v k))"
proof -
  note o = reg_inv_persistent [OF inv]
  note log = reg_inv_same_log [OF inv, of "\<lambda>k. expire_by d (v k)", OF o(3,4)]
  show ?thesis
    using inv
    by (intro reg_invI [OF _ _ _ _ log])
      (auto simp: o reg_inv_def lease_pair_expire, auto simp: expire_by_def split: option.splits if_splits)
qed

lemma log_state_published:
  assumes l: "log_state v n es" and n: "n < max_published"
  shows "log_state (published v F) (Suc n) (es @ [((Suc n, 0), F (Suc n))])"
proof -
  have "min n max_published = n" "min (Suc n) max_published = Suc n" "Suc n < 2 ^ 63"
    using n by (simp_all add: max_published_def)
  then show ?thesis
    using l unfolding log_state_def published_def log_state_revision [OF l] log_state_stream [OF l]
    by (simp add: key_simps)
qed

lemma reg_inv_published:
  assumes inv: "reg_inv D w" and F: "\<And>n. entry_ok D ((n, 0), F n)" and out: "publish_outcome w F r v"
  shows "reg_inv D v"
proof -
  note l = reg_inv_log [OF inv] and e = reg_inv_entries [OF inv]
  have keep: "reg_inv D v" if "log_state v n es" "list_all (entry_ok D) es"
      "\<And>k. k \<noteq> revisionKey \<Longrightarrow> k \<noteq> streamKey \<Longrightarrow> v k = w k" for n es
    using inv reg_inv_slots [OF inv]
    by (intro reg_inv_frame [OF inv _ _ _ _ that(1,2)]) (simp_all add: that(3) key_simps)
  show ?thesis
  proof (cases "revision_of w < max_published")
    case True
    then have v: "v = published w F" using out by (simp add: publish_outcome_def)
    show ?thesis
      unfolding v
      by (rule keep [unfolded v, OF log_state_published [OF l True, of F]])
        (use e F in \<open>simp_all add: published_def\<close>)
  next
    case False
    then consider "v = w"
      | "Suc (revision_of w) < 2 ^ 63" "v = w(revisionKey \<mapsto> (RStr (dec (Suc (revision_of w))), None))"
      using out by (auto simp: publish_outcome_def)
    then show ?thesis
    proof cases
      case 2
      have "min (revision_of w) max_published = max_published" "revision_of w \<noteq> 0"
          "min (Suc (revision_of w)) max_published = max_published"
        using False by (auto simp: max_published_def)
      then have "log_state v (Suc (revision_of w)) (stream_of w)"
        using l 2 unfolding log_state_def by (simp add: key_simps)
      then show ?thesis by (rule keep) (use e in \<open>simp_all add: 2(2)\<close>)
    qed (use inv in simp)
  qed
qed

section \<open>Steps of the server\<close>

definition int64 :: "int \<Rightarrow> bool" where
  "int64 i \<longleftrightarrow> - (2 ^ 63) \<le> i \<and> i < 2 ^ 63"

lemma int64_Milliseconds: "int64 l \<Longrightarrow> int64 (duration_Milliseconds l)"
proof -
  assume l: "int64 l"
  have "\<bar>l\<bar> div 1000000 * 1000000 \<le> \<bar>l\<bar>" by (simp add: div_times_less_eq_dividend)
  then have "\<bar>duration_Milliseconds l\<bar> * 1000000 \<le> \<bar>l\<bar>"
    by (cases "l = 0") (simp_all add: duration_Milliseconds_def go_quot_def time_Millisecond_def abs_mult)
  with l show ?thesis unfolding int64_def by linarith
qed

text \<open>
  Everything a client of the registry does to the server in one atomic step, with the arguments the
  methods of \<open>Store\<close> can pass. A client proves ownership of a lease with a token; \<open>T\<close> is
  the set of tokens the clients know.
\<close>

inductive client_step :: "'s platform \<Rightarrow> string set \<Rightarrow> 's \<Rightarrow> 's \<Rightarrow> bool"
  for D :: "'s platform" and T :: "string set" where
  client_register:
    "inst_ok i \<Longrightarrow> json_Marshal D i = Inr p \<Longrightarrow> int64 l \<Longrightarrow>
       client_step D T s (snd (register_script_for D i p t l s))"
| client_update:
    "inst_ok i \<Longrightarrow> json_Marshal D i = Inr p \<Longrightarrow> int64 l \<Longrightarrow> t \<in> T \<Longrightarrow>
       client_step D T s (snd (update_script_for D i p t l s))"
| client_delete: "t \<in> T \<Longrightarrow> client_step D T s (snd (delete_script_for D svc ins t s))"
| client_cleanup: "client_step D T s (snd (rcall D (SREM (serviceKey svc) ids) s))"
| client_get: "client_step D T s (snd (rcall D (GET k) s))"
| client_members: "client_step D T s (snd (rcall D (SMEMBERS k) s))"
| client_read: "client_step D T s (snd (rcall D (XREAD c k i) s))"

inductive_cases client_stepE: "client_step D T s s'"

text \<open>A step of the server: of some client, or of the clock.\<close>

definition srv_step :: "'s platform \<Rightarrow> (nat \<Rightarrow> 's \<Rightarrow> 's) \<Rightarrow> 's \<Rightarrow> 's \<Rightarrow> bool" where
  "srv_step D advance s s' \<longleftrightarrow> client_step D UNIV s s' \<or> (\<exists>d. s' = advance d s)"

lemma step_client: "client_step D UNIV s s' \<Longrightarrow> srv_step D advance s s'"
  by (simp add: srv_step_def)

lemma step_tick: "srv_step D advance s (advance d s)"
  by (auto simp: srv_step_def)

lemmas step_register = step_client [OF client_register]
lemmas step_update = step_client [OF client_update [OF _ _ _ UNIV_I]]
lemmas step_delete = step_client [OF client_delete [OF UNIV_I]]
lemmas step_cleanup = step_client [OF client_cleanup]
lemmas step_get = step_client [OF client_get]
lemmas step_members = step_client [OF client_members]
lemmas step_read = step_client [OF client_read]

lemma client_step_mono: "client_step D T s s' \<Longrightarrow> T \<subseteq> T' \<Longrightarrow> client_step D T' s s'"
  by (erule client_step.cases) (auto intro: client_step.intros)

text \<open>A property of the server that no step can destroy survives every method of the store.\<close>

definition step_closed :: "'s platform \<Rightarrow> (nat \<Rightarrow> 's \<Rightarrow> 's) \<Rightarrow> ('s \<Rightarrow> bool) \<Rightarrow> bool" where
  "step_closed D advance P \<longleftrightarrow> (\<forall>s s'. P s \<longrightarrow> srv_step D advance s s' \<longrightarrow> P s')"

lemma step_closedD: "step_closed D advance P \<Longrightarrow> P s \<Longrightarrow> srv_step D advance s s' \<Longrightarrow> P s'"
  by (auto simp: step_closed_def)

lemma step_closed_reach: "step_closed D advance (\<lambda>s. (srv_step D advance)\<^sup>*\<^sup>* s0 s)"
  by (auto simp: step_closed_def)

lemma step_closed_rtranclp:
  assumes "step_closed D advance P" and "(srv_step D advance)\<^sup>*\<^sup>* s s'" and "P s"
  shows "P s'"
  using assms(2,3) by (induction rule: rtranclp_induct) (auto intro: step_closedD [OF assms(1)])

lemma step_closed_steps: "step_closed D advance P \<Longrightarrow> closed_under (srv_step D advance)\<^sup>*\<^sup>* P"
  unfolding closed_under_def by (intro allI impI) (erule (2) step_closed_rtranclp)

text \<open>A world whose other clients take steps of the registry, and whose server satisfies \<open>P\<close>.\<close>

abbreviation among :: "'s platform \<Rightarrow> (nat \<Rightarrow> 's \<Rightarrow> 's) \<Rightarrow> ('s \<Rightarrow> bool) \<Rightarrow> 's world \<Rightarrow> bool" where
  "among D advance P \<equiv> rely (srv_step D advance)\<^sup>*\<^sup>* P"

lemma keeps_command:
  assumes "step_closed D advance P" and "\<And>s. srv_step D advance s (snd (rcall D c s))"
  shows "keeps (among D advance P) (client_do (rcall D) c)"
  by (rule keeps_client_do [OF step_closed_steps [OF assms(1)]], erule step_closedD [OF assms(1) _ assms(2)])

lemma keeps_run_mapped:
  assumes "step_closed D advance P" and "\<And>s. srv_step D advance s (snd (f s))"
  shows "keeps (among D advance P) (run_mapped f)"
proof -
  have "keeps (among D advance P) (script_Run f)"
    by (rule keeps_script_Run [OF step_closed_steps [OF assms(1)]], erule step_closedD [OF assms(1) _ assms(2)])
  then show ?thesis unfolding run_mapped_def by (rule keeps_try) (auto split: sum.splits)
qed

lemma keeps_Store_Register:
  assumes "step_closed D advance P" and "inst_ok i" and "int64 l"
  shows "keeps (among D advance P) (Store_Register D i t l)"
  unfolding Store_Register_def
  by (auto split: sum.splits intro!: keeps_run_mapped [OF assms(1)] step_register assms(2,3))

lemma keeps_Store_Update:
  assumes "step_closed D advance P" and "inst_ok i" and "int64 l"
  shows "keeps (among D advance P) (Store_Update D i t l)"
  unfolding Store_Update_def
  by (auto split: sum.splits intro!: keeps_run_mapped [OF assms(1)] step_update assms(2,3))

lemma keeps_Store_Deregister:
  assumes "step_closed D advance P"
  shows "keeps (among D advance P) (Store_Deregister D svc ins t)"
  unfolding Store_Deregister_def
  by (rule keeps_run_mapped [OF assms step_delete])

lemma keeps_Store_Get:
  assumes "step_closed D advance P"
  shows "keeps (among D advance P) (Store_Get D svc ins)"
  unfolding Store_Get_def
  by (rule keeps_try, rule keeps_command [OF assms step_get])
    (auto split: sum.splits reply.splits)

lemma keeps_read_revision:
  assumes "step_closed D advance P"
  shows "keeps (among D advance P) (read_revision D)"
  unfolding read_revision_def
  by (rule keeps_try, rule keeps_command [OF assms step_get])
    (auto split: sum.splits reply.splits option.splits)

lemma keeps_read_members:
  assumes "step_closed D advance P"
  shows "keeps (among D advance P) (read_members D k c)"
  unfolding read_members_def
  by (rule keeps_try, rule keeps_command [OF assms step_members])
    (auto split: sum.splits reply.splits)

lemma keeps_list_loop:
  assumes "step_closed D advance P"
  shows "keeps (among D advance P) (list_loop D svc ids xs stale)"
proof (induction ids arbitrary: xs stale)
  case (Cons i ids)
  show ?case
    by (simp, intro keeps_try keeps_Store_Get [OF assms])
      (auto split: sum.splits simp: Cons)
qed simp

lemma keeps_Store_List:
  assumes "step_closed D advance P"
  shows "keeps (among D advance P) (Store_List D svc)"
proof -
  have clean: "keeps (among D advance P) (client_do (rcall D) (SREM (serviceKey svc) stale))" for stale
    by (rule keeps_command [OF assms step_cleanup])
  show ?thesis
    unfolding Store_List_def
    by (intro keeps_bind keeps_read_members [OF assms] keeps_list_loop [OF assms])
      (auto intro!: keeps_bind keeps_try clean keeps_read_revision [OF assms] split: prod.splits)
qed

lemma keeps_Store_Services:
  assumes "step_closed D advance P"
  shows "keeps (among D advance P) (Store_Services D)"
  unfolding Store_Services_def
  by (intro keeps_bind keeps_read_members [OF assms] keeps_read_revision [OF assms] keeps_return)

lemma keeps_Store_Changes:
  assumes "step_closed D advance P"
  shows "keeps (among D advance P) (Store_Changes D after)"
  unfolding Store_Changes_def
  by (rule keeps_try, rule keeps_command [OF assms step_read])
    (auto split: sum.splits reply.splits)

lemmas keeps_Store =
  keeps_Store_Register keeps_Store_Update keeps_Store_Deregister keeps_Store_Get keeps_Store_List
  keeps_Store_Services keeps_Store_Changes

section \<open>The invariant holds in every interleaving\<close>

text \<open>How the log may change in one step: entries are appended, the counter never goes back.\<close>

definition log_grows :: "keyspace \<Rightarrow> keyspace \<Rightarrow> bool" where
  "log_grows v v' \<longleftrightarrow> prefix (stream_of v) (stream_of v') \<and> revision_of v \<le> revision_of v'"

lemma log_grows_refl [simp]: "log_grows v v"
  by (simp add: log_grows_def)

lemma log_grows_trans: "log_grows u v \<Longrightarrow> log_grows v w \<Longrightarrow> log_grows u w"
  unfolding log_grows_def by (meson order_trans prefix_order.order_trans)

lemma log_grows_published:
  assumes inv: "reg_inv D w" and out: "publish_outcome w F r v"
    and same: "w revisionKey = v0 revisionKey" "w streamKey = v0 streamKey"
  shows "log_grows v0 v"
proof -
  have r: "revision_of v0 = revision_of w" "stream_of v0 = stream_of w"
    using same by (simp_all add: revision_of_def stream_of_def)
  show ?thesis
  proof (cases "revision_of w < max_published")
    case True
    then have "v = published w F" using out by (simp add: publish_outcome_def)
    with log_state_published [OF reg_inv_log [OF inv] True, of F] show ?thesis
      by (simp add: log_grows_def r log_state_revision log_state_stream)
  next
    case False
    then consider "v = w"
      | "Suc (revision_of w) < 2 ^ 63" "v = w(revisionKey \<mapsto> (RStr (dec (Suc (revision_of w))), None))"
      using out by (auto simp: publish_outcome_def)
    then show ?thesis
    proof cases
      case 2
      have "stream_of v = stream_of w"
        by (rule stream_of_cong) (simp add: 2(2) key_simps)
      moreover have "revision_of v = Suc (revision_of w)"
        using 2 by (simp add: revision_of_def ParseUint64_dec)
      ultimately show ?thesis by (simp add: log_grows_def r)
    qed (simp add: log_grows_def r)
  qed
qed

lemma payload_ok_marshal:
  "json_Unmarshal D p = Inr i \<Longrightarrow> inst_ok i \<Longrightarrow>
     payload_ok D (instanceKey (si_ServiceName i) (si_InstanceId i)) p"
  by (auto simp: payload_ok_def)

lemma entry_ok_upsert:
  "json_Unmarshal D p = Inr i \<Longrightarrow> inst_ok i \<Longrightarrow> p \<noteq> [] \<Longrightarrow> p \<noteq> ''<nil>'' \<Longrightarrow>
     entry_ok D ((n, 0), upsert_fields n (si_ServiceName i) (si_InstanceId i) p)"
  by (auto simp: entry_ok_def)

lemma entry_ok_delete: "entry_ok D ((n, 0), delete_fields n svc ins)"
  by (auto simp: entry_ok_def)

lemma lease_slot:
  assumes "reg_inv D v"
  obtains "v (instanceKey svc ins) = None" "v (tokenKey svc ins) = None"
  | p h t where "v (instanceKey svc ins) = Some (RStr p, Some t)"
      "v (tokenKey svc ins) = Some (RStr h, Some t)" "0 < t"
  using assms unfolding reg_inv_def lease_pair_def by meson

context registry_deps
begin

lemma marshal_ok:
  assumes "inst_ok i" and "json_Marshal D i = Inr p"
  shows "json_Unmarshal D p = Inr i" "p \<noteq> []" "p \<noteq> ''<nil>''"
  using assms marshalE [of i thesis for thesis] unfolding inst_ok_def by (metis Inr_inject)+

lemma register_bad_lease:
  assumes "view s (instanceKey (si_ServiceName i) (si_InstanceId i)) = None"
    and "duration_Milliseconds l \<le> 0" "int64 l"
  shows "\<exists>s'. register_script_for D i p t l s = (Inl bad_expire, s') \<and> view s' = view s"
proof -
  have "parse_int64 (dec_int (duration_Milliseconds l)) = Some (duration_Milliseconds l)"
    using int64_Milliseconds [OF assms(3)] by (simp add: int64_def parse_int64_dec_int)
  then show ?thesis
    using assms(1,2)
    by (simp add: register_script_for_def registerScript_def arg_def bind_call exists_reply exists_view
        set_px_reply set_px_view)
qed

lemma script_step:
  assumes "reg_inv D w" and "\<And>n. entry_ok D ((n, 0), F n)"
    and "publish_outcome w F r v" and "w revisionKey = v0 revisionKey" "w streamKey = v0 streamKey"
  shows "reg_inv D v \<and> log_grows v0 v"
  using reg_inv_published log_grows_published assms by metis

lemma register_step:
  assumes inv: "reg_inv D (view s)" and i: "inst_ok i" "json_Marshal D i = Inr p" and l: "int64 l"
  shows "reg_inv D (view (snd (register_script_for D i p t l s))) \<and>
         log_grows (view s) (view (snd (register_script_for D i p t l s)))"
proof -
  let ?svc = "si_ServiceName i" and ?ins = "si_InstanceId i" and ?ms = "duration_Milliseconds l"
  note m = marshal_ok [OF i]
  consider "view s (instanceKey ?svc ?ins) \<noteq> None"
    | "view s (instanceKey ?svc ?ins) = None" "?ms \<le> 0"
    | "view s (instanceKey ?svc ?ins) = None" "0 < ?ms" by fastforce
  then show ?thesis
  proof cases
    case 1
    from register_rejects [OF this, of p t l] inv show ?thesis by auto
  next
    case 2
    from register_bad_lease [OF this l, of p t] inv show ?thesis by auto
  next
    case 3
    have "?ms < 2 ^ 63" using int64_Milliseconds [OF l] by (simp add: int64_def)
    from register_effect [OF inv 3 this, of p t] show ?thesis
      using reg_inv_indexed [OF reg_inv_leased [OF inv payload_ok_marshal [OF m(1) i(1)] 3(2)]]
        entry_ok_upsert [OF m(1) i(1) m(2,3)]
      by (elim script_step [rotated 2]) (simp_all add: indexed_def leased_def key_simps)
  qed
qed

lemma update_step:
  assumes inv: "reg_inv D (view s)" and i: "inst_ok i" "json_Marshal D i = Inr p" and l: "int64 l"
  shows "reg_inv D (view (snd (update_script_for D i p t l s))) \<and>
         log_grows (view s) (view (snd (update_script_for D i p t l s)))"
proof (rule lease_slot [OF inv, of "si_ServiceName i" "si_InstanceId i"])
  let ?svc = "si_ServiceName i" and ?ins = "si_InstanceId i" and ?ms = "duration_Milliseconds l"
  note m = marshal_ok [OF i]
  assume "view s (tokenKey ?svc ?ins) = None"
  from update_rejects(1) [OF this, of p t l] inv show ?thesis by auto
next
  let ?svc = "si_ServiceName i" and ?ins = "si_InstanceId i" and ?ms = "duration_Milliseconds l"
  note m = marshal_ok [OF i]
  fix h x
  assume tok: "view s (tokenKey ?svc ?ins) = Some (RStr h, Some x)"
  have ms: "- (2 ^ 63) \<le> ?ms" "?ms < 2 ^ 63" using int64_Milliseconds [OF l] by (simp_all add: int64_def)
  consider "h \<noteq> hashToken D t" | "h = hashToken D t" "?ms \<le> 0" | "h = hashToken D t" "0 < ?ms"
    by fastforce
  then show ?thesis
  proof cases
    case 1
    from update_rejects(2) [OF tok this, of p l] inv show ?thesis by auto
  next
    case 2
    from update_bad_lease [OF tok [unfolded 2(1)] 2(2) ms(1), of p] inv show ?thesis by auto
  next
    case 3
    from update_effect [OF inv tok [unfolded 3(1)] 3(2) ms(2), of p] show ?thesis
      using reg_inv_leased [OF inv payload_ok_marshal [OF m(1) i(1)] 3(2)]
        entry_ok_upsert [OF m(1) i(1) m(2,3)]
      by (elim script_step [rotated 2]) (simp_all add: leased_def key_simps)
  qed
qed

lemma delete_step:
  assumes inv: "reg_inv D (view s)"
  shows "reg_inv D (view (snd (delete_script_for D svc ins t s))) \<and>
         log_grows (view s) (view (snd (delete_script_for D svc ins t s)))"
proof (rule lease_slot [OF inv, of svc ins])
  assume "view s (tokenKey svc ins) = None"
  from delete_rejects(1) [OF this, of t] inv show ?thesis by auto
next
  fix h x
  assume tok: "view s (tokenKey svc ins) = Some (RStr h, Some x)"
  show ?thesis
  proof (cases "h = hashToken D t")
    case False
    from delete_rejects(2) [OF tok this] inv show ?thesis by auto
  next
    case True
    from delete_effect [OF inv tok [unfolded True]] show ?thesis
      using reg_inv_unindexed [OF reg_inv_dropped [OF inv]] entry_ok_delete
      by (elim script_step [rotated 2]) (simp_all add: unindexed_other key_simps)
  qed
qed

lemma reg_inv_client:
  assumes "client_step D T s s'" and inv: "reg_inv D (view s)"
  shows "reg_inv D (view s') \<and> log_grows (view s) (view s')"
  using assms(1)
proof cases
  case (client_cleanup svc ids)
  have "unindexed v svc X revisionKey = v revisionKey" "unindexed v svc X streamKey = v streamKey" for v X
    by (simp_all add: unindexed_other key_simps)
  then have "log_grows (view s) (unindexed (view s) svc (set ids))"
    by (simp add: log_grows_def revision_of_def stream_of_def)
  with client_cleanup show ?thesis
    using srem_slot(2) [OF reg_inv_slots(1) [OF inv]] reg_inv_unindexed [OF inv] by simp
qed (use inv register_step update_step delete_step in \<open>auto simp: get_view smembers_view xread_view\<close>)

lemma view_advance: "view (advance d s) = (\<lambda>k. expire_by d (view s k))"
  by (rule ext) (rule advance_view)

lemma reg_inv_step:
  assumes "srv_step D advance s s'" and inv: "reg_inv D (view s)"
  shows "reg_inv D (view s') \<and> log_grows (view s) (view s')"
proof -
  have "log_grows (view s) (\<lambda>k. expire_by d (view s k))" for d
    using reg_inv_persistent(3,4) [OF inv] by (simp add: log_grows_def revision_of_def stream_of_def)
  then show ?thesis
    using assms reg_inv_client reg_inv_expire [OF inv] by (auto simp: srv_step_def view_advance)
qed

lemma step_closed_inv: "step_closed D advance (\<lambda>s. reg_inv D (view s))"
  unfolding step_closed_def using reg_inv_step by blast

lemma step_closed_history:
  "step_closed D advance (\<lambda>s. reg_inv D (view s) \<and> log_grows v0 (view s))"
  unfolding step_closed_def using reg_inv_step log_grows_trans by blast

end

end
