(* ===== verification/RegistryAbstract.thy ===== *)
theory RegistryAbstract
  imports RegistryContract
begin

text \<open>
  What the store promises, stated without Redis: a table of leases, each owned by the hash of a
  token and ending after a number of milliseconds, and a history of changes numbered from one.
  The abstraction function reads both off the key space, and every method of the store is shown
  to compute the corresponding operation of the specification.
\<close>

section \<open>The abstract registry\<close>

record lease =
  ls_Instance :: ServiceInstance
  ls_Owner :: string
  ls_Millis :: int

record registry =
  reg_leases :: "string \<times> string \<Rightarrow> lease option"
  reg_changes :: "Change list"

definition upsert_change :: "nat \<Rightarrow> ServiceInstance \<Rightarrow> Change" where
  "upsert_change n i =
     \<lparr>chg_Revision = n, chg_Type = ''upsert'', chg_Service = si_ServiceName i,
      chg_Instance = si_InstanceId i, chg_Value = Some i\<rparr>"

definition delete_change :: "nat \<Rightarrow> string \<Rightarrow> string \<Rightarrow> Change" where
  "delete_change n svc ins =
     \<lparr>chg_Revision = n, chg_Type = ''delete'', chg_Service = svc, chg_Instance = ins, chg_Value = None\<rparr>"

definition spec_put :: "ServiceInstance \<Rightarrow> string \<Rightarrow> int \<Rightarrow> registry \<Rightarrow> (go_err + nat) \<times> registry" where
  "spec_put i owner ms st =
     (let n = Suc (length (reg_changes st)) in
      (Inr n,
       st\<lparr>reg_leases := (reg_leases st)((si_ServiceName i, si_InstanceId i) \<mapsto>
             \<lparr>ls_Instance = i, ls_Owner = owner, ls_Millis = ms\<rparr>),
          reg_changes := reg_changes st @ [upsert_change n i]\<rparr>))"

definition spec_register :: "ServiceInstance \<Rightarrow> string \<Rightarrow> int \<Rightarrow> registry \<Rightarrow> (go_err + nat) \<times> registry" where
  "spec_register i owner ms st =
     (case reg_leases st (si_ServiceName i, si_InstanceId i) of
        Some _ \<Rightarrow> (Inl ErrAlreadyRegistered, st)
      | None \<Rightarrow> spec_put i owner ms st)"

definition spec_update :: "ServiceInstance \<Rightarrow> string \<Rightarrow> int \<Rightarrow> registry \<Rightarrow> (go_err + nat) \<times> registry" where
  "spec_update i owner ms st =
     (case reg_leases st (si_ServiceName i, si_InstanceId i) of
        None \<Rightarrow> (Inl ErrNotFound, st)
      | Some l \<Rightarrow> if ls_Owner l \<noteq> owner then (Inl ErrLeaseNotOwned, st) else spec_put i owner ms st)"

definition spec_deregister :: "string \<Rightarrow> string \<Rightarrow> string \<Rightarrow> registry \<Rightarrow> (go_err + nat) \<times> registry" where
  "spec_deregister svc ins owner st =
     (case reg_leases st (svc, ins) of
        None \<Rightarrow> (Inl ErrNotFound, st)
      | Some l \<Rightarrow>
          if ls_Owner l \<noteq> owner then (Inl ErrLeaseNotOwned, st)
          else (let n = Suc (length (reg_changes st)) in
                (Inr n, st\<lparr>reg_leases := (reg_leases st)((svc, ins) := None),
                           reg_changes := reg_changes st @ [delete_change n svc ins]\<rparr>)))"

definition lease_tick :: "nat \<Rightarrow> lease \<Rightarrow> lease option" where
  "lease_tick d l =
     (if ls_Millis l \<le> int d then None else Some (l\<lparr>ls_Millis := ls_Millis l - int d\<rparr>))"

definition spec_tick :: "nat \<Rightarrow> registry \<Rightarrow> registry" where
  "spec_tick d st = st\<lparr>reg_leases := (\<lambda>k. Option.bind (reg_leases st k) (lease_tick d))\<rparr>"

section \<open>The abstraction function\<close>

definition lease_at :: "'s platform \<Rightarrow> keyspace \<Rightarrow> string \<Rightarrow> string \<Rightarrow> lease option" where
  "lease_at D v svc ins =
     (case (v (instanceKey svc ins), v (tokenKey svc ins)) of
        (Some (RStr p, Some t), Some (RStr h, _)) \<Rightarrow>
          (case json_Unmarshal D p of
             Inr i \<Rightarrow> Some \<lparr>ls_Instance = i, ls_Owner = h, ls_Millis = t\<rparr>
           | Inl _ \<Rightarrow> None)
      | _ \<Rightarrow> None)"

definition change_of_entry :: "'s platform \<Rightarrow> stream_id \<times> fields \<Rightarrow> Change option" where
  "change_of_entry D e = change_of_message D (show_stream_id (fst e), snd e)"

definition abs_reg :: "'s platform \<Rightarrow> keyspace \<Rightarrow> registry" where
  "abs_reg D v =
     \<lparr>reg_leases = (\<lambda>(svc, ins). if CHR '':'' \<in> set svc then None else lease_at D v svc ins),
      reg_changes = List.map_filter (change_of_entry D) (stream_of v)\<rparr>"

lemma sprint_upsert:
  "sprint_field (upsert_fields n s i p) ''type'' = ''upsert''"
  "sprint_field (upsert_fields n s i p) ''service'' = s"
  "sprint_field (upsert_fields n s i p) ''instance'' = i"
  "sprint_field (upsert_fields n s i p) ''payload'' = p"
  by (simp_all add: sprint_field_def upsert_fields_def)

lemma sprint_delete:
  "sprint_field (delete_fields n s i) ''type'' = ''delete''"
  "sprint_field (delete_fields n s i) ''service'' = s"
  "sprint_field (delete_fields n s i) ''instance'' = i"
  "sprint_field (delete_fields n s i) ''payload'' = ''<nil>''"
  by (simp_all add: sprint_field_def delete_fields_def)

lemma change_of_upsert:
  assumes "n < 2 ^ 64" "json_Unmarshal D p = Inr i" "p \<noteq> []" "p \<noteq> ''<nil>''"
    and "svc = si_ServiceName i" "ins = si_InstanceId i"
  shows "change_of_entry D ((n, 0), upsert_fields n svc ins p) = Some (upsert_change n i)"
  using assms strings_Split_first_append [of "CHR ''-''" "dec n" "dec 0"]
  by (simp add: change_of_entry_def change_of_message_def show_stream_id_def sprint_upsert
      upsert_change_def dec_no_minus)

lemma change_of_delete:
  assumes "n < 2 ^ 64"
  shows "change_of_entry D ((n, 0), delete_fields n svc ins) = Some (delete_change n svc ins)"
  using assms strings_Split_first_append [of "CHR ''-''" "dec n" "dec 0"]
  by (simp add: change_of_entry_def change_of_message_def show_stream_id_def sprint_delete
      delete_change_def dec_no_minus)

lemma log_state_ids:
  "log_state v n es \<Longrightarrow> e \<in> set es \<Longrightarrow> \<exists>k. fst e = (k, 0) \<and> 0 < k \<and> k \<le> n \<and> k \<le> max_published"
proof -
  assume l: "log_state v n es" and e: "e \<in> set es"
  have "map fst es = map (\<lambda>k. (k, 0)) [1..<Suc (min n max_published)]"
    using l unfolding log_state_def by blast
  moreover have "fst e \<in> set (map fst es)" using e by simp
  ultimately have "fst e \<in> (\<lambda>k. (k, 0)) ` {1..<Suc (min n max_published)}"
    by (simp del: upt_Suc)
  then show ?thesis by auto
qed

lemma entry_change:
  assumes "entry_ok D e" and "fst e = (k, 0)" and "k < 2 ^ 64"
  shows "\<exists>c. change_of_entry D e = Some c \<and> chg_Revision c = k"
proof -
  have e: "e = ((k, 0), snd e)" using assms(2) by (metis surjective_pairing)
  consider i p where "json_Unmarshal D p = Inr i" "p \<noteq> []" "p \<noteq> ''<nil>''"
      "snd e = upsert_fields k (si_ServiceName i) (si_InstanceId i) p"
    | s i where "snd e = delete_fields k s i"
    using assms(1,2) by (auto simp: entry_ok_def)
  then show ?thesis
  proof cases
    case 1
    then show ?thesis using change_of_upsert [OF assms(3) 1(1,2,3)] e by (metis upsert_change_def Change.select_convs(1))
  next
    case 2
    then show ?thesis using change_of_delete [OF assms(3)] e by (metis delete_change_def Change.select_convs(1))
  qed
qed

lemma map_filter_total:
  "(\<And>x. x \<in> set xs \<Longrightarrow> f x \<noteq> None) \<Longrightarrow> List.map_filter f xs = map (the \<circ> f) xs"
proof (induction xs)
  case (Cons x xs)
  then obtain y where "f x = Some y" by fastforce
  with Cons show ?case by (simp add: List.map_filter_simps)
qed (simp add: List.map_filter_simps)

lemma entries_decode:
  assumes inv: "reg_inv D v" and e: "e \<in> set (stream_of v)"
  shows "\<exists>c. change_of_entry D e = Some c \<and> chg_Revision c = fst (fst e)"
proof -
  obtain k where k: "fst e = (k, 0)" "k \<le> max_published"
    using log_state_ids [OF reg_inv_log [OF inv] e] by blast
  have "k < 2 ^ 64" using k(2) by (simp add: max_published_def)
  moreover have "entry_ok D e" using reg_inv_entries [OF inv] e by (simp add: list_all_iff)
  ultimately show ?thesis using entry_change [OF _ k(1)] k(1) by simp
qed

text \<open>The history holds the changes 1, 2, 3 and so on, with none missing.\<close>

lemma abs_changes_revisions:
  assumes inv: "reg_inv D v"
  shows "map chg_Revision (reg_changes (abs_reg D v)) = [1..<Suc (min (revision_of v) max_published)]"
proof -
  note c = entries_decode [OF inv]
  have "List.map_filter (change_of_entry D) (stream_of v) = map (the \<circ> change_of_entry D) (stream_of v)"
    by (rule map_filter_total) (use c in fastforce)
  then have "map chg_Revision (reg_changes (abs_reg D v)) = map fst (map fst (stream_of v))"
    using c by (fastforce simp: abs_reg_def)
  also have "\<dots> = [1..<Suc (min (revision_of v) max_published)]"
    using reg_inv_log [OF inv] unfolding log_state_def by (simp add: comp_def del: upt_Suc)
  finally show ?thesis .
qed

lemma abs_changes_length:
  "reg_inv D v \<Longrightarrow> length (reg_changes (abs_reg D v)) = min (revision_of v) max_published"
  using arg_cong [where f = length, OF abs_changes_revisions] by fastforce

text \<open>Any window of the history has consecutive numbers.\<close>

lemma changes_window:
  assumes "reg_inv D v"
  shows "map chg_Revision (take m (drop k (reg_changes (abs_reg D v)))) =
    [Suc k..<Suc k + length (take m (drop k (reg_changes (abs_reg D v))))]"
proof -
  let ?cs = "reg_changes (abs_reg D v)"
  have r: "map chg_Revision ?cs = [1..<Suc (length ?cs)]"
    using abs_changes_revisions [OF assms] abs_changes_length [OF assms] by simp
  have "map chg_Revision (take m (drop k ?cs)) = take m (drop k [1..<Suc (length ?cs)])"
    by (simp only: take_map [symmetric] drop_map [symmetric] r)
  also have "\<dots> = [Suc k..<Suc k + length (take m (drop k ?cs))]"
    by (cases "k \<le> length ?cs") (simp_all add: take_upt drop_upt min_def del: upt_Suc)
  finally show ?thesis .
qed

section \<open>The abstraction of each change of the key space\<close>

lemma lease_cases:
  assumes inv: "reg_inv D v"
  obtains "v (instanceKey svc ins) = None" "v (tokenKey svc ins) = None" "lease_at D v svc ins = None"
  | p h t i where "v (instanceKey svc ins) = Some (RStr p, Some t)"
      "v (tokenKey svc ins) = Some (RStr h, Some t)" "0 < t" "json_Unmarshal D p = Inr i" "inst_ok i"
      "instanceKey (si_ServiceName i) (si_InstanceId i) = instanceKey svc ins"
      "lease_at D v svc ins = Some \<lparr>ls_Instance = i, ls_Owner = h, ls_Millis = t\<rparr>"
proof (rule lease_slot [OF inv, of svc ins])
  assume "v (instanceKey svc ins) = None" "v (tokenKey svc ins) = None"
  then show thesis using that(1) by (simp add: lease_at_def)
next
  fix p h t
  assume k: "v (instanceKey svc ins) = Some (RStr p, Some t)" "v (tokenKey svc ins) = Some (RStr h, Some t)" "0 < t"
  then have "payload_ok D (instanceKey svc ins) p" using inv by (simp add: reg_inv_def)
  then obtain i where "json_Unmarshal D p = Inr i" "inst_ok i"
      "instanceKey (si_ServiceName i) (si_InstanceId i) = instanceKey svc ins"
    by (auto simp: payload_ok_def)
  with k show thesis using that(2) by (simp add: lease_at_def)
qed

lemma lease_at_None: "reg_inv D v \<Longrightarrow> lease_at D v svc ins = None \<longleftrightarrow> v (instanceKey svc ins) = None"
  by (erule lease_cases [of D v svc ins]) auto

text \<open>An instance is stored under its own names.\<close>

lemma lease_at_names:
  assumes "reg_inv D v" and "lease_at D v svc ins = Some l" and "CHR '':'' \<notin> set svc"
  shows "si_ServiceName (ls_Instance l) = svc" "si_InstanceId (ls_Instance l) = ins" "inst_ok (ls_Instance l)"
    "0 < ls_Millis l"
  using assms(2,3)
  by (rule_tac lease_cases [OF assms(1), of svc ins];
      fastforce simp: inst_ok_def instanceKey_inj)+

lemma abs_leases [simp]:
  "CHR '':'' \<notin> set svc \<Longrightarrow> reg_leases (abs_reg D v) (svc, ins) = lease_at D v svc ins"
  by (simp add: abs_reg_def)

lemma abs_colon [simp]: "CHR '':'' \<in> set svc \<Longrightarrow> reg_leases (abs_reg D v) (svc, ins) = None"
  by (simp add: abs_reg_def)

lemma abs_changes: "reg_changes (abs_reg D v) = List.map_filter (change_of_entry D) (stream_of v)"
  by (simp add: abs_reg_def)

lemma abs_changes_grow: "log_grows v v' \<Longrightarrow> prefix (reg_changes (abs_reg D v)) (reg_changes (abs_reg D v'))"
  by (auto simp: log_grows_def abs_changes prefix_def List.map_filter_def)

lemma abs_eqI:
  fixes st :: registry
  assumes "\<And>s i. CHR '':'' \<notin> set s \<Longrightarrow> lease_at D v s i = reg_leases st (s, i)"
    and "\<And>s i. CHR '':'' \<in> set s \<Longrightarrow> reg_leases st (s, i) = None"
    and "List.map_filter (change_of_entry D) (stream_of v) = reg_changes st"
  shows "abs_reg D v = st"
proof -
  have "reg_leases (abs_reg D v) k = reg_leases st k" for k
    by (cases k) (use assms(1,2) in \<open>auto simp: abs_reg_def\<close>)
  then show ?thesis using assms(3) by (intro registry.equality) (auto simp: abs_changes)
qed

lemma abs_reg_cong:
  assumes "\<And>s i. v' (instanceKey s i) = v (instanceKey s i)" "\<And>s i. v' (tokenKey s i) = v (tokenKey s i)"
    and "v' streamKey = v streamKey"
  shows "abs_reg D v' = abs_reg D v"
  by (rule abs_eqI) (use assms in \<open>simp_all add: lease_at_def abs_changes stream_of_def\<close>)

lemma abs_indexed: "abs_reg D (indexed v svc ins) = abs_reg D v"
  by (rule abs_reg_cong) (simp_all add: indexed_def key_simps)

lemma abs_unindexed: "abs_reg D (unindexed v svc ids) = abs_reg D v"
  by (rule abs_reg_cong) (simp_all add: unindexed_other key_simps)

lemma abs_published:
  assumes "change_of_entry D ((Suc (revision_of w), 0), F (Suc (revision_of w))) = Some c"
  shows "abs_reg D (published w F) = (abs_reg D w)\<lparr>reg_changes := reg_changes (abs_reg D w) @ [c]\<rparr>"
  using assms
  by (intro abs_eqI)
    (simp_all add: lease_at_def published_def key_simps stream_of_def abs_changes List.map_filter_def)

lemma abs_leased:
  assumes "CHR '':'' \<notin> set svc" and "json_Unmarshal D p = Inr i"
  shows "abs_reg D (leased v svc ins p h ms) =
    (abs_reg D v)\<lparr>reg_leases := (reg_leases (abs_reg D v))((svc, ins) \<mapsto>
       \<lparr>ls_Instance = i, ls_Owner = h, ls_Millis = ms\<rparr>)\<rparr>"
  using assms
  by (intro abs_eqI)
    (auto simp: lease_at_def leased_lease instanceKey_inj abs_changes stream_of_def leased_other)

lemma abs_dropped:
  assumes "CHR '':'' \<notin> set svc"
  shows "abs_reg D (v |` (- {instanceKey svc ins, tokenKey svc ins})) =
    (abs_reg D v)\<lparr>reg_leases := (reg_leases (abs_reg D v))((svc, ins) := None)\<rparr>"
  using assms
  by (intro abs_eqI)
    (auto simp: lease_at_def dropped_lease dropped_other instanceKey_inj abs_changes stream_of_def
      simp del: restrict_in Compl_insert)

lemma abs_expire:
  assumes inv: "reg_inv D v"
  shows "abs_reg D (\<lambda>k. expire_by d (v k)) = spec_tick d (abs_reg D v)"
proof (rule abs_eqI)
  fix s i
  assume "CHR '':'' \<notin> set s"
  then show "lease_at D (\<lambda>k. expire_by d (v k)) s i = reg_leases (spec_tick d (abs_reg D v)) (s, i)"
    by (rule_tac lease_cases [OF inv, of s i])
      (simp_all add: spec_tick_def lease_tick_def, simp_all add: lease_at_def expire_by_def)
qed (use reg_inv_persistent(4) [OF inv] in \<open>simp_all add: spec_tick_def abs_changes stream_of_def\<close>)

section \<open>The store computes the specification\<close>

context registry_deps
begin

lemma put_refines:
  assumes inv: "reg_inv D (view s)" and i: "inst_ok i" "json_Unmarshal D p = Inr i" "p \<noteq> []" "p \<noteq> ''<nil>''"
    and room: "revision_of (view s) < max_published"
    and w: "w = leased (view s) (si_ServiceName i) (si_InstanceId i) p h ms \<or>
      w = indexed (leased (view s) (si_ServiceName i) (si_InstanceId i) p h ms) (si_ServiceName i) (si_InstanceId i)"
    and out: "publish_outcome w (\<lambda>n. upsert_fields n (si_ServiceName i) (si_InstanceId i) p) r v"
  shows "(map_sum ErrText id r, abs_reg D v) = spec_put i h ms (abs_reg D (view s))"
proof -
  let ?F = "\<lambda>n. upsert_fields n (si_ServiceName i) (si_InstanceId i) p"
  have rev: "revision_of w = revision_of (view s)"
    using w by (auto intro!: revision_of_cong simp: indexed_def leased_def key_simps)
  have "Suc (revision_of w) < 2 ^ 64" using room by (simp add: rev max_published_def)
  from change_of_upsert [OF this i(2,3,4) refl refl] have
    "change_of_entry D ((Suc (revision_of w), 0), ?F (Suc (revision_of w))) = Some (upsert_change (Suc (revision_of w)) i)" .
  note p = abs_published [where F = ?F, OF this]
  have "abs_reg D w = abs_reg D (leased (view s) (si_ServiceName i) (si_InstanceId i) p h ms)"
    using w by (auto simp: abs_indexed)
  moreover have "r = Inr (Suc (revision_of w))" "v = published w ?F"
    using out room by (simp_all add: publish_outcome_def rev)
  moreover have "CHR '':'' \<notin> set (si_ServiceName i)" using i(1) by (simp add: inst_ok_def)
  moreover have "length (reg_changes (abs_reg D (view s))) = revision_of (view s)"
    using abs_changes_length [OF inv] room by simp
  ultimately show ?thesis
    using i(2) by (simp add: p abs_leased spec_put_def rev)
qed

lemma Store_Register_refines:
  assumes inv: "reg_inv D (view s)" and i: "inst_ok i" and l: "int64 l" "0 < duration_Milliseconds l"
    and room: "revision_of (view s) < max_published"
  shows "\<exists>s'. Store_Register D i t l (quiet s) =
             (fst (spec_register i (hashToken D t) (duration_Milliseconds l) (abs_reg D (view s))), quiet s') \<and>
           abs_reg D (view s') =
             snd (spec_register i (hashToken D t) (duration_Milliseconds l) (abs_reg D (view s)))"
proof -
  let ?svc = "si_ServiceName i" and ?ins = "si_InstanceId i"
  have nc: "CHR '':'' \<notin> set ?svc" using i by (simp add: inst_ok_def)
  obtain p where p: "json_Marshal D i = Inr p" "json_Unmarshal D p = Inr i" "p \<noteq> []" "p \<noteq> ''<nil>''"
    using i marshalE unfolding inst_ok_def by metis
  define r s' where "r = fst (register_script_for D i p t l s)" and "s' = snd (register_script_for D i p t l s)"
  have run: "Store_Register D i t l (quiet s) =
      (case r of Inl e \<Rightarrow> Inl (mapScriptError (ErrText e)) | Inr n \<Rightarrow> Inr n, quiet s')"
    by (simp add: Store_Register_def p run_mapped_apply r_def s'_def split: prod.splits sum.splits)
  show ?thesis
  proof (cases "view s (instanceKey ?svc ?ins) = None")
    case True
    have "duration_Milliseconds l < 2 ^ 63" using int64_Milliseconds [OF l(1)] by (simp add: int64_def)
    note eff = register_effect [OF inv True l(2) this, of p t, folded r_def s'_def]
    have "(map_sum ErrText id r, abs_reg D (view s')) =
        spec_put i (hashToken D t) (duration_Milliseconds l) (abs_reg D (view s))"
      by (rule put_refines [OF inv i p(2-4) room _ eff]) simp
    moreover have "lease_at D (view s) ?svc ?ins = None" using lease_at_None [OF inv] True by simp
    ultimately show ?thesis
      using run nc by (cases r) (auto simp: spec_register_def spec_put_def Let_def)
  next
    case False
    then obtain x where "lease_at D (view s) ?svc ?ins = Some x"
      using lease_at_None [OF inv, of ?svc ?ins] by auto
    then show ?thesis
      using run nc register_rejects [OF False, of p t l] by (auto simp: spec_register_def r_def s'_def)
  qed
qed

lemma Store_Update_refines:
  assumes inv: "reg_inv D (view s)" and i: "inst_ok i" and l: "int64 l" "0 < duration_Milliseconds l"
    and room: "revision_of (view s) < max_published"
  shows "\<exists>s'. Store_Update D i t l (quiet s) =
             (fst (spec_update i (hashToken D t) (duration_Milliseconds l) (abs_reg D (view s))), quiet s') \<and>
           abs_reg D (view s') =
             snd (spec_update i (hashToken D t) (duration_Milliseconds l) (abs_reg D (view s)))"
proof -
  let ?svc = "si_ServiceName i" and ?ins = "si_InstanceId i"
  have nc: "CHR '':'' \<notin> set ?svc" using i by (simp add: inst_ok_def)
  obtain p where p: "json_Marshal D i = Inr p" "json_Unmarshal D p = Inr i" "p \<noteq> []" "p \<noteq> ''<nil>''"
    using i marshalE unfolding inst_ok_def by metis
  define r s' where "r = fst (update_script_for D i p t l s)" and "s' = snd (update_script_for D i p t l s)"
  have run: "Store_Update D i t l (quiet s) =
      (case r of Inl e \<Rightarrow> Inl (mapScriptError (ErrText e)) | Inr n \<Rightarrow> Inr n, quiet s')"
    by (simp add: Store_Update_def p run_mapped_apply r_def s'_def split: prod.splits sum.splits)
  show ?thesis
  proof (rule lease_cases [OF inv, of ?svc ?ins])
    assume "view s (tokenKey ?svc ?ins) = None" "lease_at D (view s) ?svc ?ins = None"
    then show ?thesis
      using run nc update_rejects(1) [of s i p t l] by (auto simp: spec_update_def r_def s'_def)
  next
    fix h x j
    assume tok: "view s (tokenKey ?svc ?ins) = Some (RStr h, Some x)"
      and at: "lease_at D (view s) ?svc ?ins = Some \<lparr>ls_Instance = j, ls_Owner = h, ls_Millis = x\<rparr>"
    show ?thesis
    proof (cases "h = hashToken D t")
      case True
      have "duration_Milliseconds l < 2 ^ 63" using int64_Milliseconds [OF l(1)] by (simp add: int64_def)
      note eff = update_effect [OF inv tok [unfolded True] l(2) this, of p, folded r_def s'_def]
      have "(map_sum ErrText id r, abs_reg D (view s')) =
          spec_put i (hashToken D t) (duration_Milliseconds l) (abs_reg D (view s))"
        by (rule put_refines [OF inv i p(2-4) room _ eff]) simp
      then show ?thesis
        using run nc at True by (cases r) (auto simp: spec_update_def spec_put_def Let_def)
    next
      case False
      then show ?thesis
        using run nc at update_rejects(2) [OF tok False, of p l] by (auto simp: spec_update_def r_def s'_def)
    qed
  qed
qed

lemma Store_Deregister_refines:
  assumes inv: "reg_inv D (view s)" and nc: "CHR '':'' \<notin> set svc"
    and room: "revision_of (view s) < max_published"
  shows "\<exists>s'. Store_Deregister D svc ins t (quiet s) =
             (fst (spec_deregister svc ins (hashToken D t) (abs_reg D (view s))), quiet s') \<and>
           abs_reg D (view s') = snd (spec_deregister svc ins (hashToken D t) (abs_reg D (view s)))"
proof -
  define r s' where "r = fst (delete_script_for D svc ins t s)" and "s' = snd (delete_script_for D svc ins t s)"
  have run: "Store_Deregister D svc ins t (quiet s) =
      (case r of Inl e \<Rightarrow> Inl (mapScriptError (ErrText e)) | Inr n \<Rightarrow> Inr n, quiet s')"
    by (simp add: Store_Deregister_def run_mapped_apply r_def s'_def split: prod.splits sum.splits)
  show ?thesis
  proof (rule lease_cases [OF inv, of svc ins])
    assume "view s (tokenKey svc ins) = None" "lease_at D (view s) svc ins = None"
    then show ?thesis
      using run nc delete_rejects(1) [of s svc ins t] by (auto simp: spec_deregister_def r_def s'_def)
  next
    fix h x j
    assume tok: "view s (tokenKey svc ins) = Some (RStr h, Some x)"
      and at: "lease_at D (view s) svc ins = Some \<lparr>ls_Instance = j, ls_Owner = h, ls_Millis = x\<rparr>"
    show ?thesis
    proof (cases "h = hashToken D t")
      case True
      let ?d = "(view s) |` (- {instanceKey svc ins, tokenKey svc ins})"
      let ?w = "unindexed ?d svc {ins}"
      let ?F = "\<lambda>n. delete_fields n svc ins"
      have rev: "revision_of ?w = revision_of (view s)"
        by (rule revision_of_cong) (simp add: unindexed_other key_simps)
      have out: "r = Inr (Suc (revision_of (view s)))" "view s' = published ?w ?F"
        using delete_effect [OF inv tok [unfolded True], folded r_def s'_def] room
        by (simp_all add: publish_outcome_def rev)
      have "Suc (revision_of ?w) < 2 ^ 64" using room by (simp add: rev max_published_def)
      note p = abs_published [where F = ?F, OF change_of_delete [OF this]]
      have "abs_reg D (view s') = (abs_reg D ?d)\<lparr>reg_changes := reg_changes (abs_reg D ?d) @
          [delete_change (Suc (revision_of (view s))) svc ins]\<rparr>"
        using p by (simp only: out(2) abs_unindexed rev)
      moreover have "length (reg_changes (abs_reg D (view s))) = revision_of (view s)"
        using abs_changes_length [OF inv] room by simp
      ultimately show ?thesis
        using run nc at True out(1) abs_dropped [OF nc, of D "view s" ins]
        by (intro exI [of _ s']) (simp add: spec_deregister_def Let_def del: Compl_insert)
    next
      case False
      then show ?thesis
        using run nc at delete_rejects(2) [OF tok False] by (auto simp: spec_deregister_def r_def s'_def)
    qed
  qed
qed

lemma advance_refines:
  "reg_inv D (view s) \<Longrightarrow> abs_reg D (view (advance d s)) = spec_tick d (abs_reg D (view s))"
  by (simp add: view_advance abs_expire)

end

end
