(* ===== verification/RegistryReads.thy ===== *)
theory RegistryReads
  imports RegistryAbstract
begin

text \<open>
  The reading methods of the store, run without interference: what they return, in terms of the
  abstract registry, and that they leave it as it is. The index of a service may lag behind
  expired leases; \<open>index_ok\<close> says it never misses a live one, and \<open>Store.List\<close> relies on it.
\<close>

definition index_ok :: "keyspace \<Rightarrow> bool" where
  "index_ok v \<longleftrightarrow>
     (\<forall>svc ins. CHR '':'' \<notin> set svc \<longrightarrow> v (instanceKey svc ins) \<noteq> None \<longrightarrow>
        ins \<in> members v (serviceKey svc) \<and> svc \<in> members v servicesKey) \<and>
     (\<forall>svc \<in> members v servicesKey. CHR '':'' \<notin> set svc)"

lemma client_do_quiet [sem_simps]:
  "client_do call c (quiet s) =
     (case fst (call c s) of RErr e \<Rightarrow> Inl (ErrText e) | RNil \<Rightarrow> Inl RedisNil | r \<Rightarrow> Inr r,
      quiet (snd (call c s)))"
  by (simp add: client_do_def sem_simps split: reply.splits)

lemma members_slot:
  "set_slot (v k) \<Longrightarrow> v k = None \<and> members v k = {} \<or> v k = Some (RSet (members v k), None)"
  by (auto simp: set_slot_def members_def)

text \<open>The decoded instances of those identifiers that are leased, and the other identifiers.\<close>

definition live :: "'s platform \<Rightarrow> keyspace \<Rightarrow> string \<Rightarrow> string list \<Rightarrow> ServiceInstance list" where
  "live D v svc ids = List.map_filter (\<lambda>i. map_option ls_Instance (lease_at D v svc i)) ids"

definition dead :: "'s platform \<Rightarrow> keyspace \<Rightarrow> string \<Rightarrow> string list \<Rightarrow> string list" where
  "dead D v svc ids = filter (\<lambda>i. lease_at D v svc i = None) ids"

context registry_deps
begin

lemma Store_Get_quiet:
  assumes inv: "reg_inv D (view s)"
  shows "\<exists>s'. Store_Get D svc ins (quiet s) =
      (case lease_at D (view s) svc ins of
         None \<Rightarrow> Inl ErrNotFound | Some l \<Rightarrow> Inr (ls_Instance l), quiet s') \<and> view s' = view s"
  by (rule lease_cases [OF inv, of svc ins])
    (auto simp: Store_Get_def sem_simps get_reply get_view)

lemma read_revision_quiet:
  assumes inv: "reg_inv D (view s)"
  shows "\<exists>s'. read_revision D (quiet s) = (Inr (revision_of (view s)), quiet s') \<and> view s' = view s"
proof -
  let ?n = "revision_of (view s)"
  have "?n < 2 ^ 64" "?n = 0 \<and> view s revisionKey = None \<or> view s revisionKey = Some (RStr (dec ?n), None)"
    using reg_inv_log [OF inv] by (auto simp: log_state_def)
  then show ?thesis by (auto simp: read_revision_def sem_simps get_reply get_view)
qed

lemma read_members_quiet:
  assumes "set_slot (view s k)"
  shows "\<exists>ids s'. read_members D k c (quiet s) = (Inr ids, quiet s') \<and> view s' = view s \<and>
           distinct ids \<and> set ids = members (view s) k"
proof -
  obtain ids where "fst (rcall D (SMEMBERS k) s) = RArr ids" "distinct ids" "set ids = members (view s) k"
    using smembers_set [of s k "members (view s) k"] members_slot [of "view s" k, OF assms] by blast
  then show ?thesis by (auto simp: read_members_def sem_simps smembers_view)
qed

lemma list_loop_quiet:
  assumes "reg_inv D v" and "view s = v"
  shows "\<exists>s'. list_loop D svc ids xs stale (quiet s) =
      (Inr (xs @ live D v svc ids, stale @ dead D v svc ids), quiet s') \<and> view s' = v"
  using assms(2)
proof (induction ids arbitrary: s xs stale)
  case Nil
  then show ?case by (simp add: sem_simps live_def dead_def)
next
  case (Cons i ids)
  obtain s1 where s1: "Store_Get D svc i (quiet s) =
      (case lease_at D v svc i of None \<Rightarrow> Inl ErrNotFound | Some l \<Rightarrow> Inr (ls_Instance l), quiet s1)"
      "view s1 = v"
    using Store_Get_quiet [of s svc i] assms(1) Cons.prems by auto
  show ?case
  proof (cases "lease_at D v svc i")
    case None
    with Cons.IH [OF s1(2), of xs "stale @ [i]"] s1(1) show ?thesis
      by (simp add: sem_simps live_def dead_def)
  next
    case (Some l)
    with Cons.IH [OF s1(2), of "xs @ [ls_Instance l]" stale] s1(1) show ?thesis
      by (simp add: sem_simps live_def dead_def)
  qed
qed

text \<open>\<open>Store.List\<close>: the live instances among the members, and the dead members forgotten.\<close>

lemma Store_List_quiet:
  assumes inv: "reg_inv D (view s)"
  shows "\<exists>ids s'. Store_List D svc (quiet s) =
      (Inr (live D (view s) svc ids, revision_of (view s)), quiet s') \<and>
    distinct ids \<and> set ids = members (view s) (serviceKey svc) \<and>
    view s' = (if dead D (view s) svc ids = [] then view s
               else unindexed (view s) svc (set (dead D (view s) svc ids)))"
proof -
  obtain ids s1 where s1: "read_members D (serviceKey svc) ''list instance ids'' (quiet s) = (Inr ids, quiet s1)"
      "view s1 = view s" "distinct ids" "set ids = members (view s) (serviceKey svc)"
    using read_members_quiet [OF reg_inv_slots(1) [OF inv, of svc]] by blast
  let ?x = "live D (view s) svc ids" and ?d = "dead D (view s) svc ids"
  obtain s2 where s2: "list_loop D svc ids [] [] (quiet s1) = (Inr (?x, ?d), quiet s2)" "view s2 = view s"
    using list_loop_quiet [OF inv s1(2), of svc ids "[]" "[]"] by auto
  define s3 where "s3 = (if ?d = [] then s2 else snd (rcall D (SREM (serviceKey svc) ?d) s2))"
  obtain n where n: "fst (rcall D (SREM (serviceKey svc) ?d) s2) = RInt n"
    using srem_slot(1) [of s2 svc ?d] reg_inv_slots(1) [OF inv] s2(2) by auto
  have v3: "view s3 = (if ?d = [] then view s else unindexed (view s) svc (set ?d))"
    using srem_slot(2) [of s2 svc ?d] reg_inv_slots(1) [OF inv] s2(2) by (simp add: s3_def)
  have inv3: "reg_inv D (view s3)" "revision_of (view s3) = revision_of (view s)"
    using inv reg_inv_unindexed [OF inv]
    by (simp_all add: v3 revision_of_def unindexed_other key_simps)
  obtain s4 where s4: "read_revision D (quiet s3) = (Inr (revision_of (view s)), quiet s4)" "view s4 = view s3"
    using read_revision_quiet [OF inv3(1)] inv3(2) by auto
  have "Store_List D svc (quiet s) = (Inr (?x, revision_of (view s)), quiet s4)"
    using s1(1) s2(1) s4(1) by (simp add: Store_List_def sem_simps n s3_def split: if_splits)
  with s1 s4(2) v3 show ?thesis by (intro exI [of _ ids] exI [of _ s4]) simp
qed

lemma Store_Services_quiet:
  assumes inv: "reg_inv D (view s)"
  shows "\<exists>svcs s'. Store_Services D (quiet s) = (Inr (svcs, revision_of (view s)), quiet s') \<and>
    view s' = view s \<and> distinct svcs \<and> set svcs = members (view s) servicesKey"
proof -
  obtain ids s1 where s1: "read_members D servicesKey ''list services'' (quiet s) = (Inr ids, quiet s1)"
      "view s1 = view s" "distinct ids" "set ids = members (view s) servicesKey"
    using read_members_quiet [OF reg_inv_slots(2) [OF inv]] by blast
  moreover obtain s2 where "read_revision D (quiet s1) = (Inr (revision_of (view s)), quiet s2)" "view s2 = view s"
    using read_revision_quiet [of s1] inv s1(2) by auto
  ultimately show ?thesis by (auto simp: Store_Services_def sem_simps)
qed

text \<open>
  \<open>Store.Changes\<close>: the changes after a revision, oldest first, at most 128 of them.
\<close>

lemma stream_after:
  assumes l: "log_state v n es"
  shows "filter (\<lambda>e. id_less (k, 0) (fst e)) es = drop k es"
proof -
  have ids: "map fst es = map (\<lambda>k. (k, 0)) [1..<Suc (length es)]"
    using l log_state_length [OF l] unfolding log_state_def by simp
  have "\<And>j. j < length es \<Longrightarrow> fst (es ! j) = (Suc j, 0)"
  proof -
    fix j
    assume j: "j < length es"
    then have "fst (es ! j) = map fst es ! j" by simp
    also have "\<dots> = (Suc j, 0)" unfolding ids using j by (simp del: upt_Suc)
    finally show "fst (es ! j) = (Suc j, 0)" .
  qed
  then show ?thesis
  proof (induction es rule: rev_induct)
    case (snoc e es)
    have "fst e = (Suc (length es), 0)" using snoc.prems [of "length es"] by simp
    moreover have "filter (\<lambda>e. id_less (k, 0) (fst e)) es = drop k es"
    proof (rule snoc.IH)
      fix j
      assume "j < length es"
      then show "fst (es ! j) = (Suc j, 0)" using snoc.prems [of j] by (simp add: nth_append)
    qed
    ultimately show ?case by (cases "k \<le> length es") (simp_all add: id_less_def)
  qed simp
qed

lemma Store_Changes_quiet:
  assumes inv: "reg_inv D (view s)" and k: "after < 2 ^ 64"
  shows "\<exists>s'. Store_Changes D after (quiet s) =
      (Inr (take 128 (drop after (reg_changes (abs_reg D (view s))))), quiet s') \<and> view s' = view s"
proof -
  let ?es = "stream_of (view s)"
  let ?s' = "snd (rcall D (XREAD 128 streamKey (dec after @ ''-0'')) s)"
  note l = reg_inv_log [OF inv]
  have pid: "parse_stream_id (dec after @ ''-0'') = Some (after, 0)" using k by simp
  have "fst (rcall D (XREAD 128 streamKey (dec after @ ''-0'')) s) =
      (case take 128 (drop after ?es) of [] \<Rightarrow> RNil
       | xs \<Rightarrow> REntries (map (\<lambda>e. (show_stream_id (fst e), snd e)) xs))"
  proof (cases "view s streamKey")
    case None
    then show ?thesis using xread_reply(1) [OF None pid] by (simp add: stream_of_def)
  next
    case (Some a)
    then have "view s streamKey = Some (RStream ?es, None)"
      using l by (auto simp: log_state_def)
    from xread_reply(2) [OF this pid, of 128] stream_after [OF l, of after] show ?thesis by simp
  qed
  then have "Store_Changes D after (quiet s) =
      (Inr (List.map_filter (change_of_entry D) (take 128 (drop after ?es))), quiet ?s')"
    by (cases "take 128 (drop after ?es)")
      (simp_all add: Store_Changes_def sem_simps List.map_filter_def change_of_entry_def comp_def
        filter_map o_def)
  moreover have "List.map_filter (change_of_entry D) (take 128 (drop after ?es)) =
      take 128 (drop after (reg_changes (abs_reg D (view s))))"
  proof -
    have "change_of_entry D e \<noteq> None" if "e \<in> set ?es" for e
      using entries_decode [OF inv that] by auto
    then show ?thesis
      by (subst map_filter_total, blast dest: in_set_takeD in_set_dropD)
        (simp add: abs_changes map_filter_total take_map drop_map)
  qed
  ultimately show ?thesis by (auto simp: xread_view)
qed

end

section \<open>The index never misses a live instance\<close>

lemma members_unindexed: "members (unindexed v svc ids) (serviceKey svc) = members v (serviceKey svc) - ids"
  by (auto simp: members_def unindexed_def split: option.splits rvalue.splits)

lemma members_cong: "v k = v' k \<Longrightarrow> members v k = members v' k"
  by (simp add: members_def)

lemma members_indexed:
  "members (indexed v svc ins) (serviceKey s) =
     (if s = svc then insert ins (members v (serviceKey svc)) else members v (serviceKey s))"
  "members (indexed v svc ins) servicesKey = insert svc (members v servicesKey)"
  by (simp_all add: members_def indexed_def key_simps)

lemma index_okI:
  "(\<And>svc ins. CHR '':'' \<notin> set svc \<Longrightarrow> v (instanceKey svc ins) \<noteq> None \<Longrightarrow>
      ins \<in> members v (serviceKey svc) \<and> svc \<in> members v servicesKey) \<Longrightarrow>
   (\<And>svc. svc \<in> members v servicesKey \<Longrightarrow> CHR '':'' \<notin> set svc) \<Longrightarrow> index_ok v"
  by (simp add: index_ok_def)

lemma index_okD:
  "index_ok v \<Longrightarrow> CHR '':'' \<notin> set svc \<Longrightarrow> v (instanceKey svc ins) \<noteq> None \<Longrightarrow>
     ins \<in> members v (serviceKey svc) \<and> svc \<in> members v servicesKey"
  by (simp add: index_ok_def)

lemma index_ok_names: "index_ok v \<Longrightarrow> svc \<in> members v servicesKey \<Longrightarrow> CHR '':'' \<notin> set svc"
  by (auto simp: index_ok_def)

lemma index_ok_published:
  assumes out: "publish_outcome w F r v" and w: "index_ok w"
  shows "index_ok v"
proof -
  have "v k = w k" if "k \<noteq> revisionKey" "k \<noteq> streamKey" for k
    using out that by (auto simp: publish_outcome_def published_def split: if_splits)
  then show ?thesis using w by (simp add: index_ok_def members_def key_simps)
qed

lemma index_ok_register:
  assumes "index_ok v" and "CHR '':'' \<notin> set svc"
  shows "index_ok (indexed (leased v svc ins p h ms) svc ins)"
proof (rule index_okI)
  fix s i
  assume s: "CHR '':'' \<notin> set s" and k: "indexed (leased v svc ins p h ms) svc ins (instanceKey s i) \<noteq> None"
  have m: "members (leased v svc ins p h ms) (serviceKey s) = members v (serviceKey s)"
      "members (leased v svc ins p h ms) servicesKey = members v servicesKey" for s
    by (simp_all add: members_def leased_other)
  have "s = svc \<and> i = ins \<or> v (instanceKey s i) \<noteq> None"
    using k assms(2) s by (auto simp: indexed_def leased_def key_simps instanceKey_inj)
  then show "i \<in> members (indexed (leased v svc ins p h ms) svc ins) (serviceKey s) \<and>
      s \<in> members (indexed (leased v svc ins p h ms) svc ins) servicesKey"
    using index_okD [OF assms(1) s, of i] by (auto simp: members_indexed m)
next
  fix s
  assume "s \<in> members (indexed (leased v svc ins p h ms) svc ins) servicesKey"
  moreover have "members (leased v svc ins p h ms) servicesKey = members v servicesKey"
    by (simp add: members_def leased_other)
  ultimately show "CHR '':'' \<notin> set s"
    using index_ok_names [OF assms(1)] assms(2) by (auto simp: members_indexed)
qed

lemma index_ok_update:
  assumes "index_ok v" and "v (instanceKey svc ins) \<noteq> None"
  shows "index_ok (leased v svc ins p h ms)"
proof (rule index_okI)
  fix s i
  assume s: "CHR '':'' \<notin> set s" and "leased v svc ins p h ms (instanceKey s i) \<noteq> None"
  then have "v (instanceKey s i) \<noteq> None" using assms(2) by (auto simp: leased_lease split: if_splits)
  from index_okD [OF assms(1) s this] show
    "i \<in> members (leased v svc ins p h ms) (serviceKey s) \<and> s \<in> members (leased v svc ins p h ms) servicesKey"
    by (simp add: members_def leased_other)
qed (use index_ok_names [OF assms(1)] in \<open>simp add: members_def leased_other\<close>)

lemma index_ok_unindexed:
  assumes "index_ok v" and "CHR '':'' \<notin> set svc \<Longrightarrow> \<forall>i \<in> ids. v (instanceKey svc i) = None"
  shows "index_ok (unindexed v svc ids)"
proof -
  have services: "members (unindexed v svc ids) servicesKey = members v servicesKey"
    by (rule members_cong) (simp add: unindexed_other key_simps)
  show ?thesis
proof (rule index_okI)
  fix s i
  assume s: "CHR '':'' \<notin> set s" and k: "unindexed v svc ids (instanceKey s i) \<noteq> None"
  then have k: "v (instanceKey s i) \<noteq> None" by (simp add: unindexed_other key_simps)
  have "i \<in> members (unindexed v svc ids) (serviceKey s)"
  proof (cases "s = svc")
    case True
    then have "i \<notin> ids" using assms(2) s k by auto
    with True index_okD [OF assms(1) s k] show ?thesis by (simp add: members_unindexed)
  next
    case False
    then have "members (unindexed v svc ids) (serviceKey s) = members v (serviceKey s)"
      by (intro members_cong) (simp add: unindexed_other key_simps)
    with index_okD [OF assms(1) s k] show ?thesis by simp
  qed
  then show "i \<in> members (unindexed v svc ids) (serviceKey s) \<and>
      s \<in> members (unindexed v svc ids) servicesKey"
    using index_okD [OF assms(1) s k] services by simp
qed (use index_ok_names [OF assms(1)] services in simp)
qed

lemma index_ok_delete:
  assumes "index_ok v"
  shows "index_ok (unindexed (v |` (- {instanceKey svc ins, tokenKey svc ins})) svc {ins})"
proof (rule index_ok_unindexed)
  show "index_ok (v |` (- {instanceKey svc ins, tokenKey svc ins}))"
    using assms
    by (auto simp: index_ok_def dropped_lease members_def dropped_other simp del: Compl_insert split: if_splits)
qed simp

lemma index_ok_expire:
  assumes "reg_inv D v" and "index_ok v"
  shows "index_ok (\<lambda>k. expire_by d (v k))"
proof (rule index_okI)
  fix s i
  assume s: "CHR '':'' \<notin> set s" "expire_by d (v (instanceKey s i)) \<noteq> None"
  then have "v (instanceKey s i) \<noteq> None" by (cases "v (instanceKey s i)") (auto simp: expire_by_def)
  from index_okD [OF assms(2) s(1) this] show
    "i \<in> members (\<lambda>k. expire_by d (v k)) (serviceKey s) \<and> s \<in> members (\<lambda>k. expire_by d (v k)) servicesKey"
    using reg_inv_persistent [OF assms(1)] by (simp add: members_def)
qed (use index_ok_names [OF assms(2)] reg_inv_persistent [OF assms(1)] in \<open>simp add: members_def\<close>)

text \<open>
  Without interference the store also keeps the index complete: what is removed from it is dead.
\<close>

definition sound :: "'s platform \<Rightarrow> keyspace \<Rightarrow> bool" where
  "sound D v \<longleftrightarrow> reg_inv D v \<and> index_ok v"

context registry_deps
begin

lemma register_index:
  assumes snd: "sound D (view s)" and i: "inst_ok i" and l: "int64 l"
  shows "index_ok (view (snd (register_script_for D i p t l s)))"
proof -
  let ?svc = "si_ServiceName i" and ?ins = "si_InstanceId i"
  have inv: "reg_inv D (view s)" "index_ok (view s)" using snd by (simp_all add: sound_def)
  have nc: "CHR '':'' \<notin> set ?svc" using i by (simp add: inst_ok_def)
  have b: "duration_Milliseconds l < 2 ^ 63" using int64_Milliseconds [OF l] by (simp add: int64_def)
  show ?thesis
  proof (cases "view s (instanceKey ?svc ?ins) = None")
    case True
    show ?thesis
      using register_bad_lease [OF True _ l, of p t] register_effect [OF inv(1) True _ b, of p t]
        index_ok_published index_ok_register [OF inv(2) nc] inv(2)
      by (cases "0 < duration_Milliseconds l") fastforce+
  qed (use register_rejects [of s i p t l] inv in auto)
qed

lemma update_index:
  assumes snd: "sound D (view s)" and l: "int64 l"
  shows "index_ok (view (snd (update_script_for D i p t l s)))"
proof -
  let ?svc = "si_ServiceName i" and ?ins = "si_InstanceId i"
  have inv: "reg_inv D (view s)" "index_ok (view s)" using snd by (simp_all add: sound_def)
  have b: "duration_Milliseconds l < 2 ^ 63" "- (2 ^ 63) \<le> duration_Milliseconds l"
    using int64_Milliseconds [OF l] by (simp_all add: int64_def)
  show ?thesis
  proof (rule lease_slot [OF inv(1), of ?svc ?ins])
    fix q h x
    assume k: "view s (instanceKey ?svc ?ins) = Some (RStr q, Some x)"
      "view s (tokenKey ?svc ?ins) = Some (RStr h, Some x)"
    show ?thesis
    proof (cases "h = hashToken D t")
      case True
      note tok = k(2) [unfolded True]
      show ?thesis
        using update_bad_lease [OF tok _ b(2), of p] update_effect [OF inv(1) tok _ b(1), of p]
          index_ok_published index_ok_update [OF inv(2), of ?svc ?ins] k(1) inv(2)
        by (cases "0 < duration_Milliseconds l") fastforce+
    next
      case False
      from update_rejects(2) [OF k(2) False, of p l] inv show ?thesis by auto
    qed
  qed (use update_rejects(1) [of s i p t l] inv in auto)
qed

lemma delete_index:
  assumes snd: "sound D (view s)"
  shows "index_ok (view (snd (delete_script_for D svc ins t s)))"
proof -
  have inv: "reg_inv D (view s)" "index_ok (view s)" using snd by (simp_all add: sound_def)
  show ?thesis
  proof (rule lease_slot [OF inv(1), of svc ins])
    fix q h x
    assume k: "view s (tokenKey svc ins) = Some (RStr h, Some x)"
    show ?thesis
    proof (cases "h = hashToken D t")
      case True
      show ?thesis
        by (rule index_ok_published [OF delete_effect [OF inv(1) k [unfolded True]]])
          (rule index_ok_delete [OF inv(2)])
    qed (use delete_rejects(2) [OF k] inv in fastforce)
  qed (use delete_rejects(1) [of s svc ins t] inv in auto)
qed

lemma list_sound:
  assumes "sound D v"
  shows "sound D (if dead D v svc ids = [] then v else unindexed v svc (set (dead D v svc ids)))"
proof -
  have "index_ok (unindexed v svc (set (dead D v svc ids)))"
    using assms lease_at_None [of D v svc]
    by (intro index_ok_unindexed) (auto simp: sound_def dead_def)
  then show ?thesis using assms reg_inv_unindexed by (auto simp: sound_def)
qed

end

end
