(* ===== verification/GoRegexp.thy ===== *)
theory GoRegexp
  imports Prelude
begin

text \<open>
  The anchored regular expressions of the service (\<open>regexp.MustCompile\<close>): character
  classes, concatenation, optional groups, bounded and unbounded repetition. Their meaning is
  the set of byte strings \<open>lang r\<close>; \<open>re_match\<close> decides it by derivatives. All patterns
  of the source are anchored with \<open>^\<close> and \<open>$\<close> (without the multi-line flag), so a match
  is a match of the whole string.
\<close>

datatype re =
    REmpty
  | REps
  | RCls "(char \<times> char) list"
  | RCat re re
  | RAlt re re
  | RUpto nat re
  | RStar re

definition in_ranges :: "(char \<times> char) list \<Rightarrow> char \<Rightarrow> bool" where
  "in_ranges rs c = list_ex (\<lambda>(lo, hi). lo \<le> c \<and> c \<le> hi) rs"

section \<open>Meaning\<close>

definition conc :: "string set \<Rightarrow> string set \<Rightarrow> string set" where
  "conc A B = {u @ v | u v. u \<in> A \<and> v \<in> B}"

primrec upto_lang :: "nat \<Rightarrow> string set \<Rightarrow> string set" where
  "upto_lang 0 A = {[]}"
| "upto_lang (Suc n) A = {[]} \<union> conc A (upto_lang n A)"

inductive_set star_lang :: "string set \<Rightarrow> string set" for A where
  star_Nil: "[] \<in> star_lang A"
| star_append: "u \<in> A \<Longrightarrow> v \<in> star_lang A \<Longrightarrow> u @ v \<in> star_lang A"

primrec lang :: "re \<Rightarrow> string set" where
  "lang REmpty = {}"
| "lang REps = {[]}"
| "lang (RCls rs) = {[c] | c. in_ranges rs c}"
| "lang (RCat r s) = conc (lang r) (lang s)"
| "lang (RAlt r s) = lang r \<union> lang s"
| "lang (RUpto n r) = upto_lang n (lang r)"
| "lang (RStar r) = star_lang (lang r)"

section \<open>The matcher\<close>

primrec nullable :: "re \<Rightarrow> bool" where
  "nullable REmpty = False"
| "nullable REps = True"
| "nullable (RCls rs) = False"
| "nullable (RCat r s) = (nullable r \<and> nullable s)"
| "nullable (RAlt r s) = (nullable r \<or> nullable s)"
| "nullable (RUpto n r) = True"
| "nullable (RStar r) = True"

primrec deriv :: "char \<Rightarrow> re \<Rightarrow> re" where
  "deriv c REmpty = REmpty"
| "deriv c REps = REmpty"
| "deriv c (RCls rs) = (if in_ranges rs c then REps else REmpty)"
| "deriv c (RCat r s) =
     (if nullable r then RAlt (RCat (deriv c r) s) (deriv c s) else RCat (deriv c r) s)"
| "deriv c (RAlt r s) = RAlt (deriv c r) (deriv c s)"
| "deriv c (RUpto n r) = (case n of 0 \<Rightarrow> REmpty | Suc m \<Rightarrow> RCat (deriv c r) (RUpto m r))"
| "deriv c (RStar r) = RCat (deriv c r) (RStar r)"

fun re_match :: "re \<Rightarrow> string \<Rightarrow> bool" where
  "re_match r [] = nullable r"
| "re_match r (c # cs) = re_match (deriv c r) cs"

section \<open>The matcher decides the meaning\<close>

lemma in_conc: "w \<in> conc A B \<longleftrightarrow> (\<exists>u v. w = u @ v \<and> u \<in> A \<and> v \<in> B)"
  by (auto simp: conc_def)

lemma Nil_in_conc [simp]: "[] \<in> conc A B \<longleftrightarrow> [] \<in> A \<and> [] \<in> B"
  by (auto simp: in_conc)

lemma Cons_in_conc:
  "c # w \<in> conc A B \<longleftrightarrow> (\<exists>u v. w = u @ v \<and> c # u \<in> A \<and> v \<in> B) \<or> ([] \<in> A \<and> c # w \<in> B)"
  by (auto simp: in_conc Cons_eq_append_conv append_eq_Cons_conv)

lemma nullable_iff: "nullable r \<longleftrightarrow> [] \<in> lang r"
proof (induction r)
  case (RUpto n r)
  then show ?case by (cases n) auto
qed (auto intro: star_Nil)

lemma conc_mono: "B \<subseteq> B' \<Longrightarrow> conc A B \<subseteq> conc A B'"
  by (auto simp: conc_def)

lemma upto_lang_mono: "upto_lang n A \<subseteq> upto_lang (Suc n) A"
proof (induction n)
  case (Suc n)
  from conc_mono [OF this, of A] show ?case by auto
qed simp

lemma Cons_in_upto:
  "c # w \<in> upto_lang (Suc n) A \<Longrightarrow> \<exists>u v. w = u @ v \<and> c # u \<in> A \<and> v \<in> upto_lang n A"
proof (induction n arbitrary: w)
  case 0
  then show ?case by (auto simp: Cons_in_conc)
next
  case (Suc n)
  then have "c # w \<in> conc A (upto_lang (Suc n) A)" by simp
  then consider u v where "w = u @ v" "c # u \<in> A" "v \<in> upto_lang (Suc n) A"
    | "c # w \<in> upto_lang (Suc n) A"
    unfolding Cons_in_conc by blast
  then show ?case
  proof cases
    case 2
    then show ?thesis using Suc.IH [of w] upto_lang_mono [of n A] by blast
  qed blast
qed

lemma Cons_in_star: "c # w \<in> star_lang A \<longleftrightarrow> (\<exists>u v. w = u @ v \<and> c # u \<in> A \<and> v \<in> star_lang A)"
proof
  have "x \<in> star_lang A \<Longrightarrow> x = c # w \<Longrightarrow> \<exists>u v. w = u @ v \<and> c # u \<in> A \<and> v \<in> star_lang A" for x
    by (induction arbitrary: w rule: star_lang.induct) (auto simp: append_eq_Cons_conv)
  then show "c # w \<in> star_lang A \<Longrightarrow> \<exists>u v. w = u @ v \<and> c # u \<in> A \<and> v \<in> star_lang A" by blast
next
  assume "\<exists>u v. w = u @ v \<and> c # u \<in> A \<and> v \<in> star_lang A"
  then show "c # w \<in> star_lang A" by (metis append_Cons star_append)
qed

lemma deriv_iff: "w \<in> lang (deriv c r) \<longleftrightarrow> c # w \<in> lang r"
proof (induction r arbitrary: w)
  case (RCat r s)
  then show ?case by (auto simp: Cons_in_conc in_conc [of w] nullable_iff)
next
  case (RUpto n r)
  show ?case
  proof (cases n)
    case (Suc m)
    have "c # w \<in> upto_lang (Suc m) (lang r) \<longleftrightarrow>
        (\<exists>u v. w = u @ v \<and> c # u \<in> lang r \<and> v \<in> upto_lang m (lang r))"
      using Cons_in_upto [of c w m "lang r"] by (auto simp: Cons_in_conc)
    then show ?thesis using Suc RUpto by (simp add: in_conc del: upto_lang.simps)
  qed simp
next
  case (RStar r)
  then show ?case by (auto simp: in_conc Cons_in_star)
qed auto

theorem re_match_iff: "re_match r s \<longleftrightarrow> s \<in> lang r"
  by (induction s arbitrary: r) (auto simp: nullable_iff deriv_iff)

section \<open>Repetitions of a character class\<close>

lemma conc_cls: "w \<in> conc {[c] | c. P c} B \<longleftrightarrow> (\<exists>c v. w = c # v \<and> P c \<and> v \<in> B)"
  by (cases w) (auto simp: Cons_in_conc)

lemma lang_upto_cls:
  "w \<in> lang (RUpto n (RCls rs)) \<longleftrightarrow> length w \<le> n \<and> list_all (in_ranges rs) w"
proof (induction n arbitrary: w)
  case 0
  then show ?case by auto
next
  case (Suc n)
  then show ?case by (cases w) (auto simp: conc_cls)
qed

lemma lang_star_cls: "w \<in> lang (RStar (RCls rs)) \<longleftrightarrow> list_all (in_ranges rs) w"
proof (induction w)
  case Nil
  then show ?case by (simp add: star_Nil)
next
  case (Cons c w)
  then show ?case by (auto simp: Cons_in_star)
qed

lemma lang_cls_cat:
  "w \<in> lang (RCat (RCls rs) r) \<longleftrightarrow> (\<exists>c v. w = c # v \<and> in_ranges rs c \<and> v \<in> lang r)"
  by (simp add: conc_cls)

lemma lang_cat_cls:
  "w \<in> lang (RCat r (RCls rs)) \<longleftrightarrow> (\<exists>v c. w = v @ [c] \<and> v \<in> lang r \<and> in_ranges rs c)"
  by (auto simp: in_conc)

end
