(* ===== verification/RegistryService.thy ===== *)
theory RegistryService
  imports RegistryReads GoRegexp
begin

text \<open>
  The registry service (\<open>internal/registry/service.go\<close>): validation, leases, registration,
  renewal, status changes, listing, filtering and paging. A method takes the code outside the
  repository (\<open>D\<close>), the values it reads from clocks and from the random source, and its
  request; it runs on the \<open>world\<close> of theory \<open>Redis\<close>.
\<close>

section \<open>Validation and leases\<close>

definition defaultLease :: duration where
  "defaultLease = 30 * time_Second"

definition lower_alnum :: "(char \<times> char) list" where
  "lower_alnum = [(CHR ''a'', CHR ''z''), (CHR ''0'', CHR ''9'')]"

text \<open>The pattern \<open>^[a-z0-9](?:[a-z0-9-]{0,61}[a-z0-9])?$\<close>.\<close>

definition namePattern :: re where
  "namePattern =
     RCat (RCls lower_alnum)
       (RAlt REps
          (RCat (RUpto 61 (RCls (lower_alnum @ [(CHR ''-'', CHR ''-'')]))) (RCls lower_alnum)))"

definition leaseDuration :: "nat \<Rightarrow> duration" where
  "leaseDuration seconds =
     (if seconds = 0 then defaultLease
      else let seconds = (if seconds < 5 then 5 else seconds);
               seconds = (if 300 < seconds then 300 else seconds)
           in int seconds * time_Second)"

definition err_names_required :: go_err where
  "err_names_required = ErrText ''service_name and instance_id are required''"

definition err_endpoint :: go_err where
  "err_endpoint = ErrText ''endpoint must use grpc, grpcs, http, or https''"

definition validateInstance :: "'s platform \<Rightarrow> ServiceInstance option \<Rightarrow> go_err option" where
  "validateInstance D inst =
     (case inst of
        None \<Rightarrow> Some err_names_required
      | Some i \<Rightarrow>
          if \<not> re_match namePattern (si_ServiceName i) \<or> si_InstanceId i = ''''
          then Some err_names_required
          else (case url_Parse D (si_Endpoint i) of
                  None \<Rightarrow> Some err_endpoint
                | Some parsed \<Rightarrow>
                    if url_Host parsed = '''' \<or>
                       (url_Scheme parsed \<noteq> ''grpc'' \<and> url_Scheme parsed \<noteq> ''grpcs'' \<and>
                        url_Scheme parsed \<noteq> ''http'' \<and> url_Scheme parsed \<noteq> ''https'')
                    then Some err_endpoint
                    else None))"

section \<open>Registration, renewal, removal, status\<close>

text \<open>\<open>rnd\<close> is what \<open>rand.Read\<close> of 32 bytes gives, \<open>now\<close> the clock \<open>s.now()\<close>.\<close>

definition Service_Register ::
  "'s platform \<Rightarrow> string + string \<Rightarrow> instant \<Rightarrow> RegisterInstanceRequest \<Rightarrow>
     (go_err, 's world, RegisterInstanceResponse) sem" where
  "Service_Register D rnd now request =
     (case validateInstance D (rir_Instance request) of
        Some err \<Rightarrow> raiseE err
      | None \<Rightarrow>
          let lease = leaseDuration (rir_LeaseSeconds request);
              instance = prepareInstance (the (rir_Instance request)) lease now
          in case rnd of
               Inl err \<Rightarrow> raiseE (ErrText err)
             | Inr tokenBytes \<Rightarrow>
                 let token = base64_RawURL_EncodeToString tokenBytes in
                 bindE (Store_Register D instance token lease) (\<lambda>revision.
                 returnE \<lparr>ris_Instance = instance, ris_LeaseToken = token, ris_Revision = revision\<rparr>))"

definition Service_Renew ::
  "'s platform \<Rightarrow> instant \<Rightarrow> RenewLeaseRequest \<Rightarrow> (go_err, 's world, InstanceResponse) sem" where
  "Service_Renew D now request =
     bindE (Store_Get D (rlr_ServiceName request) (rlr_InstanceId request)) (\<lambda>instance.
     let lease = leaseDuration (rlr_LeaseSeconds request);
         instance = instance\<lparr>si_UpdatedAt := Some (timestamppb_New now),
                             si_LeaseExpiresAt := Some (timestamppb_New (now + lease))\<rparr>
     in bindE (Store_Update D instance (rlr_LeaseToken request) lease) (\<lambda>revision.
        returnE \<lparr>ir_Instance = instance, ir_Revision = revision\<rparr>))"

definition Service_Deregister ::
  "'s platform \<Rightarrow> DeregisterInstanceRequest \<Rightarrow> (go_err, 's world, nat) sem" where
  "Service_Deregister D request =
     Store_Deregister D (dir_ServiceName request) (dir_InstanceId request) (dir_LeaseToken request)"

text \<open>\<open>wall\<close> is the clock of \<open>time.Until\<close>, \<open>now\<close> the one of the service.\<close>

definition Service_SetStatus ::
  "'s platform \<Rightarrow> instant \<Rightarrow> instant \<Rightarrow> SetInstanceStatusRequest \<Rightarrow>
     (go_err, 's world, InstanceResponse) sem" where
  "Service_SetStatus D wall now request =
     (if ssr_Status request \<noteq> STATUS_HEALTHY \<and> ssr_Status request \<noteq> STATUS_DRAINING
      then raiseE (ErrText ''status must be healthy or draining'')
      else bindE (Store_Get D (ssr_ServiceName request) (ssr_InstanceId request)) (\<lambda>instance.
        let remaining = time_Sub (AsTime (si_LeaseExpiresAt instance)) wall in
        if remaining \<le> 0 then raiseE ErrNotFound
        else let instance = instance\<lparr>si_Status := ssr_Status request,
                                     si_UpdatedAt := Some (timestamppb_New now)\<rparr>
             in bindE (Store_Update D instance (ssr_LeaseToken request) remaining) (\<lambda>revision.
                returnE \<lparr>ir_Instance = instance, ir_Revision = revision\<rparr>)))"

section \<open>Filtering and paging\<close>

text \<open>Indexing a Go map with a missing key gives the empty string.\<close>

definition map_index :: "(string, string) fmap \<Rightarrow> string \<Rightarrow> string" where
  "map_index m k = (case fmlookup m k of None \<Rightarrow> '''' | Some v \<Rightarrow> v)"

text \<open>The loop over the selector, in the order of the keys; the result does not depend on it.\<close>

definition selector_matches :: "(string, string) fmap \<Rightarrow> (string, string) fmap \<Rightarrow> bool" where
  "selector_matches selector metadata =
     list_all (\<lambda>(key, expected). map_index metadata key = expected) (sorted_list_of_fmap selector)"

definition matches :: "ServiceInstance \<Rightarrow> (string, string) fmap \<Rightarrow> bool \<Rightarrow> bool" where
  "matches v selector includeDraining =
     (if si_Status v = STATUS_DRAINING \<and> \<not> includeDraining then False
      else if si_Status v \<noteq> STATUS_HEALTHY \<and> si_Status v \<noteq> STATUS_DRAINING then False
      else selector_matches selector (si_Metadata v))"

text \<open>Go's \<open>int\<close> arithmetic on page numbers, wrapping at 64 bits; \<open>None\<close> is a panic.\<close>

definition pageValues :: "'a list \<Rightarrow> int \<Rightarrow> int \<Rightarrow> 'a list option" where
  "pageValues values page pageSize =
     (if page \<le> 0 \<or> pageSize \<le> 0 then Some values
      else
        let offsetPages = wrap64 (page - 1) in
        if go_quot (int (length values)) pageSize < offsetPages then Some []
        else
          let start = wrap64 (offsetPages * pageSize) in
          if int (length values) \<le> start then Some []
          else
            let stop = min (wrap64 (start + pageSize)) (int (length values)) in
            go_slice values start stop)"

definition page_or_panic :: "'a list \<Rightarrow> int \<Rightarrow> int \<Rightarrow> (go_err, 's world, 'a list) sem" where
  "page_or_panic values page pageSize =
     (case pageValues values page pageSize of
        Some xs \<Rightarrow> returnE xs
      | None \<Rightarrow> raiseE (ErrText ''runtime error: slice bounds out of range''))"

section \<open>Listing\<close>

fun collect_instances ::
  "'s platform \<Rightarrow> string list \<Rightarrow> ServiceInstance list \<Rightarrow> nat \<Rightarrow>
     (go_err, 's world, ServiceInstance list \<times> nat) sem" where
  "collect_instances D [] values revision = returnE (values, revision)"
| "collect_instances D (serviceName # names) values revision =
     bindE (Store_List D serviceName) (\<lambda>(instances, currentRevision).
     collect_instances D names (values @ instances)
       (if revision < currentRevision then currentRevision else revision))"

definition Service_list ::
  "'s platform \<Rightarrow> ListInstancesRequest \<Rightarrow> int \<Rightarrow> int \<Rightarrow>
     (go_err, 's world, ListInstancesResponse \<times> nat) sem" where
  "Service_list D request page pageSize =
     (if lir_ServiceName request = '''' \<and> lir_Selector request = fmempty
      then raiseE (ErrText ''service_name or metadata selector is required'')
      else if lir_ServiceName request \<noteq> '''' \<and> \<not> re_match namePattern (lir_ServiceName request)
      then raiseE (ErrText ''invalid service name'')
      else
        bindE (if lir_ServiceName request = '''' then Store_Services D
               else returnE ([lir_ServiceName request], 0)) (\<lambda>(serviceNames, revision).
        bindE (collect_instances D serviceNames [] revision) (\<lambda>(values, revision).
        let filtered = filter (\<lambda>v. matches v (lir_Selector request) (lir_IncludeDraining request)) values;
            filtered = sort_instances D (\<lambda>a b. si_InstanceId a < si_InstanceId b) filtered;
            total = length filtered
        in bindE (page_or_panic filtered page pageSize) (\<lambda>filtered.
           returnE (\<lparr>lis_Instances = filtered, lis_Revision = revision\<rparr>, total)))))"

definition Service_ListPage ::
  "'s platform \<Rightarrow> ListInstancesRequest \<Rightarrow> int \<Rightarrow> int \<Rightarrow>
     (go_err, 's world, ListInstancesResponse \<times> nat) sem" where
  "Service_ListPage D request page pageSize = Service_list D request page pageSize"

definition Service_List ::
  "'s platform \<Rightarrow> ListInstancesRequest \<Rightarrow> (go_err, 's world, ListInstancesResponse) sem" where
  "Service_List D request =
     bindE (Service_list D request 0 0) (\<lambda>(response, _). returnE response)"

definition Service_Get ::
  "'s platform \<Rightarrow> string \<Rightarrow> string \<Rightarrow> (go_err, 's world, ServiceInstance) sem" where
  "Service_Get D serviceName instanceID =
     (if \<not> re_match namePattern serviceName \<or> instanceID = '''' then raiseE err_names_required
      else Store_Get D serviceName instanceID)"

text \<open>The counters of a summary are \<open>uint32\<close>.\<close>

definition count_status :: "ServiceSummary \<Rightarrow> ServiceInstance \<Rightarrow> ServiceSummary" where
  "count_status summary instance =
     (case si_Status instance of
        STATUS_HEALTHY \<Rightarrow> summary\<lparr>ss_HealthyInstances := (ss_HealthyInstances summary + 1) mod 2 ^ 32\<rparr>
      | STATUS_DRAINING \<Rightarrow> summary\<lparr>ss_DrainingInstances := (ss_DrainingInstances summary + 1) mod 2 ^ 32\<rparr>
      | _ \<Rightarrow> summary)"

definition summarise :: "string \<Rightarrow> ServiceInstance list \<Rightarrow> ServiceSummary" where
  "summarise name instances =
     fold (\<lambda>i summary. count_status summary i) instances
       \<lparr>ss_ServiceName = name, ss_HealthyInstances = 0, ss_DrainingInstances = 0\<rparr>"

fun collect_summaries ::
  "'s platform \<Rightarrow> string \<Rightarrow> string list \<Rightarrow> ServiceSummary list \<Rightarrow>
     (go_err, 's world, ServiceSummary list) sem" where
  "collect_summaries D pre [] services = returnE services"
| "collect_summaries D pre (name # names) services =
     (if pre \<noteq> '''' \<and> \<not> strings_HasPrefix name pre then collect_summaries D pre names services
      else bindE (Store_List D name) (\<lambda>(instances, _).
        let summary = summarise name instances in
        collect_summaries D pre names
          (if 0 < (ss_HealthyInstances summary + ss_DrainingInstances summary) mod 2 ^ 32
           then services @ [summary] else services)))"

definition Service_listServices ::
  "'s platform \<Rightarrow> string \<Rightarrow> int \<Rightarrow> int \<Rightarrow> (go_err, 's world, ListServicesResponse \<times> nat) sem" where
  "Service_listServices D pre page pageSize =
     bindE (Store_Services D) (\<lambda>(names, revision).
     bindE (collect_summaries D pre names []) (\<lambda>services.
     let services = sort_summaries D (\<lambda>a b. ss_ServiceName a < ss_ServiceName b) services;
         total = length services
     in bindE (page_or_panic services page pageSize) (\<lambda>services.
        returnE (\<lparr>lss_Services = services, lss_Revision = revision\<rparr>, total))))"

definition Service_ListServicesPage ::
  "'s platform \<Rightarrow> string \<Rightarrow> int \<Rightarrow> int \<Rightarrow> (go_err, 's world, ListServicesResponse \<times> nat) sem" where
  "Service_ListServicesPage D pre page pageSize = Service_listServices D pre page pageSize"

definition Service_ListServices ::
  "'s platform \<Rightarrow> string \<Rightarrow> (go_err, 's world, ListServicesResponse) sem" where
  "Service_ListServices D pre =
     bindE (Service_listServices D pre 0 0) (\<lambda>(response, _). returnE response)"

section \<open>Names and leases\<close>

lemma namePattern_iff:
  "re_match namePattern s \<longleftrightarrow>
     1 \<le> length s \<and> length s \<le> 63 \<and>
     list_all (in_ranges (lower_alnum @ [(CHR ''-'', CHR ''-'')])) s \<and>
     hd s \<noteq> CHR ''-'' \<and> last s \<noteq> CHR ''-''"
proof -
  have alnum: "in_ranges lower_alnum c \<longleftrightarrow>
      in_ranges (lower_alnum @ [(CHR ''-'', CHR ''-'')]) c \<and> c \<noteq> CHR ''-''" for c
    by (auto simp: in_ranges_def lower_alnum_def)
  have "re_match namePattern s \<longleftrightarrow>
      (\<exists>c v. s = c # v \<and> in_ranges lower_alnum c \<and>
        (v = [] \<or> (\<exists>u d. v = u @ [d] \<and> length u \<le> 61 \<and>
           list_all (in_ranges (lower_alnum @ [(CHR ''-'', CHR ''-'')])) u \<and> in_ranges lower_alnum d)))"
    by (simp only: namePattern_def re_match_iff lang_cls_cat lang.simps(2,5) Un_iff singleton_iff
        lang_cat_cls lang_upto_cls conj_assoc)
  also have "\<dots> \<longleftrightarrow> 1 \<le> length s \<and> length s \<le> 63 \<and>
     list_all (in_ranges (lower_alnum @ [(CHR ''-'', CHR ''-'')])) s \<and>
     hd s \<noteq> CHR ''-'' \<and> last s \<noteq> CHR ''-''" (is "?L \<longleftrightarrow> ?R")
  proof
    assume ?L
    then show ?R by (auto simp: alnum)
  next
    assume R: ?R
    then obtain c v where s: "s = c # v" by (cases s) auto
    show ?L
    proof (cases v rule: rev_cases)
      case Nil
      with R s show ?thesis by (simp add: alnum)
    next
      case (snoc u d)
      with R s show ?thesis by (intro exI [of _ c] exI [of _ v]) (auto simp: alnum)
    qed
  qed
  finally show ?thesis .
qed

lemma namePattern_no_colon: "re_match namePattern s \<Longrightarrow> CHR '':'' \<notin> set s"
  by (auto simp: namePattern_iff list_all_iff in_ranges_def lower_alnum_def)

lemma namePattern_utf8: "re_match namePattern s \<Longrightarrow> utf8_ValidString s"
  by (rule utf8_ascii)
    (auto simp: namePattern_iff list_all_iff in_ranges_def lower_alnum_def less_eq_char_def byte_def)

lemma leaseDuration_bounds:
  "5 * time_Second \<le> leaseDuration n" "leaseDuration n \<le> 300 * time_Second"
  by (simp_all add: leaseDuration_def defaultLease_def time_Second_def Let_def)

lemma leaseDuration_ms: "int64 (leaseDuration n)" "0 < duration_Milliseconds (leaseDuration n)"
proof -
  note b = leaseDuration_bounds [of n]
  then show "int64 (leaseDuration n)" by (simp add: int64_def time_Second_def)
  have "0 \<le> leaseDuration n" using b by (simp add: time_Second_def)
  then have "duration_Milliseconds (leaseDuration n) = leaseDuration n div 1000000"
    by (simp add: duration_Milliseconds_def go_quot_nonneg time_Millisecond_def)
  then show "0 < duration_Milliseconds (leaseDuration n)"
    using b by (simp add: time_Second_def pos_imp_zdiv_pos_iff)
qed

end
