(* ===== verification/RegistryOwnership.thy ===== *)
theory RegistryOwnership
  imports RegistryReads
begin

text \<open>
  Who can change a lease. A run of the registry is a sequence of atomic steps of clients that
  know the tokens \<open>T\<close>, interleaved with the passing of time. As long as none of these tokens
  hashes to the owner of a lease, the run cannot renew, change or remove it: the lease only runs
  out with the time that passes.
\<close>

inductive timed_run :: "'s platform \<Rightarrow> (nat \<Rightarrow> 's \<Rightarrow> 's) \<Rightarrow> string set \<Rightarrow> nat \<Rightarrow> 's \<Rightarrow> 's \<Rightarrow> bool"
  for D :: "'s platform" and advance :: "nat \<Rightarrow> 's \<Rightarrow> 's" and T :: "string set" where
  run_start: "timed_run D advance T 0 s s"
| run_client: "timed_run D advance T d s s' \<Longrightarrow> client_step D T s' s'' \<Longrightarrow> timed_run D advance T d s s''"
| run_tick: "timed_run D advance T d s s' \<Longrightarrow> timed_run D advance T (d + k) s (advance k s')"

lemma lease_at_cong:
  "v (instanceKey svc ins) = v' (instanceKey svc ins) \<Longrightarrow> v (tokenKey svc ins) = v' (tokenKey svc ins) \<Longrightarrow>
     lease_at D v svc ins = lease_at D v' svc ins"
  by (simp add: lease_at_def)

lemma lease_at_published:
  assumes "publish_outcome w F r v"
  shows "lease_at D v svc ins = lease_at D w svc ins"
proof (rule lease_at_cong)
  have "v k = w k" if "k \<noteq> revisionKey" "k \<noteq> streamKey" for k
    using assms that by (auto simp: publish_outcome_def published_def split: if_splits)
  then show "v (instanceKey svc ins) = w (instanceKey svc ins)" "v (tokenKey svc ins) = w (tokenKey svc ins)"
    by (simp_all add: key_simps)
qed

lemma lease_at_indexed: "lease_at D (indexed v s i) svc ins = lease_at D v svc ins"
  by (rule lease_at_cong) (simp_all add: indexed_def key_simps)

lemma lease_at_unindexed: "lease_at D (unindexed v s ids) svc ins = lease_at D v svc ins"
  by (rule lease_at_cong) (simp_all add: unindexed_other key_simps)

lemma lease_at_leased:
  "instanceKey svc ins \<noteq> instanceKey s i \<Longrightarrow> lease_at D (leased v s i p h ms) svc ins = lease_at D v svc ins"
  by (rule lease_at_cong) (simp_all add: leased_lease)

lemma lease_at_dropped:
  "instanceKey svc ins \<noteq> instanceKey s i \<Longrightarrow>
     lease_at D (v |` (- {instanceKey s i, tokenKey s i})) svc ins = lease_at D v svc ins"
  by (rule lease_at_cong) (simp_all add: dropped_lease del: Compl_insert)

lemma lease_at_key: "instanceKey s i = instanceKey svc ins \<Longrightarrow> lease_at D v s i = lease_at D v svc ins"
  using tokenKey_eq_iff [of s i svc ins] by (simp add: lease_at_def)

lemma lease_at_view:
  assumes "reg_inv D v" and "lease_at D v svc ins = Some l" and "instanceKey s i = instanceKey svc ins"
  shows "v (instanceKey s i) \<noteq> None" "\<exists>x. v (tokenKey s i) = Some (RStr (ls_Owner l), x)"
proof -
  have "lease_at D v s i = Some l" using assms(2,3) lease_at_key by metis
  then show "v (instanceKey s i) \<noteq> None" "\<exists>x. v (tokenKey s i) = Some (RStr (ls_Owner l), x)"
    by (rule_tac [!] lease_cases [OF assms(1), of s i]) auto
qed

context registry_deps
begin

lemma register_keeps_lease:
  assumes inv: "reg_inv D (view s)" and at: "lease_at D (view s) svc ins = Some x" and l: "int64 l"
  shows "lease_at D (view (snd (register_script_for D i p t l s))) svc ins = Some x"
proof -
  let ?k = "instanceKey (si_ServiceName i) (si_InstanceId i)"
  consider "view s ?k \<noteq> None" | "view s ?k = None" "duration_Milliseconds l \<le> 0"
    | "view s ?k = None" "0 < duration_Milliseconds l" by fastforce
  then show ?thesis
  proof cases
    case 1
    from register_rejects [OF this, of p t l] at show ?thesis by auto
  next
    case 2
    from register_bad_lease [OF this l, of p t] at show ?thesis by auto
  next
    case 3
    have b: "duration_Milliseconds l < 2 ^ 63" using int64_Milliseconds [OF l] by (simp add: int64_def)
    have "instanceKey svc ins \<noteq> ?k" using lease_at_view(1) [OF inv at refl] 3(1) by auto
    then show ?thesis
      using at by (simp add: lease_at_published [OF register_effect [OF inv 3 b]] lease_at_indexed lease_at_leased)
  qed
qed

lemma update_keeps_lease:
  assumes inv: "reg_inv D (view s)" and at: "lease_at D (view s) svc ins = Some x" and l: "int64 l"
    and own: "hashToken D t \<noteq> ls_Owner x"
  shows "lease_at D (view (snd (update_script_for D i p t l s))) svc ins = Some x"
proof (rule lease_slot [OF inv, of "si_ServiceName i" "si_InstanceId i"])
  let ?s = "si_ServiceName i" and ?i = "si_InstanceId i"
  assume "view s (tokenKey ?s ?i) = None"
  from update_rejects(1) [OF this, of p t l] at show ?thesis by auto
next
  let ?s = "si_ServiceName i" and ?i = "si_InstanceId i"
  fix h y
  assume tok: "view s (tokenKey ?s ?i) = Some (RStr h, Some y)"
  have b: "duration_Milliseconds l < 2 ^ 63" "- (2 ^ 63) \<le> duration_Milliseconds l"
    using int64_Milliseconds [OF l] by (simp_all add: int64_def)
  consider "h \<noteq> hashToken D t" | "h = hashToken D t" "duration_Milliseconds l \<le> 0"
    | "h = hashToken D t" "0 < duration_Milliseconds l" by fastforce
  then show ?thesis
  proof cases
    case 1
    from update_rejects(2) [OF tok this, of p l] at show ?thesis by auto
  next
    case 2
    from update_bad_lease [OF tok [unfolded 2(1)] 2(2) b(2), of p] at show ?thesis by auto
  next
    case 3
    have "instanceKey svc ins \<noteq> instanceKey ?s ?i"
      using lease_at_view(2) [OF inv at, of ?s ?i] tok own 3(1) by auto
    then show ?thesis
      using at by (simp add: lease_at_published [OF update_effect [OF inv tok [unfolded 3(1)] 3(2) b(1)]] lease_at_leased)
  qed
qed

lemma delete_keeps_lease:
  assumes inv: "reg_inv D (view s)" and at: "lease_at D (view s) svc ins = Some x"
    and own: "hashToken D t \<noteq> ls_Owner x"
  shows "lease_at D (view (snd (delete_script_for D s' i t s))) svc ins = Some x"
proof (rule lease_slot [OF inv, of s' i])
  assume "view s (tokenKey s' i) = None"
  from delete_rejects(1) [OF this, of t] at show ?thesis by auto
next
  fix h y
  assume tok: "view s (tokenKey s' i) = Some (RStr h, Some y)"
  show ?thesis
  proof (cases "h = hashToken D t")
    case False
    from delete_rejects(2) [OF tok this] at show ?thesis by auto
  next
    case True
    have ne: "instanceKey svc ins \<noteq> instanceKey s' i"
      using lease_at_view(2) [OF inv at, of s' i] tok own True by auto
    show ?thesis
      using at
      by (simp only: lease_at_published [OF delete_effect [OF inv tok [unfolded True]]] lease_at_unindexed
          lease_at_dropped [OF ne])
  qed
qed

lemma client_keeps_lease:
  assumes "client_step D T s s'" and inv: "reg_inv D (view s)"
    and at: "lease_at D (view s) svc ins = Some x" and own: "ls_Owner x \<notin> hashToken D ` T"
  shows "lease_at D (view s') svc ins = Some x"
  using assms(1)
proof cases
  case (client_register i p l t)
  then show ?thesis using register_keeps_lease [OF inv at] by simp
next
  case (client_update i p l t)
  then have "hashToken D t \<noteq> ls_Owner x" using own imageI [of t T "hashToken D"] by metis
  with client_update show ?thesis using update_keeps_lease [OF inv at, of l t i p] by simp
next
  case (client_delete t s' i)
  then have "hashToken D t \<noteq> ls_Owner x" using own imageI [of t T "hashToken D"] by metis
  with client_delete show ?thesis using delete_keeps_lease [OF inv at, of t s' i] by simp
next
  case (client_cleanup svc' ids)
  then show ?thesis
    using at srem_slot(2) [OF reg_inv_slots(1) [OF inv], of svc' ids] by (simp add: lease_at_unindexed)
qed (use at in \<open>simp_all add: get_view smembers_view xread_view\<close>)

lemma advance_keeps_lease:
  assumes inv: "reg_inv D (view s)" and at: "lease_at D (view s) svc ins = Some x" and d: "int d < ls_Millis x"
  shows "lease_at D (view (advance d s)) svc ins = Some (x\<lparr>ls_Millis := ls_Millis x - int d\<rparr>)"
  using at d
  by (rule_tac lease_cases [OF inv, of svc ins]) (simp, auto simp: lease_at_def view_advance expire_by_def)

lemma run_keeps_lease:
  assumes "timed_run D advance T d s s'" and "reg_inv D (view s)"
    and "lease_at D (view s) svc ins = Some x" and own: "ls_Owner x \<notin> hashToken D ` T" and "int d < ls_Millis x"
  shows "reg_inv D (view s') \<and> lease_at D (view s') svc ins = Some (x\<lparr>ls_Millis := ls_Millis x - int d\<rparr>)"
  using assms(1-3,5)
proof (induction rule: timed_run.induct)
  case (run_client d s s' s'')
  then have IH: "reg_inv D (view s')" "lease_at D (view s') svc ins = Some (x\<lparr>ls_Millis := ls_Millis x - int d\<rparr>)"
    by auto
  then show ?case
    using client_keeps_lease [OF run_client(2) IH] reg_inv_client [OF run_client(2) IH(1)] own by simp
next
  case (run_tick d s s' k)
  then have IH: "reg_inv D (view s')" "lease_at D (view s') svc ins = Some (x\<lparr>ls_Millis := ls_Millis x - int d\<rparr>)"
    by auto
  then show ?case
    using advance_keeps_lease [OF IH, of k] reg_inv_step [OF step_tick IH(1)] run_tick.prems(3) by auto
qed simp

end

end
