(* ===== verification/RegistryBehaviour.thy ===== *)
theory RegistryBehaviour
  imports RegistryService RegistryOwnership
begin

text \<open>
  What the methods of the service do, in terms of the abstract registry: registration, renewal,
  removal and status changes refine its operations; listing returns exactly the live instances
  that match; paging cuts a list into consecutive pieces. Every method keeps the invariant, also
  under interference.
\<close>

section \<open>The store keeps the invariant and the index\<close>

lemma run_mapped_state: "run_mapped f (quiet s) = (r, quiet s') \<Longrightarrow> s' = snd (f s)"
  by (auto simp: run_mapped_apply split: prod.splits sum.splits)

context registry_deps
begin

lemma Store_Register_sound:
  assumes "Store_Register D i t l (quiet s) = (r, quiet s')" and snd: "sound D (view s)"
    and i: "inst_ok i" and l: "int64 l"
  shows "sound D (view s')"
proof (cases "json_Marshal D i")
  case (Inl e)
  with assms(1) snd show ?thesis by (simp add: Store_Register_def raiseE_apply)
next
  case (Inr p)
  with assms(1) have "s' = snd (register_script_for D i p t l s)"
    by (simp add: Store_Register_def run_mapped_state)
  then show ?thesis
    using register_step [OF _ i Inr l] register_index [OF snd i l] snd by (simp add: sound_def)
qed

lemma Store_Update_sound:
  assumes "Store_Update D i t l (quiet s) = (r, quiet s')" and snd: "sound D (view s)"
    and i: "inst_ok i" and l: "int64 l"
  shows "sound D (view s')"
proof (cases "json_Marshal D i")
  case (Inl e)
  with assms(1) snd show ?thesis by (simp add: Store_Update_def raiseE_apply)
next
  case (Inr p)
  with assms(1) have "s' = snd (update_script_for D i p t l s)"
    by (simp add: Store_Update_def run_mapped_state)
  then show ?thesis
    using update_step [OF _ i Inr l] update_index [OF snd l] snd by (simp add: sound_def)
qed

lemma Store_Deregister_sound:
  assumes "Store_Deregister D svc ins t (quiet s) = (r, quiet s')" and snd: "sound D (view s)"
  shows "sound D (view s')"
proof -
  have "s' = snd (delete_script_for D svc ins t s)"
    using assms(1) by (simp add: Store_Deregister_def run_mapped_state)
  then show ?thesis using delete_step delete_index [OF snd] snd by (simp add: sound_def)
qed

lemma advance_sound: "sound D (view s) \<Longrightarrow> sound D (view (advance d s))"
  using reg_inv_step [OF step_tick] index_ok_expire by (auto simp: sound_def view_advance)

end

section \<open>Registration\<close>

lemma validateInstance_None:
  "validateInstance D (Some i) = None \<longleftrightarrow>
     re_match namePattern (si_ServiceName i) \<and> si_InstanceId i \<noteq> [] \<and>
     (\<exists>u. url_Parse D (si_Endpoint i) = Some u \<and> url_Host u \<noteq> [] \<and>
        url_Scheme u \<in> {''grpc'', ''grpcs'', ''http'', ''https''})"
  by (auto simp: validateInstance_def err_names_required_def err_endpoint_def split: option.splits)

lemma inst_ok_prepared:
  "validateInstance D (Some i) = None \<Longrightarrow> inst_utf8 i \<Longrightarrow> inst_ok (prepareInstance i l now)"
  by (simp add: inst_ok_def validateInstance_None namePattern_no_colon)

text \<open>What registration adds to the table: the instance as prepared, owned by the new token.\<close>

definition new_instance :: "RegisterInstanceRequest \<Rightarrow> instant \<Rightarrow> ServiceInstance" where
  "new_instance request now =
     prepareInstance (the (rir_Instance request)) (leaseDuration (rir_LeaseSeconds request)) now"

definition lease_millis :: "nat \<Rightarrow> int" where
  "lease_millis seconds = duration_Milliseconds (leaseDuration seconds)"

lemma lease_millis_cases:
  "lease_millis n = (if n = 0 then 30000 else if n < 5 then 5000 else if 300 < n then 300000 else int n * 1000)"
proof -
  have "0 \<le> leaseDuration n" using leaseDuration_bounds(1) [of n] by (simp add: time_Second_def)
  then have "lease_millis n = leaseDuration n div 1000000"
    by (simp add: lease_millis_def duration_Milliseconds_def go_quot_nonneg time_Millisecond_def)
  then show ?thesis
    by (auto simp: leaseDuration_def defaultLease_def time_Second_def Let_def)
qed

lemma lease_millis_clamped:
  "lease_millis n = (if n = 0 then 30000 else 1000 * max 5 (min 300 (int n)))"
  by (simp add: lease_millis_cases)

context registry_deps
begin

lemma Service_Register_refines:
  fixes now bytes
  assumes snd: "sound D (view s)" and room: "revision_of (view s) < max_published"
    and req: "rir_Instance request = Some i" "validateInstance D (Some i) = None" "inst_utf8 i"
  defines "x \<equiv> new_instance request now" and "tok \<equiv> base64_RawURL_EncodeToString bytes"
  defines "out \<equiv> spec_register x (hashToken D tok) (lease_millis (rir_LeaseSeconds request)) (abs_reg D (view s))"
  shows "\<exists>s'. Service_Register D (Inr bytes) now request (quiet s) =
      (map_sum id (\<lambda>n. \<lparr>ris_Instance = x, ris_LeaseToken = tok, ris_Revision = n\<rparr>) (fst out), quiet s') \<and>
    abs_reg D (view s') = snd out \<and> sound D (view s')"
proof -
  let ?l = "leaseDuration (rir_LeaseSeconds request)"
  have x: "x = prepareInstance i ?l now" "inst_ok x"
    using req inst_ok_prepared by (simp_all add: x_def new_instance_def)
  have inv: "reg_inv D (view s)" using snd by (simp add: sound_def)
  obtain s' where s': "Store_Register D x tok ?l (quiet s) = (fst out, quiet s')" "abs_reg D (view s') = snd out"
    using Store_Register_refines [OF inv x(2) leaseDuration_ms room, of tok]
    by (auto simp: out_def lease_millis_def)
  have "Service_Register D (Inr bytes) now request (quiet s) =
      (map_sum id (\<lambda>n. \<lparr>ris_Instance = x, ris_LeaseToken = tok, ris_Revision = n\<rparr>) (fst out), quiet s')"
    using s'(1) req x(1) tok_def
    by (cases "fst out") (simp_all add: Service_Register_def Let_def bindE_apply returnE_apply)
  then show ?thesis
    using s' Store_Register_sound [OF s'(1) snd x(2) leaseDuration_ms(1)] by blast
qed

end

section \<open>Renewal, status, removal\<close>

definition renewed :: "instant \<Rightarrow> nat \<Rightarrow> ServiceInstance \<Rightarrow> ServiceInstance" where
  "renewed now seconds i =
     i\<lparr>si_UpdatedAt := Some (timestamppb_New now),
       si_LeaseExpiresAt := Some (timestamppb_New (now + leaseDuration seconds))\<rparr>"

definition with_status :: "instant \<Rightarrow> InstanceStatus \<Rightarrow> ServiceInstance \<Rightarrow> ServiceInstance" where
  "with_status now st i = i\<lparr>si_Status := st, si_UpdatedAt := Some (timestamppb_New now)\<rparr>"

lemma inst_ok_renewed [simp]: "inst_ok (renewed now n i) = inst_ok i" "inst_ok (with_status now st i) = inst_ok i"
  by (simp_all add: inst_ok_def inst_utf8_def renewed_def with_status_def)

lemma renewed_names [simp]:
  "si_ServiceName (renewed now n i) = si_ServiceName i" "si_InstanceId (renewed now n i) = si_InstanceId i"
  "si_ServiceName (with_status now st i) = si_ServiceName i" "si_InstanceId (with_status now st i) = si_InstanceId i"
  by (simp_all add: renewed_def with_status_def)

text \<open>Replacing the instance of a lease by one computed from it.\<close>

definition spec_modify ::
  "string \<Rightarrow> string \<Rightarrow> string \<Rightarrow> int \<Rightarrow> (ServiceInstance \<Rightarrow> ServiceInstance) \<Rightarrow> registry \<Rightarrow>
     (go_err + InstanceResponse) \<times> registry" where
  "spec_modify svc ins owner ms f st =
     (case reg_leases st (svc, ins) of
        None \<Rightarrow> (Inl ErrNotFound, st)
      | Some l \<Rightarrow>
          (case spec_update (f (ls_Instance l)) owner ms st of
             (r, st') \<Rightarrow> (map_sum id (\<lambda>n. \<lparr>ir_Instance = f (ls_Instance l), ir_Revision = n\<rparr>) r, st')))"

context registry_deps
begin

lemma get_then_update:
  assumes snd: "sound D (view s)" and room: "revision_of (view s) < max_published"
    and nc: "CHR '':'' \<notin> set svc" and at: "lease_at D (view s) svc ins = Some l"
    and f: "inst_ok (f (ls_Instance l))" and d: "int64 d" "0 < duration_Milliseconds d"
  shows "\<exists>s1 s'. Store_Get D svc ins (quiet s) = (Inr (ls_Instance l), quiet s1) \<and>
    bindE (Store_Update D (f (ls_Instance l)) t d)
      (\<lambda>n. returnE \<lparr>ir_Instance = f (ls_Instance l), ir_Revision = n\<rparr>) (quiet s1) =
      (fst (spec_modify svc ins (hashToken D t) (duration_Milliseconds d) f (abs_reg D (view s))), quiet s') \<and>
    abs_reg D (view s') = snd (spec_modify svc ins (hashToken D t) (duration_Milliseconds d) f (abs_reg D (view s))) \<and>
    sound D (view s')"
proof -
  let ?x = "f (ls_Instance l)"
  let ?out = "spec_update ?x (hashToken D t) (duration_Milliseconds d) (abs_reg D (view s))"
  have inv: "reg_inv D (view s)" using snd by (simp add: sound_def)
  obtain s1 where s1: "Store_Get D svc ins (quiet s) = (Inr (ls_Instance l), quiet s1)" "view s1 = view s"
    using Store_Get_quiet [OF inv, of svc ins] at by auto
  obtain s' where s': "Store_Update D ?x t d (quiet s1) = (fst ?out, quiet s')" "abs_reg D (view s') = snd ?out"
    using Store_Update_refines [of s1, OF _ f d, of t] inv room s1(2) by auto
  have "sound D (view s')" using Store_Update_sound [OF s'(1) _ f d(1)] snd s1(2) by simp
  moreover have "spec_modify svc ins (hashToken D t) (duration_Milliseconds d) f (abs_reg D (view s)) =
      (map_sum id (\<lambda>n. \<lparr>ir_Instance = ?x, ir_Revision = n\<rparr>) (fst ?out), snd ?out)"
    using at nc by (simp add: spec_modify_def split_beta)
  ultimately show ?thesis
    using s1(1) s' by (cases "fst ?out") (simp_all add: bindE_apply returnE_apply)
qed

lemma Service_Renew_refines:
  fixes now
  assumes snd: "sound D (view s)" and room: "revision_of (view s) < max_published"
    and nc: "CHR '':'' \<notin> set (rlr_ServiceName request)"
  defines "out \<equiv> spec_modify (rlr_ServiceName request) (rlr_InstanceId request)
     (hashToken D (rlr_LeaseToken request)) (lease_millis (rlr_LeaseSeconds request))
     (renewed now (rlr_LeaseSeconds request)) (abs_reg D (view s))"
  shows "\<exists>s'. Service_Renew D now request (quiet s) = (fst out, quiet s') \<and>
    abs_reg D (view s') = snd out \<and> sound D (view s')"
proof (cases "lease_at D (view s) (rlr_ServiceName request) (rlr_InstanceId request)")
  case None
  have inv: "reg_inv D (view s)" using snd by (simp add: sound_def)
  from Store_Get_quiet [OF inv, of "rlr_ServiceName request" "rlr_InstanceId request"] None nc snd
  show ?thesis by (auto simp: Service_Renew_def bindE_apply out_def spec_modify_def)
next
  case (Some l)
  have "inst_ok (renewed now (rlr_LeaseSeconds request) (ls_Instance l))"
    using lease_at_names(3) [OF _ Some nc] snd by (simp add: sound_def)
  from get_then_update [OF snd room nc Some, of "renewed now (rlr_LeaseSeconds request)",
      OF this leaseDuration_ms [of "rlr_LeaseSeconds request"], of "rlr_LeaseToken request"]
  show ?thesis
    by (auto simp: Service_Renew_def Let_def bindE_apply [of "Store_Get D _ _"] out_def
        lease_millis_def renewed_def)
qed

text \<open>
  A status change keeps the end of the lease: the new time to live is what is left of it on the
  wall clock, in whole milliseconds.
\<close>

lemma Service_SetStatus_refines:
  fixes now
  assumes snd: "sound D (view s)" and room: "revision_of (view s) < max_published"
    and nc: "CHR '':'' \<notin> set (ssr_ServiceName request)"
    and st: "ssr_Status request \<in> {STATUS_HEALTHY, STATUS_DRAINING}"
    and at: "lease_at D (view s) (ssr_ServiceName request) (ssr_InstanceId request) = Some l"
    and left: "time_Millisecond \<le> time_Sub (AsTime (si_LeaseExpiresAt (ls_Instance l))) wall"
  defines "out \<equiv> spec_modify (ssr_ServiceName request) (ssr_InstanceId request)
     (hashToken D (ssr_LeaseToken request))
     (duration_Milliseconds (time_Sub (AsTime (si_LeaseExpiresAt (ls_Instance l))) wall))
     (with_status now (ssr_Status request)) (abs_reg D (view s))"
  shows "\<exists>s'. Service_SetStatus D wall now request (quiet s) = (fst out, quiet s') \<and>
    abs_reg D (view s') = snd out \<and> sound D (view s')"
proof -
  let ?d = "time_Sub (AsTime (si_LeaseExpiresAt (ls_Instance l))) wall"
  have d: "int64 ?d" by (auto simp: int64_def time_Sub_def)
  have "0 < duration_Milliseconds ?d"
    using left by (simp add: duration_Milliseconds_def time_Millisecond_def go_quot_nonneg pos_imp_zdiv_pos_iff)
  moreover have "inst_ok (with_status now (ssr_Status request) (ls_Instance l))"
    using lease_at_names(3) [OF _ at nc] snd by (simp add: sound_def)
  moreover have "0 < ?d" using left by (simp add: time_Millisecond_def)
  ultimately show ?thesis
    using get_then_update [OF snd room nc at _ d, of "with_status now (ssr_Status request)" "ssr_LeaseToken request"] st
    by (auto simp: Service_SetStatus_def Let_def bindE_apply [of "Store_Get D _ _"] out_def with_status_def)
qed

lemma Service_Deregister_refines:
  assumes snd: "sound D (view s)" and room: "revision_of (view s) < max_published"
    and nc: "CHR '':'' \<notin> set (dir_ServiceName request)"
  defines "out \<equiv> spec_deregister (dir_ServiceName request) (dir_InstanceId request)
     (hashToken D (dir_LeaseToken request)) (abs_reg D (view s))"
  shows "\<exists>s'. Service_Deregister D request (quiet s) = (fst out, quiet s') \<and>
    abs_reg D (view s') = snd out \<and> sound D (view s')"
proof -
  have inv: "reg_inv D (view s)" using snd by (simp add: sound_def)
  obtain s' where s': "Store_Deregister D (dir_ServiceName request) (dir_InstanceId request)
      (dir_LeaseToken request) (quiet s) = (fst out, quiet s')" "abs_reg D (view s') = snd out"
    using Store_Deregister_refines [OF inv nc room] by (auto simp: out_def)
  with Store_Deregister_sound [OF s'(1) snd] show ?thesis by (auto simp: Service_Deregister_def)
qed

lemma register_then_get:
  assumes snd: "sound D (view s)" and room: "revision_of (view s) < max_published"
    and req: "rir_Instance request = Some i" "validateInstance D (Some i) = None" "inst_utf8 i"
    and free: "lease_at D (view s) (si_ServiceName i) (si_InstanceId i) = None"
  shows "\<exists>s'. Service_Register D (Inr bytes) now request (quiet s) =
      (Inr \<lparr>ris_Instance = new_instance request now, ris_LeaseToken = base64_RawURL_EncodeToString bytes,
            ris_Revision = Suc (revision_of (view s))\<rparr>, quiet s') \<and>
    (\<forall>d. fst (Service_Get D (si_ServiceName i) (si_InstanceId i) (quiet (advance d s'))) =
      (if int d < lease_millis (rir_LeaseSeconds request) then Inr (new_instance request now) else Inl ErrNotFound))"
proof -
  let ?x = "new_instance request now" and ?svc = "si_ServiceName i" and ?ins = "si_InstanceId i"
  have valid: "re_match namePattern ?svc" "?ins \<noteq> []" using req(2) by (simp_all add: validateInstance_None)
  have nc: "CHR '':'' \<notin> set ?svc" using valid(1) by (rule namePattern_no_colon)
  have names: "si_ServiceName ?x = ?svc" "si_InstanceId ?x = ?ins" using req(1) by (simp_all add: new_instance_def)
  have len: "length (reg_changes (abs_reg D (view s))) = revision_of (view s)"
    using abs_changes_length [of D "view s"] snd room by (simp add: sound_def)
  have free': "reg_leases (abs_reg D (view s)) (?svc, ?ins) = None" using free nc by simp
  obtain s' h where s': "Service_Register D (Inr bytes) now request (quiet s) =
      (Inr \<lparr>ris_Instance = ?x, ris_LeaseToken = base64_RawURL_EncodeToString bytes,
            ris_Revision = Suc (revision_of (view s))\<rparr>, quiet s')" "sound D (view s')"
      "reg_leases (abs_reg D (view s')) (?svc, ?ins) =
        Some \<lparr>ls_Instance = ?x, ls_Owner = h, ls_Millis = lease_millis (rir_LeaseSeconds request)\<rparr>"
    using Service_Register_refines [OF snd room req, of bytes now] free' names len
    by (auto simp: spec_register_def spec_put_def Let_def simp del: abs_leases)
  have "fst (Service_Get D ?svc ?ins (quiet (advance d s'))) =
      (if int d < lease_millis (rir_LeaseSeconds request) then Inr ?x else Inl ErrNotFound)" for d
  proof -
    have inv: "reg_inv D (view (advance d s'))" using advance_sound [OF s'(2)] by (simp add: sound_def)
    have "reg_leases (abs_reg D (view (advance d s'))) (?svc, ?ins) =
        (if int d < lease_millis (rir_LeaseSeconds request)
         then Some \<lparr>ls_Instance = ?x, ls_Owner = h, ls_Millis = lease_millis (rir_LeaseSeconds request) - int d\<rparr>
         else None)"
      using s'(2,3) by (simp add: advance_refines sound_def spec_tick_def lease_tick_def del: abs_leases)
    then show ?thesis
      using Store_Get_quiet [OF inv, of ?svc ?ins] valid nc by (auto simp: Service_Get_def)
  qed
  with s'(1) show ?thesis by blast
qed

end

end
