(* ===== verification/RegistryListing.thy ===== *)
theory RegistryListing
  imports RegistryBehaviour
begin

text \<open>
  Listing and paging. Without interference a listing returns exactly the live instances that
  match the request, in order of their identifiers; the pages of a list are its consecutive
  pieces, with 64-bit arithmetic that never overflows and slices that never panic.
\<close>

section \<open>Pages\<close>

lemma pageValues_spec:
  assumes page: "1 \<le> page" "page < 2 ^ 63" and psize: "1 \<le> psize" "psize < 2 ^ 63"
    and len: "length xs < 2 ^ 62"
  shows "pageValues xs page psize = Some (take (nat psize) (drop (nat ((page - 1) * psize)) xs))"
proof -
  let ?n = "int (length xs)" and ?o = "page - 1"
  have q: "go_quot ?n psize = ?n div psize" using psize by (simp add: go_quot_nonneg)
  have o: "wrap64 ?o = ?o" using page by simp
  show ?thesis
  proof (cases "?n div psize < ?o")
    case True
    then have "(?n div psize + 1) * psize \<le> ?o * psize" using psize by (intro mult_right_mono) auto
    moreover have "?n < (?n div psize + 1) * psize"
      using psize div_mult_mod_eq [of ?n psize] pos_mod_bound [of psize ?n]
      unfolding distrib_right by linarith
    ultimately have "?n \<le> ?o * psize" by linarith
    then have "length xs \<le> nat (?o * psize)" by (simp add: nat_le_iff zle_int)
    with True page psize show ?thesis by (simp add: pageValues_def o q Let_def)
  next
    case False
    then have "?o * psize \<le> ?n div psize * psize" using psize by (intro mult_right_mono) auto
    also have "\<dots> \<le> ?n"
      using psize div_mult_mod_eq [of ?n psize] pos_mod_sign [of psize ?n] by linarith
    finally have start: "?o * psize \<le> ?n" .
    have nn: "0 \<le> ?o * psize" using page psize by simp
    have len': "?n < 2 ^ 62" using len by simp
    have w: "wrap64 (?o * psize) = ?o * psize" using start nn len' by simp
    show ?thesis
    proof (cases "?n \<le> ?o * psize")
      case True
      then have "length xs \<le> nat (?o * psize)" by (simp add: nat_le_iff zle_int)
      with False True page psize show ?thesis by (simp add: pageValues_def o q w Let_def)
    next
      case inside: False
      have "?o * psize + psize < 2 ^ 63"
      proof (cases "?o = 0")
        case False
        then have "1 * psize \<le> ?o * psize" using page psize by (intro mult_right_mono) auto
        then have "?o * psize + psize \<le> ?n + ?n" using start by linarith
        with len' show ?thesis by simp
      qed (use psize in simp)
      then have w2: "wrap64 (?o * psize + psize) = ?o * psize + psize" using nn psize by simp
      define a where "a = nat (?o * psize)"
      define m where "m = nat psize"
      have am: "?o * psize = int a" "int m = psize" using nn psize by (simp_all add: a_def m_def)
      have "go_slice xs (int a) (min (int a + int m) (int (length xs))) = Some (take m (drop a xs))"
        using inside unfolding am(1) by (simp add: go_slice_def min_def nat_diff_distrib' nat_int_add take_all_iff)
      then have "go_slice xs (?o * psize) (min (?o * psize + psize) ?n) =
          Some (take (nat psize) (drop (nat (?o * psize)) xs))"
        unfolding am(1) using psize by (simp add: m_def)
      then show ?thesis
        using False inside page psize by (simp add: pageValues_def o q w w2 Let_def)
    qed
  qed
qed

lemma pageValues_all: "page \<le> 0 \<or> psize \<le> 0 \<Longrightarrow> pageValues xs page psize = Some xs"
  by (auto simp: pageValues_def)

lemma pageValues_total: "page < 2 ^ 63 \<Longrightarrow> psize < 2 ^ 63 \<Longrightarrow> length xs < 2 ^ 62 \<Longrightarrow> pageValues xs page psize \<noteq> None"
  using pageValues_spec [of page psize xs] pageValues_all [of page psize xs] by force

lemma take_drop_concat: "concat (map (\<lambda>k. take m (drop (k * m) xs)) [0..<n]) = take (n * m) xs"
proof (induction n)
  case (Suc n)
  have "Suc n * m = n * m + m" by simp
  with Suc show ?case by (simp only: take_add) simp
qed simp

section \<open>The instances of one service\<close>

lemma live_map:
  "live D v svc ids = map (\<lambda>i. ls_Instance (the (lease_at D v svc i))) (filter (\<lambda>i. lease_at D v svc i \<noteq> None) ids)"
  by (induction ids) (auto simp: live_def split: option.splits)

lemma live_ids:
  assumes "reg_inv D v" and "CHR '':'' \<notin> set svc"
  shows "map si_InstanceId (live D v svc ids) = filter (\<lambda>i. lease_at D v svc i \<noteq> None) ids"
    and "x \<in> set (live D v svc ids) \<Longrightarrow> si_ServiceName x = svc"
  using lease_at_names [OF assms(1) _ assms(2)] by (auto simp: live_map intro!: map_idI)

lemma live_set:
  assumes "sound D v" and "CHR '':'' \<notin> set svc" and "set ids = members v (serviceKey svc)"
  shows "set (live D v svc ids) = {ls_Instance l | ins l. lease_at D v svc ins = Some l}"
proof -
  have "ins \<in> set ids" if "lease_at D v svc ins = Some l" for ins l
    using assms lease_at_None [of D v svc ins] index_okD [of v svc ins] that by (auto simp: sound_def)
  then show ?thesis by (force simp: live_map)
qed

lemma live_cong: "(\<And>i. lease_at D v svc i = lease_at D v' svc i) \<Longrightarrow> live D v svc ids = live D v' svc ids"
  by (simp add: live_def)

text \<open>What is left of a key space after a listing: fewer stale members, everything else unchanged.\<close>

definition tidied :: "'s platform \<Rightarrow> keyspace \<Rightarrow> keyspace \<Rightarrow> bool" where
  "tidied D v v' \<longleftrightarrow>
     sound D v' \<and> abs_reg D v' = abs_reg D v \<and> revision_of v' = revision_of v \<and>
     (\<forall>svc ins. lease_at D v' svc ins = lease_at D v svc ins) \<and>
     members v' servicesKey = members v servicesKey"

lemma tidied_refl: "sound D v \<Longrightarrow> tidied D v v"
  by (simp add: tidied_def)

lemma tidied_trans: "tidied D u v \<Longrightarrow> tidied D v w \<Longrightarrow> tidied D u w"
  by (simp add: tidied_def)

context registry_deps
begin

lemma Store_List_tidied:
  assumes snd: "sound D (view s)" and nc: "CHR '':'' \<notin> set svc"
  shows "\<exists>xs s'. Store_List D svc (quiet s) = (Inr (xs, revision_of (view s)), quiet s') \<and>
    tidied D (view s) (view s') \<and> distinct (map si_InstanceId xs) \<and> (\<forall>x \<in> set xs. si_ServiceName x = svc) \<and>
    set xs = {ls_Instance l | ins l. lease_at D (view s) svc ins = Some l}"
proof -
  have inv: "reg_inv D (view s)" using snd by (simp add: sound_def)
  obtain ids s' where l: "Store_List D svc (quiet s) = (Inr (live D (view s) svc ids, revision_of (view s)), quiet s')"
      "distinct ids" "set ids = members (view s) (serviceKey svc)"
      "view s' = (if dead D (view s) svc ids = [] then view s
                  else unindexed (view s) svc (set (dead D (view s) svc ids)))"
    using Store_List_quiet [OF inv] by blast
  have "sound D (view s')" using list_sound [OF snd, of svc ids] l(4) by simp
  then have "tidied D (view s) (view s')"
    by (auto simp: tidied_def l(4) abs_unindexed lease_at_unindexed revision_of_def members_def
        unindexed_other key_simps)
  moreover have "distinct (map si_InstanceId (live D (view s) svc ids))"
    using l(2) by (simp add: live_ids(1) [OF inv nc])
  moreover have "\<forall>x \<in> set (live D (view s) svc ids). si_ServiceName x = svc"
    using live_ids(2) [OF inv nc] by blast
  ultimately show ?thesis using l(1) live_set [OF snd nc l(3)] by blast
qed

lemma collect_quiet:
  assumes "tidied D v (view s)" and "distinct names" and "\<forall>n \<in> set names. CHR '':'' \<notin> set n"
    and "r0 \<le> revision_of v" and "names = [] \<longrightarrow> r0 = revision_of v"
  shows "\<exists>xs s'. collect_instances D names vals r0 (quiet s) = (Inr (vals @ xs, revision_of v), quiet s') \<and>
    tidied D v (view s') \<and> distinct (map (\<lambda>i. (si_ServiceName i, si_InstanceId i)) xs) \<and>
    set xs = {ls_Instance l | svc ins l. svc \<in> set names \<and> lease_at D v svc ins = Some l} \<and>
    (\<forall>x \<in> set xs. si_ServiceName x \<in> set names)"
  using assms
proof (induction names arbitrary: s vals r0)
  case Nil
  then show ?case by (auto simp: returnE_apply)
next
  case (Cons n names)
  have t: "sound D (view s)" "revision_of (view s) = revision_of v"
      "\<And>svc ins. lease_at D (view s) svc ins = lease_at D v svc ins"
    using Cons.prems(1) by (simp_all add: tidied_def)
  obtain xs s1 where x: "Store_List D n (quiet s) = (Inr (xs, revision_of v), quiet s1)"
      "tidied D (view s) (view s1)" "distinct (map si_InstanceId xs)" "\<forall>x \<in> set xs. si_ServiceName x = n"
      "set xs = {ls_Instance l | ins l. lease_at D v n ins = Some l}"
    using Store_List_tidied [OF t(1), of n, unfolded t(2,3)] Cons.prems(3) by (meson list.set_intros(1))
  have r0: "(if r0 < revision_of v then revision_of v else r0) = revision_of v"
    using Cons.prems(4) by auto
  have tl: "distinct names" "\<forall>n \<in> set names. CHR '':'' \<notin> set n" using Cons.prems(2,3) by simp_all
  obtain ys s2 where y: "collect_instances D names (vals @ xs) (revision_of v) (quiet s1) =
        (Inr ((vals @ xs) @ ys, revision_of v), quiet s2)" "tidied D v (view s2)"
      "distinct (map (\<lambda>i. (si_ServiceName i, si_InstanceId i)) ys)"
      "set ys = {ls_Instance l | svc ins l. svc \<in> set names \<and> lease_at D v svc ins = Some l}"
      "\<forall>x \<in> set ys. si_ServiceName x \<in> set names"
    using Cons.IH [OF tidied_trans [OF Cons.prems(1) x(2)] tl order_refl refl [THEN impI], of "vals @ xs"] by blast
  let ?P = "\<lambda>i. (si_ServiceName i, si_InstanceId i)"
  have "distinct (map ?P xs)" using x(3) by (auto simp: distinct_map inj_on_def)
  moreover have "set (map ?P xs) \<inter> set (map ?P ys) = {}" using x(4) y(5) Cons.prems(2) by auto
  ultimately have "distinct (map ?P (xs @ ys))" using y(3) by simp
  moreover have "collect_instances D (n # names) vals r0 (quiet s) = (Inr (vals @ (xs @ ys), revision_of v), quiet s2)"
    using x(1) y(1) by (simp add: bindE_apply r0)
  ultimately show ?case
    using y(2)
  proof (intro exI [of _ "xs @ ys"] exI [of _ s2] conjI)
    show "set (xs @ ys) = {ls_Instance l | svc ins l. svc \<in> set (n # names) \<and> lease_at D v svc ins = Some l}"
      unfolding set_append x(5) y(4) by auto
    show "\<forall>x \<in> set (xs @ ys). si_ServiceName x \<in> set (n # names)" using x(4) y(5) by auto
  qed simp_all
qed

end

section \<open>Listing\<close>

text \<open>
  The instances a request asks for, over the table of leases: healthy ones, draining ones on demand,
  whose metadata agree with every entry of the selector (a missing entry counts as empty).
\<close>

definition asked_for :: "ListInstancesRequest \<Rightarrow> ServiceInstance \<Rightarrow> bool" where
  "asked_for request i \<longleftrightarrow>
     (si_Status i = STATUS_HEALTHY \<or> si_Status i = STATUS_DRAINING \<and> lir_IncludeDraining request) \<and>
     (\<forall>k v. fmlookup (lir_Selector request) k = Some v \<longrightarrow>
        v = (case fmlookup (si_Metadata i) k of None \<Rightarrow> '''' | Some u \<Rightarrow> u))"

lemma sorted_list_of_fmap_iff: "(k, v) \<in> set (sorted_list_of_fmap m) \<longleftrightarrow> fmlookup m k = Some v"
  by (auto simp: sorted_list_of_fmap_def fmlookup_dom_iff)

lemma matches_iff: "matches i (lir_Selector request) (lir_IncludeDraining request) \<longleftrightarrow> asked_for request i"
  by (auto simp: matches_def selector_matches_def asked_for_def list_all_iff sorted_list_of_fmap_iff map_index_def)

definition wanted :: "ListInstancesRequest \<Rightarrow> registry \<Rightarrow> ServiceInstance set" where
  "wanted request st =
     {ls_Instance l | svc ins l.
        reg_leases st (svc, ins) = Some l \<and>
        (lir_ServiceName request = '''' \<or> svc = lir_ServiceName request) \<and>
        asked_for request (ls_Instance l)}"

definition request_ok :: "ListInstancesRequest \<Rightarrow> bool" where
  "request_ok request \<longleftrightarrow>
     (if lir_ServiceName request = '''' then lir_Selector request \<noteq> fmempty
      else re_match namePattern (lir_ServiceName request))"

lemma page_or_panic_ok:
  "page < 2 ^ 63 \<Longrightarrow> psize < 2 ^ 63 \<Longrightarrow> length xs < 2 ^ 62 \<Longrightarrow>
     page_or_panic xs page psize w = (Inr (the (pageValues xs page psize)), w)"
  using pageValues_total [of page psize xs] by (auto simp: page_or_panic_def returnE_apply)

lemma Service_list_rejects:
  assumes "\<not> request_ok request"
  shows "\<exists>m. Service_list D request page psize w = (Inl (ErrText m), w)"
  using assms by (auto simp: Service_list_def request_ok_def raiseE_apply split: if_splits)

context registry_deps
begin

lemma Service_list_quiet:
  assumes snd: "sound D (view s)" and ok: "request_ok request"
  shows "\<exists>vals s'. 
    distinct (map (\<lambda>i. (si_ServiceName i, si_InstanceId i)) vals) \<and>
    set vals = wanted request (abs_reg D (view s)) \<and> sorted (map si_InstanceId vals) \<and>
    tidied D (view s) (view s') \<and>
    (page < 2 ^ 63 \<longrightarrow> psize < 2 ^ 63 \<longrightarrow> length vals < 2 ^ 62 \<longrightarrow>
      Service_list D request page psize (quiet s) =
        (Inr (\<lparr>lis_Instances = the (pageValues vals page psize), lis_Revision = revision_of (view s)\<rparr>, length vals),
         quiet s'))"
proof -
  let ?m = "\<lambda>v. matches v (lir_Selector request) (lir_IncludeDraining request)"
  let ?names = "if lir_ServiceName request = '''' then Store_Services D else returnE ([lir_ServiceName request], 0)"
  have inv: "reg_inv D (view s)" "index_ok (view s)" using snd by (simp_all add: sound_def)
  obtain names r0 s1 where n: "?names (quiet s) = (Inr (names, r0), quiet s1)" "view s1 = view s"
      "distinct names" "\<forall>n \<in> set names. CHR '':'' \<notin> set n" "r0 \<le> revision_of (view s)"
      "names = [] \<longrightarrow> r0 = revision_of (view s)"
      "set names = (if lir_ServiceName request = '''' then members (view s) servicesKey else {lir_ServiceName request})"
  proof (cases "lir_ServiceName request = ''''")
    case True
    then show ?thesis
      using Store_Services_quiet [OF inv(1)] index_ok_names [OF inv(2)] that by auto
  next
    case False
    then show ?thesis
      using that [of "[lir_ServiceName request]" 0 s] ok namePattern_no_colon
      by (auto simp: returnE_apply request_ok_def)
  qed
  obtain xs s2 where x: "collect_instances D names [] r0 (quiet s1) = (Inr (xs, revision_of (view s)), quiet s2)"
      "tidied D (view s) (view s2)" "distinct (map (\<lambda>i. (si_ServiceName i, si_InstanceId i)) xs)"
      "set xs = {ls_Instance l | svc ins l. svc \<in> set names \<and> lease_at D (view s) svc ins = Some l}"
    using collect_quiet [of "view s" s1 names r0 "[]"] n(2-6) tidied_refl [OF snd] by auto
  define vals where "vals = sort_instances D (\<lambda>a b. si_InstanceId a < si_InstanceId b) (filter ?m xs)"
  have "distinct (map (\<lambda>i. (si_ServiceName i, si_InstanceId i)) vals)"
  proof -
    have "mset vals = mset (filter ?m xs)" by (simp add: vals_def insts.srt_mset)
    then have "mset (map (\<lambda>i. (si_ServiceName i, si_InstanceId i)) vals) =
        mset (map (\<lambda>i. (si_ServiceName i, si_InstanceId i)) (filter ?m xs))" by (metis mset_map)
    from mset_eq_imp_distinct_iff [OF this] distinct_map_filter [OF x(3), of ?m] show ?thesis by blast
  qed
  moreover have "set vals = wanted request (abs_reg D (view s))"
  proof -
    have m: "set vals = {x \<in> set xs. ?m x}" by (simp add: vals_def)
    have e: "svc \<in> set names \<and> lease_at D (view s) svc ins = Some l \<longleftrightarrow>
        reg_leases (abs_reg D (view s)) (svc, ins) = Some l \<and>
        (lir_ServiceName request = '''' \<or> svc = lir_ServiceName request)" for svc ins l
    proof (cases "CHR '':'' \<in> set svc")
      case True
      then show ?thesis using n(4) by auto
    next
      case False
      have "lease_at D (view s) svc ins = Some l \<Longrightarrow> svc \<in> members (view s) servicesKey"
        using index_okD [OF inv(2) False, of ins] lease_at_None [OF inv(1), of svc ins] by simp
      then show ?thesis using False by (auto simp: n(7))
    qed
    have "(\<exists>svc ins l. x = ls_Instance l \<and> svc \<in> set names \<and> lease_at D (view s) svc ins = Some l) \<and> ?m x \<longleftrightarrow>
        x \<in> wanted request (abs_reg D (view s))" for x
      unfolding e wanted_def mem_Collect_eq matches_iff by blast
    then show ?thesis unfolding m x(4) mem_Collect_eq by blast
  qed
  moreover have lv: "length (filter ?m xs) = length vals" by (simp add: vals_def)
  moreover have "sorted (map si_InstanceId vals)" by (simp add: vals_def insts.srt_sorted)
  moreover have "Service_list D request page psize (quiet s) =
        (Inr (\<lparr>lis_Instances = the (pageValues vals page psize), lis_Revision = revision_of (view s)\<rparr>, length vals), quiet s2)"
    if "page < 2 ^ 63" "psize < 2 ^ 63" "length vals < 2 ^ 62"
  proof -
    have "Service_list D request page psize =
        bindE ?names (\<lambda>(serviceNames, revision).
        bindE (collect_instances D serviceNames [] revision) (\<lambda>(values, revision).
        bindE (page_or_panic (sort_instances D (\<lambda>a b. si_InstanceId a < si_InstanceId b) (filter ?m values)) page psize)
          (\<lambda>filtered. returnE (\<lparr>lis_Instances = filtered, lis_Revision = revision\<rparr>, length (filter ?m values)))))"
      using ok by (auto simp: Service_list_def request_ok_def Let_def)
    then show ?thesis
      using lv by (simp add: bindE_apply n(1) x(1) vals_def [symmetric] page_or_panic_ok [OF that] returnE_apply)
  qed
  ultimately show ?thesis using x(2) by blast
qed

end

end
