(* ===== verification/RegistryConcurrent.thy ===== *)
theory RegistryConcurrent
  imports RegistryBehaviour
begin

text \<open>
  The service among other clients. Before each round trip of a method, other clients may have
  taken any number of steps, and the network may refuse the request or lose the reply. Whatever
  they do, as long as their steps keep a property \<open>P\<close> that contains the invariant, every
  method of the service keeps it too.
\<close>

section \<open>What a reply tells\<close>

lemma roundtrip_reply:
  assumes "rely R P w" and "closed_under R P" and "roundtrip f w = (Inr r, w')"
  shows "\<exists>s. P s \<and> fst (f s) = r \<and> db w' = snd (f s)"
  by (rule roundtrip_cases [OF assms(1,2), of f]) (use assms(3) in auto)

lemma client_do_reply:
  assumes "rely R P w" and "closed_under R P" and "client_do call c w = (Inr r, w')"
  shows "\<exists>s. P s \<and> fst (call c s) = r \<and> db w' = snd (call c s)"
proof -
  obtain r' w1 where r': "roundtrip (call c) w = (Inr r', w1)"
      "(case r' of RErr e \<Rightarrow> raiseE (ErrText e) | RNil \<Rightarrow> raiseE RedisNil | _ \<Rightarrow> returnE r') w1 = (Inr r, w')"
    using assms(3) unfolding client_do_def bindE_Inr_iff by blast
  from this(2) have "r' = r" "w1 = w'" by (cases r'; simp add: returnE_apply raiseE_apply)+
  with roundtrip_reply [OF assms(1,2) r'(1)] show ?thesis by simp
qed

lemma Store_Get_reply:
  assumes "among D advance P w" and "step_closed D advance P" and "Store_Get D svc ins w = (Inr i, w')"
  shows "\<exists>s p. P s \<and> fst (rcall D (GET (instanceKey svc ins)) s) = RBulk p \<and> json_Unmarshal D p = Inr i"
proof -
  obtain p w1 where "client_do (rcall D) (GET (instanceKey svc ins)) w = (Inr (RBulk p), w1)"
      "json_Unmarshal D p = Inr i"
    using assms(3)
    by (auto simp: Store_Get_def tryE_apply raiseE_apply returnE_apply
        split: prod.splits sum.splits reply.splits if_splits)
  then show ?thesis
    using client_do_reply [OF assms(1) step_closed_steps [OF assms(2)]] by blast
qed

section \<open>Calls\<close>

text \<open>A call of the service, with the values it reads from clocks and from the random source.\<close>

datatype service_call =
    CallRegister "string + string" instant RegisterInstanceRequest
  | CallRenew instant RenewLeaseRequest
  | CallDeregister DeregisterInstanceRequest
  | CallSetStatus instant instant SetInstanceStatusRequest
  | CallList ListInstancesRequest int int
  | CallGet string string
  | CallListServices string int int
  | CallChanges nat

fun run_call :: "'s platform \<Rightarrow> service_call \<Rightarrow> 's world \<Rightarrow> 's world" where
  "run_call D (CallRegister rnd now r) w = snd (Service_Register D rnd now r w)"
| "run_call D (CallRenew now r) w = snd (Service_Renew D now r w)"
| "run_call D (CallDeregister r) w = snd (Service_Deregister D r w)"
| "run_call D (CallSetStatus wall now r) w = snd (Service_SetStatus D wall now r w)"
| "run_call D (CallList r page psize) w = snd (Service_ListPage D r page psize w)"
| "run_call D (CallGet svc ins) w = snd (Service_Get D svc ins w)"
| "run_call D (CallListServices pre page psize) w = snd (Service_ListServicesPage D pre page psize w)"
| "run_call D (CallChanges after) w = snd (Store_Changes D after w)"

text \<open>The strings of a decoded protobuf request are valid UTF-8.\<close>

definition call_utf8 :: "service_call \<Rightarrow> bool" where
  "call_utf8 c =
     (case c of CallRegister _ _ r \<Rightarrow> (case rir_Instance r of None \<Rightarrow> True | Some i \<Rightarrow> inst_utf8 i) | _ \<Rightarrow> True)"

lemma keeps_page: "keeps P (page_or_panic xs page psize)"
  by (auto simp: page_or_panic_def split: option.splits)

lemma keeps_collect_instances:
  assumes "step_closed D advance P"
  shows "keeps (among D advance P) (collect_instances D names vals r0)"
proof (induction names arbitrary: vals r0)
  case (Cons n names)
  then show ?case by (auto intro!: keeps_bind keeps_Store_List [OF assms] split: prod.splits)
qed simp

lemma keeps_collect_summaries:
  assumes "step_closed D advance P"
  shows "keeps (among D advance P) (collect_summaries D pre names vals)"
proof (induction names arbitrary: vals)
  case (Cons n names)
  then show ?case by (auto simp: Let_def intro!: keeps_bind keeps_Store_List [OF assms] split: prod.splits)
qed simp

lemma keeps_Service_list:
  assumes "step_closed D advance P"
  shows "keeps (among D advance P) (Service_list D request page psize)"
  unfolding Service_list_def
  by (auto simp: Let_def split: prod.splits
      intro!: keeps_bind keeps_Store_Services [OF assms] keeps_collect_instances [OF assms] keeps_page)

lemma keeps_Service_listServices:
  assumes "step_closed D advance P"
  shows "keeps (among D advance P) (Service_listServices D pre page psize)"
  unfolding Service_listServices_def
  by (auto simp: Let_def split: prod.splits
      intro!: keeps_bind keeps_Store_Services [OF assms] keeps_collect_summaries [OF assms] keeps_page)

lemma keeps_Service_Register:
  assumes "step_closed D advance P" and "\<And>i. rir_Instance r = Some i \<Longrightarrow> inst_utf8 i"
  shows "keeps (among D advance P) (Service_Register D rnd now r)"
proof (cases "validateInstance D (rir_Instance r)")
  case None
  then obtain i where i: "rir_Instance r = Some i"
    by (cases "rir_Instance r") (simp_all add: validateInstance_def)
  have "inst_ok (prepareInstance i l now)" for l
    using None i inst_ok_prepared assms(2) by metis
  then have "keeps (among D advance P) (Store_Register D (prepareInstance i l now) t (leaseDuration n))" for l t n
    using keeps_Store_Register [OF assms(1)] leaseDuration_ms(1) by metis
  then show ?thesis
    using None i by (auto simp: Service_Register_def Let_def split: sum.splits)
qed (simp add: Service_Register_def)

context registry_deps
begin

lemma Store_Get_ensures:
  assumes cl: "step_closed D advance P" and inv: "\<And>s. P s \<Longrightarrow> reg_inv D (view s)"
  shows "ensures (among D advance P) (Store_Get D svc ins) inst_ok"
proof (rule ensuresI)
  show "keeps (among D advance P) (Store_Get D svc ins)" by (rule keeps_Store_Get [OF cl])
next
  fix w i w'
  assume "among D advance P w" "Store_Get D svc ins w = (Inr i, w')"
  from Store_Get_reply [OF this(1) cl this(2)] obtain s p where s: "P s" "fst (rcall D (GET (instanceKey svc ins)) s) = RBulk p"
    "json_Unmarshal D p = Inr i" by blast
  from s(2) obtain t where "view s (instanceKey svc ins) = Some (RStr p, t)"
    by (auto simp: get_reply split: option.splits rvalue.splits)
  then have "payload_ok D (instanceKey svc ins) p" using inv [OF s(1)] unfolding reg_inv_def by blast
  then show "inst_ok i" using s(3) by (auto simp: payload_ok_def)
qed

lemma keeps_Service_Renew:
  assumes "step_closed D advance P" and "\<And>s. P s \<Longrightarrow> reg_inv D (view s)"
  shows "keeps (among D advance P) (Service_Renew D now r)"
  unfolding Service_Renew_def Let_def
  by (rule keeps_bind_ensures [OF Store_Get_ensures [OF assms]])
    (auto intro!: keeps_bind keeps_Store_Update [OF assms(1)] simp: leaseDuration_ms inst_ok_def inst_utf8_def)

lemma keeps_Service_SetStatus:
  assumes "step_closed D advance P" and "\<And>s. P s \<Longrightarrow> reg_inv D (view s)"
  shows "keeps (among D advance P) (Service_SetStatus D wall now r)"
proof -
  have "int64 (time_Sub a b)" for a b by (auto simp: int64_def time_Sub_def)
  then have "keeps (among D advance P) (bindE (Store_Get D svc ins) (\<lambda>instance.
        let remaining = time_Sub (AsTime (si_LeaseExpiresAt instance)) wall in
        if remaining \<le> 0 then raiseE ErrNotFound
        else let instance = instance\<lparr>si_Status := ssr_Status r, si_UpdatedAt := Some (timestamppb_New now)\<rparr>
             in bindE (Store_Update D instance t remaining) (\<lambda>revision.
                returnE \<lparr>ir_Instance = instance, ir_Revision = revision\<rparr>)))" for svc ins t
    unfolding Let_def
    by (intro keeps_bind_ensures [OF Store_Get_ensures [OF assms]])
      (auto intro!: keeps_bind keeps_Store_Update [OF assms(1)] simp: inst_ok_def inst_utf8_def)
  then show ?thesis by (simp add: Service_SetStatus_def)
qed

lemma run_call_keeps:
  assumes "step_closed D advance P" and "\<And>s. P s \<Longrightarrow> reg_inv D (view s)" and "call_utf8 c" and "among D advance P w"
  shows "among D advance P (run_call D c w)"
proof (cases c)
  case (CallRegister rnd now r)
  then have "keeps (among D advance P) (Service_Register D rnd now r)"
    using assms(3) by (intro keeps_Service_Register [OF assms(1)]) (simp add: call_utf8_def)
  then show ?thesis using CallRegister assms(4) by (simp add: keepsD)
next
  case (CallGet svc ins)
  have "keeps (among D advance P) (Service_Get D svc ins)"
    by (simp add: Service_Get_def keeps_Store_Get [OF assms(1)])
  then show ?thesis using CallGet assms(4) by (simp add: keepsD)
qed (simp_all add: keepsD [where P = "among D advance P" and s = w, OF _ assms(4)] keeps_Service_Renew [OF assms(1,2)] keeps_Service_SetStatus [OF assms(1,2)]
      keeps_Service_list [OF assms(1)] keeps_Service_listServices [OF assms(1)] keeps_Store_Deregister [OF assms(1)]
      keeps_Store_Changes [OF assms(1)] Service_Deregister_def Service_ListPage_def Service_ListServicesPage_def)

lemma run_calls_keep:
  assumes "step_closed D advance P" and "\<And>s. P s \<Longrightarrow> reg_inv D (view s)" and "list_all call_utf8 cs" and "among D advance P w"
  shows "among D advance P (fold (run_call D) cs w)"
  using assms(3,4) by (induction cs arbitrary: w) (auto intro: run_call_keeps [OF assms(1,2)])

end

end
