(* ===== verification/MemRedis.thy ===== *)
theory MemRedis
  imports Redis
begin

text \<open>
  An executable in-memory server with the eleven commands the service uses: strings, sets (kept
  as duplicate-free lists in insertion order) and streams, each with an optional time to live.
  The interpretation \<open>mem\<close> at the end shows that it meets every assumption of
  \<open>redis_server\<close>, so those assumptions are consistent; witnesses of theorems about the
  registry run on it.
\<close>

datatype mvalue =
    MStr string
  | MSet "string list"
  | MStream "(stream_id \<times> fields) list"

type_synonym mem = "string \<Rightarrow> (mvalue \<times> int option) option"

definition mem_empty :: mem where
  "mem_empty = (\<lambda>_. None)"

primrec mvalue_view :: "mvalue \<Rightarrow> rvalue" where
  "mvalue_view (MStr v) = RStr v"
| "mvalue_view (MSet xs) = RSet (set xs)"
| "mvalue_view (MStream es) = RStream es"

definition mem_view :: "mem \<Rightarrow> keyspace" where
  "mem_view s = (\<lambda>k. map_option (\<lambda>(v, t). (mvalue_view v, t)) (s k))"

definition mem_advance :: "nat \<Rightarrow> mem \<Rightarrow> mem" where
  "mem_advance d s = (\<lambda>k. case s k of
       None \<Rightarrow> None
     | Some (v, None) \<Rightarrow> Some (v, None)
     | Some (v, Some t) \<Rightarrow> if t \<le> int d then None else Some (v, Some (t - int d)))"

fun mem_incr :: "string \<Rightarrow> mem \<Rightarrow> reply \<times> mem" where
  "mem_incr k s =
     (case s k of
        None \<Rightarrow> (RInt 1, s(k \<mapsto> (MStr ''1'', None)))
      | Some (MStr v, t) \<Rightarrow>
          (case parse_int64 v of None \<Rightarrow> (RErr not_integer, s)
           | Some n \<Rightarrow> if n = 2 ^ 63 - 1 then (RErr incr_overflow, s)
                        else (RInt (n + 1), s(k \<mapsto> (MStr (dec_int (n + 1)), t))))
      | _ \<Rightarrow> (RErr wrongtype, s))"

fun mem_xadd :: "string \<Rightarrow> string \<Rightarrow> fields \<Rightarrow> mem \<Rightarrow> reply \<times> mem" where
  "mem_xadd k i fs s =
     (case s k of
        None \<Rightarrow>
          (case parse_stream_id i of
             Some n \<Rightarrow> (RBulk (show_stream_id n), s(k \<mapsto> (MStream [(n, fs)], None)))
           | None \<Rightarrow> (RErr bad_stream_id, s))
      | Some (MStream es, t) \<Rightarrow>
          (case parse_stream_id i of
             Some n \<Rightarrow>
               if es = [] \<or> id_less (fst (last es)) n
               then (RBulk (show_stream_id n), s(k \<mapsto> (MStream (es @ [(n, fs)]), t)))
               else (RErr small_stream_id, s)
           | None \<Rightarrow> (RErr bad_stream_id, s))
      | _ \<Rightarrow> (RErr wrongtype, s))"

fun mem_xread :: "nat \<Rightarrow> string \<Rightarrow> string \<Rightarrow> mem \<Rightarrow> reply" where
  "mem_xread c k i s =
     (case s k of
        None \<Rightarrow> RNil
      | Some (MStream es, t) \<Rightarrow>
          (case parse_stream_id i of
             None \<Rightarrow> RErr bad_stream_id
           | Some n \<Rightarrow>
               (case take c (filter (\<lambda>e. id_less n (fst e)) es) of
                  [] \<Rightarrow> RNil
                | xs \<Rightarrow> REntries (map (\<lambda>e. (show_stream_id (fst e), snd e)) xs)))
      | _ \<Rightarrow> RErr wrongtype)"

fun mem_call :: "cmd \<Rightarrow> mem \<Rightarrow> reply \<times> mem" where
  "mem_call (EXISTS k) s = (RInt (if s k = None then 0 else 1), s)"
| "mem_call (GET k) s =
     (case s k of None \<Rightarrow> RNil | Some (MStr v, _) \<Rightarrow> RBulk v | _ \<Rightarrow> RErr wrongtype, s)"
| "mem_call (SET_PX k v px) s =
     (case parse_int64 px of None \<Rightarrow> (RErr not_integer, s)
      | Some n \<Rightarrow> if 0 < n then (ROk, s(k \<mapsto> (MStr v, Some n))) else (RErr bad_expire, s))"
| "mem_call (PEXPIRE k px) s =
     (case parse_int64 px of None \<Rightarrow> (RErr not_integer, s)
      | Some n \<Rightarrow>
          (case s k of None \<Rightarrow> (RInt 0, s)
           | Some (v, _) \<Rightarrow> (RInt 1, if 0 < n then s(k \<mapsto> (v, Some n)) else s(k := None))))"
| "mem_call (DEL ks) s =
     (RInt (int (length (filter (\<lambda>k. s k \<noteq> None) (remdups ks)))), s |` (- set ks))"
| "mem_call (SADD k m) s =
     (case s k of None \<Rightarrow> (RInt 1, s(k \<mapsto> (MSet [m], None)))
      | Some (MSet xs, t) \<Rightarrow>
          if m \<in> set xs then (RInt 0, s) else (RInt 1, s(k \<mapsto> (MSet (xs @ [m]), t)))
      | _ \<Rightarrow> (RErr wrongtype, s))"
| "mem_call (SREM k ms) s =
     (case s k of None \<Rightarrow> (RInt 0, s)
      | Some (MSet xs, t) \<Rightarrow>
          (RInt (int (length (filter (\<lambda>x. x \<in> set ms) (remdups xs)))),
           if list_all (\<lambda>x. x \<in> set ms) xs then s(k := None)
           else s(k \<mapsto> (MSet (filter (\<lambda>x. x \<notin> set ms) xs), t)))
      | _ \<Rightarrow> (RErr wrongtype, s))"
| "mem_call (SMEMBERS k) s =
     (case s k of None \<Rightarrow> RArr [] | Some (MSet xs, _) \<Rightarrow> RArr (remdups xs) | _ \<Rightarrow> RErr wrongtype, s)"
| "mem_call (INCR k) s = mem_incr k s"
| "mem_call (XADD k i fs) s = mem_xadd k i fs s"
| "mem_call (XREAD c k i) s = (mem_xread c k i s, s)"

section \<open>It is a Redis server\<close>

lemma mem_view_upd: "mem_view (s(k \<mapsto> (v, t))) = (mem_view s)(k \<mapsto> (mvalue_view v, t))"
  by (auto simp: mem_view_def)

lemma mem_view_del: "mem_view (s(k := None)) = (mem_view s)(k := None)"
  by (auto simp: mem_view_def)

lemma mem_view_restrict: "mem_view (s |` A) = (mem_view s) |` A"
  by (auto simp: mem_view_def restrict_map_def)

lemma mem_view_app: "mem_view s k = (case s k of None \<Rightarrow> None | Some (v, t) \<Rightarrow> Some (mvalue_view v, t))"
  by (simp add: mem_view_def split: option.splits)

lemma mem_view_None: "mem_view s k = None \<longleftrightarrow> s k = None"
  by (simp add: mem_view_def)

lemma mem_view_Some_cases:
  "mem_view s k = Some (RStr v, t) \<longleftrightarrow> s k = Some (MStr v, t)"
  "mem_view s k = Some (RSet S, t) \<longleftrightarrow> (\<exists>xs. s k = Some (MSet xs, t) \<and> S = set xs)"
  "mem_view s k = Some (RStream es, t) \<longleftrightarrow> s k = Some (MStream es, t)"
  by (auto simp: mem_view_app split: option.splits) (metis mvalue.exhaust mvalue_view.simps rvalue.distinct rvalue.inject)+

lemma digits_or_dash_of_parse:
  assumes "parse_stream_id i = Some n" and "c \<in> set i"
  shows "is_digit c \<or> c = CHR ''-''"
proof -
  have ok: "is_digit c" if "dec_val u = Some m" "c \<in> set u" for u m c
    using that
  proof (induction u arbitrary: m rule: rev_induct)
    case (snoc x xs)
    then show ?case by (auto simp: dec_val_snoc dec_step_def split: option.splits if_splits)
  qed simp
  obtain a b where ab: "strings_Cut i (CHR ''-'') = (a, b, True)"
    and "ParseUint64 a \<noteq> None" "ParseUint64 b \<noteq> None"
    using assms(1) by (auto simp: parse_stream_id_def split: prod.splits bool.splits option.splits)
  moreover have "i = a @ CHR ''-'' # b" using ab strings_Cut_sound by blast
  ultimately show ?thesis
    using assms(2) ok by (fastforce simp: ParseUint64_def split: if_splits option.splits)
qed

lemma length_filter_remdups: "length (filter P (remdups xs)) = card (set xs \<inter> Collect P)"
proof -
  have "length (filter P (remdups xs)) = card (set (filter P (remdups xs)))"
    by (rule distinct_card [symmetric]) simp
  also have "set (filter P (remdups xs)) = set xs \<inter> Collect P" by auto
  finally show ?thesis .
qed

lemma dom_mem_view: "dom (mem_view s) = {k. \<exists>a b. s k = Some (a, b)}"
  by (auto simp: dom_def mem_view_app split: option.splits)

interpretation mem: redis_server mem_call mem_view mem_advance
  by unfold_locales
    (auto simp: mem_view_app mem_view_upd mem_view_del mem_view_restrict dom_mem_view
        length_filter_remdups list_all_iff mem_advance_def expire_by_def set_diff_eq
      dest: digits_or_dash_of_parse
      split: option.splits mvalue.splits)

end
