(* ===== verification/MemPlatform.thy ===== *)
theory MemPlatform
  imports RegistryTypes MemRedis
begin

text \<open>
  A concrete platform that meets every assumption the registry makes about code outside the
  repository: the in-memory server of theory \<open>MemRedis\<close>, a textual codec for instances, an
  insertion sort and a small URL parser. It shows that the assumptions are consistent, and it is
  what witnesses are evaluated on. It is not a model of the libraries themselves.
\<close>

section \<open>A codec for instances\<close>

text \<open>A list of strings as length-prefixed frames.\<close>

definition frame :: "string \<Rightarrow> string" where
  "frame s = dec (length s) @ '','' @ s"

definition unframe1 :: "string \<Rightarrow> (string \<times> string) option" where
  "unframe1 inp =
     (case strings_Cut inp (CHR '','') of
        (n, r, True) \<Rightarrow>
          (case dec_val n of
             Some k \<Rightarrow> if k \<le> length r then Some (take k r, drop k r) else None
           | None \<Rightarrow> None)
      | _ \<Rightarrow> None)"

fun unframe :: "nat \<Rightarrow> string \<Rightarrow> string list" where
  "unframe 0 inp = []"
| "unframe (Suc fuel) inp = (case unframe1 inp of None \<Rightarrow> [] | Some (s, r) \<Rightarrow> s # unframe fuel r)"

definition frames :: "string list \<Rightarrow> string" where
  "frames xs = concat (map frame xs)"

definition int_of_text :: "string \<Rightarrow> int" where
  "int_of_text s =
     (if s \<noteq> [] \<and> hd s = CHR ''-'' then - int (the (dec_val (tl s))) else int (the (dec_val s)))"

primrec status_text :: "InstanceStatus \<Rightarrow> string" where
  "status_text STATUS_UNSPECIFIED = ''u''"
| "status_text STATUS_HEALTHY = ''h''"
| "status_text STATUS_DRAINING = ''d''"
| "status_text (STATUS_OTHER i) = dec_int i"

definition status_of_text :: "string \<Rightarrow> InstanceStatus" where
  "status_of_text s =
     (if s = ''u'' then STATUS_UNSPECIFIED else if s = ''h'' then STATUS_HEALTHY
      else if s = ''d'' then STATUS_DRAINING else STATUS_OTHER (int_of_text s))"

definition ts_text :: "Timestamp option \<Rightarrow> string list" where
  "ts_text t = (case t of None \<Rightarrow> ['''', ''''] | Some x \<Rightarrow> [dec_int (Seconds x), dec_int (Nanos x)])"

definition ts_of_text :: "string \<Rightarrow> string \<Rightarrow> Timestamp option" where
  "ts_of_text a b = (if a = '''' then None else Some \<lparr>Seconds = int_of_text a, Nanos = int_of_text b\<rparr>)"

fun flat :: "(string \<times> string) list \<Rightarrow> string list" where
  "flat [] = []"
| "flat ((k, v) # xs) = k # v # flat xs"

fun unflat :: "string list \<Rightarrow> (string \<times> string) list" where
  "unflat (k # v # xs) = (k, v) # unflat xs"
| "unflat _ = []"

definition instance_texts :: "ServiceInstance \<Rightarrow> string list" where
  "instance_texts i =
     [si_ServiceName i, si_InstanceId i, si_Endpoint i, si_Protocol i, status_text (si_Status i),
      dec (si_Weight i), si_Version i] @
     ts_text (si_RegisteredAt i) @ ts_text (si_UpdatedAt i) @ ts_text (si_LeaseExpiresAt i) @
     flat (sorted_list_of_fmap (si_Metadata i))"

definition instance_of_texts :: "string list \<Rightarrow> string + ServiceInstance" where
  "instance_of_texts xs =
     (if length xs < 13 then Inl ''unexpected end of input''
      else Inr \<lparr>si_ServiceName = xs ! 0, si_InstanceId = xs ! 1, si_Endpoint = xs ! 2, si_Protocol = xs ! 3,
          si_Status = status_of_text (xs ! 4), si_Weight = the (dec_val (xs ! 5)), si_Version = xs ! 6,
          si_Metadata = fmap_of_list (unflat (drop 13 xs)), si_RegisteredAt = ts_of_text (xs ! 7) (xs ! 8),
          si_UpdatedAt = ts_of_text (xs ! 9) (xs ! 10), si_LeaseExpiresAt = ts_of_text (xs ! 11) (xs ! 12)\<rparr>)"

definition mem_marshal :: "ServiceInstance \<Rightarrow> string + string" where
  "mem_marshal i = Inr (CHR ''{'' # frames (instance_texts i))"

definition mem_unmarshal :: "string \<Rightarrow> string + ServiceInstance" where
  "mem_unmarshal p =
     (if p \<noteq> [] \<and> hd p = CHR ''{'' then instance_of_texts (unframe (length p) (tl p))
      else Inl ''invalid character'')"

lemma dec_no_comma: "CHR '','' \<notin> set (dec n)"
  using dec_all_digits by (fastforce simp: is_digit_def)

lemma unframe1_frame: "unframe1 (frame s @ r) = Some (s, r)"
  using strings_Cut_found [OF dec_no_comma, of "length s" "s @ r"]
  by (simp add: unframe1_def frame_def)

lemma unframe1_Nil: "unframe1 [] = None"
  by (simp add: unframe1_def)

lemma unframe_frames: "length xs \<le> fuel \<Longrightarrow> unframe fuel (frames xs) = xs"
proof (induction xs arbitrary: fuel)
  case Nil
  then show ?case by (cases fuel) (simp_all add: frames_def unframe1_Nil)
next
  case (Cons x xs)
  then show ?case by (cases fuel) (simp_all add: frames_def unframe1_frame)
qed

lemma length_frames: "length xs \<le> length (frames xs)"
proof (induction xs)
  case (Cons x xs)
  then show ?case by (simp add: frames_def frame_def)
qed (simp add: frames_def)

lemma hd_dec: "hd (dec n) \<noteq> CHR ''-''"
  using dec_no_minus [of n] by (metis dec_Nil list.set_sel(1))

lemma int_of_text_dec_int [simp]: "int_of_text (dec_int i) = i"
  by (simp add: int_of_text_def dec_int_def hd_dec)

lemma dec_int_texts: "dec_int i \<noteq> []" "dec_int i \<noteq> ''u''" "dec_int i \<noteq> ''h''" "dec_int i \<noteq> ''d''"
proof -
  have "c \<in> set (dec_int i) \<Longrightarrow> is_digit c \<or> c = CHR ''-''" for c
    using dec_all_digits by (auto simp: dec_int_def split: if_splits)
  then show "dec_int i \<noteq> ''u''" "dec_int i \<noteq> ''h''" "dec_int i \<noteq> ''d''"
    by (fastforce simp: is_digit_def)+
qed (simp add: dec_int_def)

lemma status_of_status_text [simp]: "status_of_text (status_text st) = st"
  by (cases st) (simp_all add: status_of_text_def dec_int_texts)

lemma ts_text_cases: "\<exists>a b. ts_text t = [a, b] \<and> ts_of_text a b = t"
  by (cases t) (simp_all add: ts_text_def ts_of_text_def dec_int_texts)

lemma unflat_flat [simp]: "unflat (flat xs) = xs"
  by (induction xs rule: flat.induct) simp_all

lemma fmap_of_sorted_list [simp]: "fmap_of_list (sorted_list_of_fmap m) = m"
  by (rule fmap_ext) (simp add: fmlookup_of_list)

lemma instance_texts_roundtrip: "instance_of_texts (instance_texts i) = Inr i"
proof -
  obtain a b c d e f where "ts_text (si_RegisteredAt i) = [a, b]" "ts_of_text a b = si_RegisteredAt i"
      "ts_text (si_UpdatedAt i) = [c, d]" "ts_of_text c d = si_UpdatedAt i"
      "ts_text (si_LeaseExpiresAt i) = [e, f]" "ts_of_text e f = si_LeaseExpiresAt i"
    using ts_text_cases by metis
  then show ?thesis by (simp add: instance_of_texts_def instance_texts_def)
qed

lemma mem_roundtrip:
  "\<exists>p. mem_marshal i = Inr (CHR ''{'' # p) \<and> mem_unmarshal (CHR ''{'' # p) = Inr i"
  using unframe_frames [of "instance_texts i" "Suc (length (frames (instance_texts i)))"]
    length_frames [of "instance_texts i"]
  by (simp add: mem_marshal_def mem_unmarshal_def instance_texts_roundtrip del: unframe.simps)

section \<open>Sorting, hashing, URLs\<close>

fun insert_by :: "('a \<Rightarrow> 'a \<Rightarrow> bool) \<Rightarrow> 'a \<Rightarrow> 'a list \<Rightarrow> 'a list" where
  "insert_by lt x [] = [x]"
| "insert_by lt x (y # ys) = (if lt y x then y # insert_by lt x ys else x # y # ys)"

definition insertion_sort :: "('a \<Rightarrow> 'a \<Rightarrow> bool) \<Rightarrow> 'a list \<Rightarrow> 'a list" where
  "insertion_sort lt xs = foldr (insert_by lt) xs []"

lemma insertion_sort_mset: "mset (insertion_sort lt xs) = mset xs"
proof -
  have "mset (insert_by lt x ys) = add_mset x (mset ys)" for x ys
    by (induction ys) auto
  then show ?thesis unfolding insertion_sort_def by (induction xs) simp_all
qed

lemma insertion_sort_key: "insertion_sort (\<lambda>x y. f x < (f y :: 'k :: linorder)) xs = sort_key f xs"
proof -
  have "insert_by (\<lambda>x y. f x < f y) x ys = insort_key f x ys" for x ys
    by (induction ys) auto
  then show ?thesis by (simp add: insertion_sort_def sort_key_def fun_eq_iff cong: foldr_cong)
qed

text \<open>Scheme and host of \<open>scheme://host/...\<close>; an input without a colon has neither.\<close>

definition mem_url_Parse :: "string \<Rightarrow> URL option" where
  "mem_url_Parse s =
     (case strings_Cut s (CHR '':'') of
        (scheme, r, True) \<Rightarrow>
          Some \<lparr>url_Scheme = scheme,
                url_Host = (if take 2 r = ''//'' then takeWhile (\<lambda>c. c \<noteq> CHR ''/'') (drop 2 r) else '''')\<rparr>
      | _ \<Rightarrow> Some \<lparr>url_Scheme = '''', url_Host = ''''\<rparr>)"

definition mem_platform :: "mem platform" where
  "mem_platform =
     \<lparr>rcall = mem_call, json_Marshal = mem_marshal, json_Unmarshal = mem_unmarshal,
      sha256_Sum256 = id, url_Parse = mem_url_Parse, sort_instances = insertion_sort,
      sort_summaries = insertion_sort\<rparr>"

lemma mem_platform_simps [simp]:
  "rcall mem_platform = mem_call" "json_Marshal mem_platform = mem_marshal"
  "json_Unmarshal mem_platform = mem_unmarshal" "sha256_Sum256 mem_platform = id"
  "url_Parse mem_platform = mem_url_Parse" "sort_instances mem_platform = insertion_sort"
  "sort_summaries mem_platform = insertion_sort"
  by (simp_all add: mem_platform_def)

interpretation mem_codec: json_codec mem_marshal mem_unmarshal
  by unfold_locales (rule mem_roundtrip)

interpretation mem_sort: sort_slice insertion_sort
  by unfold_locales (simp_all add: insertion_sort_mset insertion_sort_key)

interpretation mp: registry_deps mem_platform mem_view mem_advance
  unfolding registry_deps_def mem_platform_simps
  by (intro conjI mem.redis_server_axioms mem_codec.json_codec_axioms mem_sort.sort_slice_axioms)

lemma mem_deps: "registry_deps mem_platform mem_view mem_advance"
  by (rule mp.registry_deps_axioms)

end
