(* ===== verification/RegistryProperties.thy ===== *)
theory RegistryProperties
  imports RegistryListing RegistryConcurrent MemPlatform
begin

text \<open>
  The properties of the registry, stated over the model's definitions for every platform that
  meets \<open>registry_deps\<close>, each with an instance on the in-memory platform.
\<close>

section \<open>Concrete inputs\<close>

definition demo_inst :: "string \<Rightarrow> string \<Rightarrow> ServiceInstance" where
  "demo_inst svc ins =
     \<lparr>si_ServiceName = svc, si_InstanceId = ins, si_Endpoint = ''http://h:1'', si_Protocol = ''http'',
      si_Status = STATUS_UNSPECIFIED, si_Weight = 0, si_Version = ''1'', si_Metadata = fmempty,
      si_RegisteredAt = None, si_UpdatedAt = None, si_LeaseExpiresAt = None\<rparr>"

definition demo_request :: RegisterInstanceRequest where
  "demo_request = \<lparr>rir_Instance = Some (demo_inst ''billing'' ''one''), rir_LeaseSeconds = 60\<rparr>"

text \<open>A server whose index still names an instance that is gone.\<close>

definition demo_stale :: mem where
  "demo_stale = mem_empty(serviceKey ''billing'' \<mapsto> (MSet [''one''], None), servicesKey \<mapsto> (MSet [''billing''], None))"

text \<open>A server on which one instance is leased for a minute.\<close>

definition demo_leased :: mem where
  "demo_leased = demo_stale
     (instanceKey ''billing'' ''one'' \<mapsto> (MStr (CHR ''{'' # frames (instance_texts (demo_inst ''billing'' ''one''))), Some 60000),
      tokenKey ''billing'' ''one'' \<mapsto> (MStr (hashToken mem_platform ''secret''), Some 60000))"

lemma demo_utf8: "inst_utf8 (demo_inst ''billing'' ''one'')"
  by code_simp

lemma demo_valid: "validateInstance mem_platform (Some (demo_inst ''billing'' ''one'')) = None"
  by code_simp

lemma demo_name: "re_match namePattern ''billing''"
  by code_simp

lemma view_empty [simp]: "mem_view mem_empty = (\<lambda>_. None)"
  by (simp add: mem_view_def mem_empty_def)

lemma revision_empty [simp]: "revision_of (\<lambda>_. None) = 0" "stream_of (\<lambda>_. None) = []"
  by (simp_all add: revision_of_def stream_of_def)

lemma log_state_empty: "v revisionKey = None \<Longrightarrow> v streamKey = None \<Longrightarrow> log_state v 0 []"
  by (simp add: log_state_def)

lemma sound_empty: "sound D (\<lambda>_. None)"
  unfolding sound_def
proof
  show "reg_inv D (\<lambda>_. None)"
    by (rule reg_invI [OF _ _ _ _ log_state_empty]) (simp_all add: lease_pair_def set_slot_def)
  show "index_ok (\<lambda>_. None)" by (simp add: index_ok_def members_def)
qed

lemma view_stale: "mem_view demo_stale =
    (\<lambda>_. None)(serviceKey ''billing'' \<mapsto> (RSet {''one''}, None), servicesKey \<mapsto> (RSet {''billing''}, None))"
  by (simp add: demo_stale_def mem_view_upd)

lemma sound_stale: "sound mem_platform (mem_view demo_stale)"
  unfolding sound_def view_stale
proof
  let ?v = "(\<lambda>_. None)(serviceKey ''billing'' \<mapsto> (RSet {''one''}, None :: int option), servicesKey \<mapsto> (RSet {''billing''}, None))"
  show "reg_inv mem_platform ?v"
    by (rule reg_invI [OF _ _ _ _ log_state_empty]) (simp_all add: lease_pair_def set_slot_def key_simps)
  show "index_ok ?v" by (simp add: index_ok_def members_def key_simps)
qed

lemma view_leased: "mem_view demo_leased =
    leased (mem_view demo_stale) ''billing'' ''one'' (CHR ''{'' # frames (instance_texts (demo_inst ''billing'' ''one'')))
      (hashToken mem_platform ''secret'') 60000"
  by (simp add: demo_leased_def mem_view_upd leased_def)

lemma demo_payload:
  "json_Unmarshal mem_platform (CHR ''{'' # frames (instance_texts (demo_inst ''billing'' ''one''))) = Inr (demo_inst ''billing'' ''one'')"
  using mem_roundtrip [of "demo_inst ''billing'' ''one''"] by (simp add: mem_marshal_def)

lemma sound_leased: "sound mem_platform (mem_view demo_leased)"
proof -
  have v: "mem_view demo_leased = indexed (mem_view demo_leased) ''billing'' ''one''"
    by (auto simp: view_leased indexed_def leased_def view_stale members_def key_simps fun_eq_iff)
  have "inst_ok (demo_inst ''billing'' ''one'')"
    using demo_utf8 by (simp add: inst_ok_def demo_inst_def)
  then have "payload_ok mem_platform (instanceKey ''billing'' ''one'') (CHR ''{'' # frames (instance_texts (demo_inst ''billing'' ''one'')))"
    using payload_ok_marshal [OF demo_payload] by (simp add: demo_inst_def)
  then have "reg_inv mem_platform (mem_view demo_leased)"
    using sound_stale by (simp add: reg_inv_leased sound_def view_leased)
  moreover have "index_ok (indexed (leased (mem_view demo_stale) ''billing'' ''one''
      (CHR ''{'' # frames (instance_texts (demo_inst ''billing'' ''one''))) (hashToken mem_platform ''secret'') 60000) ''billing'' ''one'')"
    using sound_stale by (intro index_ok_register) (simp_all add: sound_def)
  ultimately show ?thesis using v by (simp add: sound_def view_leased)
qed

lemma demo_lease:
  "lease_at mem_platform (mem_view demo_leased) ''billing'' ''one'' =
     Some \<lparr>ls_Instance = demo_inst ''billing'' ''one'', ls_Owner = hashToken mem_platform ''secret'', ls_Millis = 60000\<rparr>"
  using demo_payload by (simp add: lease_at_def view_leased leased_lease)

lemma demo_revision: "revision_of (mem_view demo_leased) = 0"
  by (simp add: view_leased view_stale revision_of_def leased_other key_simps)

lemma demo_changes: "reg_changes (abs_reg D (mem_view demo_leased)) = []"
  by (simp add: abs_changes view_leased view_stale stream_of_def leased_other key_simps List.map_filter_def)

lemma demo_fields [simp]:
  "si_ServiceName (demo_inst svc ins) = svc" "si_InstanceId (demo_inst svc ins) = ins"
  "si_LeaseExpiresAt (demo_inst svc ins) = None"
  by (simp_all add: demo_inst_def)

lemma demo_deps_request:
  "rir_Instance demo_request = Some (demo_inst ''billing'' ''one'')"
  by (simp add: demo_request_def)

section \<open>Registration, renewal, status, removal\<close>

text \<open>
  C1. \<open>Register\<close> refines the abstract registration: a valid request for a free name stores the
  prepared instance, owned by the hash of the new token, for the clamped lease, appends one upsert
  to the history and returns its number; for a taken name it fails and changes nothing.
\<close>

theorem Service_Register_correct:
  assumes "registry_deps D view advance" and "sound D (view s)" and "revision_of (view s) < max_published"
    and "rir_Instance request = Some i" and "validateInstance D (Some i) = None" and "inst_utf8 i"
  shows "\<exists>s'. Service_Register D (Inr bytes) now request (quiet s) =
      (map_sum id (\<lambda>n. \<lparr>ris_Instance = new_instance request now,
                        ris_LeaseToken = base64_RawURL_EncodeToString bytes, ris_Revision = n\<rparr>)
         (fst (spec_register (new_instance request now) (hashToken D (base64_RawURL_EncodeToString bytes))
            (lease_millis (rir_LeaseSeconds request)) (abs_reg D (view s)))), quiet s') \<and>
    abs_reg D (view s') =
      snd (spec_register (new_instance request now) (hashToken D (base64_RawURL_EncodeToString bytes))
        (lease_millis (rir_LeaseSeconds request)) (abs_reg D (view s))) \<and>
    sound D (view s')"
  by (rule registry_deps.Service_Register_refines [OF assms])

theorem Service_Register_correct_witness:
  "\<exists>s'. Service_Register mem_platform (Inr ''0123'') 5 demo_request (quiet mem_empty) =
      (Inr \<lparr>ris_Instance = new_instance demo_request 5, ris_LeaseToken = base64_RawURL_EncodeToString ''0123'',
            ris_Revision = 1\<rparr>, quiet s') \<and> sound mem_platform (mem_view s')"
  using Service_Register_correct [OF mem_deps, of mem_empty demo_request "demo_inst ''billing'' ''one''" "''0123''" 5]
  by (auto simp: sound_empty demo_deps_request demo_valid demo_utf8 max_published_def spec_register_def spec_put_def
      abs_reg_def lease_at_def List.map_filter_def Let_def)

text \<open>
  C2. \<open>Renew\<close> refines the abstract renewal: with the right token the lease starts again with
  the clamped length, only the two timestamps of the instance change, and one upsert is published;
  a missing lease and a wrong token are the two errors, and then nothing changes.
\<close>

theorem Service_Renew_correct:
  assumes "registry_deps D view advance" and "sound D (view s)" and "revision_of (view s) < max_published"
    and "CHR '':'' \<notin> set (rlr_ServiceName request)"
  shows "\<exists>s'. Service_Renew D now request (quiet s) =
      (fst (spec_modify (rlr_ServiceName request) (rlr_InstanceId request) (hashToken D (rlr_LeaseToken request))
         (lease_millis (rlr_LeaseSeconds request)) (renewed now (rlr_LeaseSeconds request)) (abs_reg D (view s))), quiet s') \<and>
    abs_reg D (view s') =
      snd (spec_modify (rlr_ServiceName request) (rlr_InstanceId request) (hashToken D (rlr_LeaseToken request))
         (lease_millis (rlr_LeaseSeconds request)) (renewed now (rlr_LeaseSeconds request)) (abs_reg D (view s))) \<and>
    sound D (view s')"
  by (rule registry_deps.Service_Renew_refines [OF assms])

theorem Service_Renew_correct_witness:
  "\<exists>s'. Service_Renew mem_platform 7 \<lparr>rlr_ServiceName = ''billing'', rlr_InstanceId = ''one'',
        rlr_LeaseToken = ''secret'', rlr_LeaseSeconds = 10\<rparr> (quiet demo_leased) =
      (Inr \<lparr>ir_Instance = renewed 7 10 (demo_inst ''billing'' ''one''), ir_Revision = 1\<rparr>, quiet s')"
  using Service_Renew_correct [OF mem_deps sound_leased, of "\<lparr>rlr_ServiceName = ''billing'', rlr_InstanceId = ''one'',
        rlr_LeaseToken = ''secret'', rlr_LeaseSeconds = 10\<rparr>" 7]
  by (auto simp: demo_revision max_published_def spec_modify_def spec_update_def spec_put_def demo_lease demo_changes Let_def)

text \<open>
  C3. \<open>SetStatus\<close> refines the abstract update: with at least a millisecond of the lease left
  on the wall clock it changes the status and the update time only, keeps the end of the lease (the
  new time to live is what is left of it) and publishes one upsert.
\<close>

theorem Service_SetStatus_correct:
  assumes "registry_deps D view advance" and "sound D (view s)" and "revision_of (view s) < max_published"
    and "CHR '':'' \<notin> set (ssr_ServiceName request)"
    and "ssr_Status request \<in> {STATUS_HEALTHY, STATUS_DRAINING}"
    and "lease_at D (view s) (ssr_ServiceName request) (ssr_InstanceId request) = Some l"
    and "time_Millisecond \<le> time_Sub (AsTime (si_LeaseExpiresAt (ls_Instance l))) wall"
  shows "\<exists>s'. Service_SetStatus D wall now request (quiet s) =
      (fst (spec_modify (ssr_ServiceName request) (ssr_InstanceId request) (hashToken D (ssr_LeaseToken request))
         (duration_Milliseconds (time_Sub (AsTime (si_LeaseExpiresAt (ls_Instance l))) wall))
         (with_status now (ssr_Status request)) (abs_reg D (view s))), quiet s') \<and>
    abs_reg D (view s') =
      snd (spec_modify (ssr_ServiceName request) (ssr_InstanceId request) (hashToken D (ssr_LeaseToken request))
         (duration_Milliseconds (time_Sub (AsTime (si_LeaseExpiresAt (ls_Instance l))) wall))
         (with_status now (ssr_Status request)) (abs_reg D (view s))) \<and>
    sound D (view s')"
  by (rule registry_deps.Service_SetStatus_refines [OF assms])

theorem Service_SetStatus_correct_witness:
  "\<exists>s'. Service_SetStatus mem_platform (- 5000000) 7 \<lparr>ssr_ServiceName = ''billing'', ssr_InstanceId = ''one'',
        ssr_LeaseToken = ''secret'', ssr_Status = STATUS_DRAINING\<rparr> (quiet demo_leased) =
      (Inr \<lparr>ir_Instance = with_status 7 STATUS_DRAINING (demo_inst ''billing'' ''one''), ir_Revision = 1\<rparr>, quiet s')"
  using Service_SetStatus_correct [OF mem_deps sound_leased, of "\<lparr>ssr_ServiceName = ''billing'', ssr_InstanceId = ''one'',
        ssr_LeaseToken = ''secret'', ssr_Status = STATUS_DRAINING\<rparr>"
        "\<lparr>ls_Instance = demo_inst ''billing'' ''one'', ls_Owner = hashToken mem_platform ''secret'', ls_Millis = 60000\<rparr>"
        "- 5000000" 7]
  by (auto simp: demo_revision max_published_def spec_modify_def spec_update_def spec_put_def demo_lease demo_changes
      Let_def AsTime_def time_Sub_def time_Millisecond_def)

text \<open>
  C4. \<open>Deregister\<close> refines the abstract removal: with the right token the lease is gone, one
  delete is published; a missing lease and a wrong token are errors and then nothing changes.
\<close>

theorem Service_Deregister_correct:
  assumes "registry_deps D view advance" and "sound D (view s)" and "revision_of (view s) < max_published"
    and "CHR '':'' \<notin> set (dir_ServiceName request)"
  shows "\<exists>s'. Service_Deregister D request (quiet s) =
      (fst (spec_deregister (dir_ServiceName request) (dir_InstanceId request)
         (hashToken D (dir_LeaseToken request)) (abs_reg D (view s))), quiet s') \<and>
    abs_reg D (view s') = snd (spec_deregister (dir_ServiceName request) (dir_InstanceId request)
         (hashToken D (dir_LeaseToken request)) (abs_reg D (view s))) \<and>
    sound D (view s')"
  by (rule registry_deps.Service_Deregister_refines [OF assms])

theorem Service_Deregister_correct_witness:
  "\<exists>s'. Service_Deregister mem_platform \<lparr>dir_ServiceName = ''billing'', dir_InstanceId = ''one'',
        dir_LeaseToken = ''secret''\<rparr> (quiet demo_leased) = (Inr 1, quiet s')"
  using Service_Deregister_correct [OF mem_deps sound_leased, of "\<lparr>dir_ServiceName = ''billing'', dir_InstanceId = ''one'',
        dir_LeaseToken = ''secret''\<rparr>"]
  by (auto simp: demo_revision max_published_def spec_deregister_def demo_lease demo_changes Let_def)

section \<open>Leases\<close>

text \<open>
  C5. A lease belongs to its token. Along any run of any number of clients, in which registrations,
  renewals, status changes, removals, listings and the clock are interleaved in any order, a lease
  whose owner's token none of the clients knows stays exactly as it is until its time has passed:
  the same instance, the same owner, and the remaining time reduced by the time that passed.
\<close>

theorem lease_owned:
  assumes "registry_deps D view advance" and "reg_inv D (view s)"
    and "lease_at D (view s) svc ins = Some l" and "ls_Owner l \<notin> hashToken D ` T"
    and "timed_run D advance T d s s'" and "int d < ls_Millis l"
  shows "lease_at D (view s') svc ins = Some (l\<lparr>ls_Millis := ls_Millis l - int d\<rparr>)"
  using registry_deps.run_keeps_lease [OF assms(1,5,2,3,4,6)] by blast

theorem lease_owned_witness:
  "lease_at mem_platform (mem_view (mem_advance 100
     (snd (delete_script_for mem_platform ''billing'' ''one'' ''guess'' demo_leased)))) ''billing'' ''one'' =
     Some \<lparr>ls_Instance = demo_inst ''billing'' ''one'', ls_Owner = hashToken mem_platform ''secret'', ls_Millis = 59900\<rparr>"
proof -
  have run: "timed_run mem_platform mem_advance {''guess''} (0 + 100) demo_leased
      (mem_advance 100 (snd (delete_script_for mem_platform ''billing'' ''one'' ''guess'' demo_leased)))"
    by (intro run_tick run_client [OF run_start] client_delete) simp
  have "hashToken mem_platform ''secret'' \<notin> hashToken mem_platform ` {''guess''}"
    by (simp add: hashToken_def hex_inj)
  then show ?thesis
    using lease_owned [OF mem_deps _ demo_lease _ run] sound_leased by (simp add: sound_def)
qed

text \<open>
  C6. A registered instance is found until its lease has run out and not after: the lease is 30
  seconds when the request asks for none, and otherwise the requested seconds, at least 5 and at
  most 300.
\<close>

theorem lease_lifetime:
  assumes "registry_deps D view advance" and "sound D (view s)" and "revision_of (view s) < max_published"
    and "rir_Instance request = Some i" and "validateInstance D (Some i) = None" and "inst_utf8 i"
    and "lease_at D (view s) (si_ServiceName i) (si_InstanceId i) = None"
  shows "\<exists>s'. Service_Register D (Inr bytes) now request (quiet s) =
      (Inr \<lparr>ris_Instance = new_instance request now, ris_LeaseToken = base64_RawURL_EncodeToString bytes,
            ris_Revision = Suc (revision_of (view s))\<rparr>, quiet s') \<and>
    (\<forall>d. fst (Service_Get D (si_ServiceName i) (si_InstanceId i) (quiet (advance d s'))) =
      (if int d < (if rir_LeaseSeconds request = 0 then 30000
                   else 1000 * max 5 (min 300 (int (rir_LeaseSeconds request))))
       then Inr (new_instance request now) else Inl ErrNotFound))"
  unfolding lease_millis_clamped [symmetric] by (rule registry_deps.register_then_get [OF assms])

theorem lease_lifetime_witness:
  "\<exists>s'. (\<forall>d. fst (Service_Get mem_platform ''billing'' ''one'' (quiet (mem_advance d s'))) =
      (if int d < 60000 then Inr (new_instance demo_request 5) else Inl ErrNotFound)) \<and>
    db (snd (Service_Register mem_platform (Inr ''0123'') 5 demo_request (quiet mem_empty))) = s'"
proof -
  have "lease_at mem_platform (mem_view mem_empty) ''billing'' ''one'' = None" by (simp add: lease_at_def)
  then show ?thesis
    using lease_lifetime [OF mem_deps, of mem_empty demo_request "demo_inst ''billing'' ''one''" "''0123''" 5]
    by (auto simp: sound_empty demo_deps_request demo_valid demo_utf8 max_published_def demo_request_def)
qed

section \<open>Interference\<close>

text \<open>
  C7. Whatever other clients of the registry do before each round trip (any number of its atomic
  steps, and time passing), and whatever requests or replies the network loses, any sequence of calls
  of the service leaves the key space well formed: instance and token of a lease live and die
  together, every payload decodes to an instance that belongs under its key, the history only grows
  and numbers its changes 1, 2, 3 and so on without a gap.
\<close>

theorem registry_safe_under_interference:
  assumes "registry_deps D view advance" and "reg_inv D (view (db w))"
    and "\<forall>(others, n) \<in> set (sched w). \<forall>s. (srv_step D advance)\<^sup>*\<^sup>* s (others s)"
    and "list_all call_utf8 calls"
  shows "reg_inv D (view (db (fold (run_call D) calls w))) \<and>
    prefix (reg_changes (abs_reg D (view (db w)))) (reg_changes (abs_reg D (view (db (fold (run_call D) calls w))))) \<and>
    map chg_Revision (reg_changes (abs_reg D (view (db (fold (run_call D) calls w))))) =
      [1..<Suc (min (revision_of (view (db (fold (run_call D) calls w)))) max_published)]"
proof -
  let ?P = "\<lambda>s. reg_inv D (view s) \<and> log_grows (view (db w)) (view s)"
  have cl: "step_closed D advance ?P" by (rule registry_deps.step_closed_history [OF assms(1)])
  have "among D advance ?P w"
    using assms(2,3) by (simp add: rely_def)
  then have r: "among D advance ?P (fold (run_call D) calls w)"
    using registry_deps.run_calls_keep [OF assms(1) cl _ assms(4)] by blast
  then have "reg_inv D (view (db (fold (run_call D) calls w)))"
      "log_grows (view (db w)) (view (db (fold (run_call D) calls w)))"
    by (auto dest: rely_db)
  then show ?thesis
    using abs_changes_revisions abs_changes_grow by blast
qed

theorem registry_safe_under_interference_witness:
  "reg_inv mem_platform (mem_view (db (run_call mem_platform (CallGet ''billing'' ''one'')
     \<lparr>db = demo_leased, sched = [(mem_advance 70000, Lost ''timeout'')]\<rparr>)))"
proof -
  have "\<forall>(others, n) \<in> set [(mem_advance 70000, Lost ''timeout'')]. \<forall>s. (srv_step mem_platform mem_advance)\<^sup>*\<^sup>* s (others s)"
    by (auto intro!: r_into_rtranclp step_tick)
  then show ?thesis
    using registry_safe_under_interference [OF mem_deps, of "\<lparr>db = demo_leased, sched = [(mem_advance 70000, Lost ''timeout'')]\<rparr>"
        "[CallGet ''billing'' ''one'']"] sound_leased
    by (simp add: sound_def call_utf8_def)
qed

section \<open>Listing and paging\<close>

text \<open>
  C8. Without interference \<open>ListPage\<close> returns the requested page of exactly the live instances
  that match the request, each once, in order of their identifiers, with their total number and the
  current revision; the table of leases and the history stay as they are.
\<close>

theorem listing_exact:
  assumes "registry_deps D view advance" and "sound D (view s)" and "request_ok request"
    and "page < 2 ^ 63" and "pageSize < 2 ^ 63"
  shows "\<exists>vals s'. distinct (map (\<lambda>i. (si_ServiceName i, si_InstanceId i)) vals) \<and>
    set vals = wanted request (abs_reg D (view s)) \<and> sorted (map si_InstanceId vals) \<and>
    abs_reg D (view s') = abs_reg D (view s) \<and> sound D (view s') \<and>
    (length vals < 2 ^ 62 \<longrightarrow>
      Service_ListPage D request page pageSize (quiet s) =
        (Inr (\<lparr>lis_Instances = the (pageValues vals page pageSize), lis_Revision = revision_of (view s)\<rparr>, length vals),
         quiet s'))"
proof -
  obtain vals s' where "distinct (map (\<lambda>i. (si_ServiceName i, si_InstanceId i)) vals)"
    "set vals = wanted request (abs_reg D (view s))" "sorted (map si_InstanceId vals)"
    "tidied D (view s) (view s')"
    "page < 2 ^ 63 \<longrightarrow> pageSize < 2 ^ 63 \<longrightarrow> length vals < 2 ^ 62 \<longrightarrow>
      Service_list D request page pageSize (quiet s) =
        (Inr (\<lparr>lis_Instances = the (pageValues vals page pageSize), lis_Revision = revision_of (view s)\<rparr>, length vals), quiet s')"
    using registry_deps.Service_list_quiet [OF assms(1-3), of page pageSize] by blast
  then show ?thesis
    using assms(4,5) unfolding tidied_def Service_ListPage_def by blast
qed

theorem listing_exact_witness:
  "\<exists>vals. set vals = wanted \<lparr>lir_ServiceName = ''billing'', lir_Selector = fmempty, lir_IncludeDraining = False\<rparr>
       (abs_reg mem_platform (mem_view demo_leased)) \<and> sorted (map si_InstanceId vals)"
  using listing_exact [OF mem_deps sound_leased,
      of "\<lparr>lir_ServiceName = ''billing'', lir_Selector = fmempty, lir_IncludeDraining = False\<rparr>" 1 20] demo_name
  by (auto simp: request_ok_def)

text \<open>
  C9. The pages 1, 2, 3 and so on of a list are its consecutive pieces of the page size, in order:
  together the first \<open>n\<close> of them are the first \<open>n\<close> times page size elements. No page number
  and page size make the arithmetic overflow or the slice panic.
\<close>

theorem pages_partition:
  assumes "1 \<le> pageSize" and "pageSize < 2 ^ 63" and "length xs < 2 ^ 62" and "n < 2 ^ 62"
  shows "concat (map (\<lambda>k. the (pageValues xs (int k + 1) pageSize)) [0..<n]) = take (n * nat pageSize) xs \<and>
    (\<forall>page size. page < 2 ^ 63 \<longrightarrow> size < 2 ^ 63 \<longrightarrow> pageValues xs page size \<noteq> None)"
proof
  have "the (pageValues xs (int k + 1) pageSize) = take (nat pageSize) (drop (k * nat pageSize) xs)" if "k < n" for k
    using pageValues_spec [of "int k + 1" pageSize xs] assms that by (simp add: nat_mult_distrib)
  then have "concat (map (\<lambda>k. the (pageValues xs (int k + 1) pageSize)) [0..<n]) =
      concat (map (\<lambda>k. take (nat pageSize) (drop (k * nat pageSize) xs)) [0..<n])"
    by (intro arg_cong [where f = concat] map_cong) auto
  then show "concat (map (\<lambda>k. the (pageValues xs (int k + 1) pageSize)) [0..<n]) = take (n * nat pageSize) xs"
    by (simp add: take_drop_concat)
  show "\<forall>page size. page < 2 ^ 63 \<longrightarrow> size < 2 ^ 63 \<longrightarrow> pageValues xs page size \<noteq> None"
    using pageValues_total assms(3) by blast
qed

theorem pages_partition_witness:
  "concat (map (\<lambda>k. the (pageValues ''abcde'' (int k + 1) 2)) [0..<3]) = ''abcde''"
  using pages_partition [of 2 "''abcde''" 3] by simp

section \<open>The change feed, names and tokens\<close>

text \<open>
  C10. \<open>Changes\<close> after a revision returns, oldest first, the next changes of the history, at most
  128 of them, with consecutive numbers starting right after the revision, and writes nothing.
\<close>

theorem changes_consecutive:
  assumes "registry_deps D view advance" and "reg_inv D (view s)" and "after < 2 ^ 64"
  shows "\<exists>cs s'. Store_Changes D after (quiet s) = (Inr cs, quiet s') \<and> view s' = view s \<and>
    cs = take 128 (drop after (reg_changes (abs_reg D (view s)))) \<and>
    map chg_Revision cs = [Suc after..<Suc after + length cs]"
  using registry_deps.Store_Changes_quiet [OF assms] changes_window [OF assms(2)] by blast

theorem changes_consecutive_witness:
  "\<exists>s'. Store_Changes mem_platform 3 (quiet demo_leased) = (Inr [], quiet s')"
  using changes_consecutive [OF mem_deps, of demo_leased 3] sound_leased by (auto simp: sound_def demo_changes)

text \<open>
  The pattern accepts exactly the lower-case DNS labels: 1 to 63 letters, digits and hyphens
  that neither begin nor end with a hyphen. So no valid service name contains the colon that
  separates the parts of a Redis key, and two valid services never share the key of an instance.
\<close>

lemma valid_names:
  "re_match namePattern s \<longleftrightarrow>
     1 \<le> length s \<and> length s \<le> 63 \<and>
     list_all (\<lambda>c. CHR ''a'' \<le> c \<and> c \<le> CHR ''z'' \<or> CHR ''0'' \<le> c \<and> c \<le> CHR ''9'' \<or> c = CHR ''-'') s \<and>
     hd s \<noteq> CHR ''-'' \<and> last s \<noteq> CHR ''-''"
proof -
  have "in_ranges (lower_alnum @ [(CHR ''-'', CHR ''-'')]) =
      (\<lambda>c. CHR ''a'' \<le> c \<and> c \<le> CHR ''z'' \<or> CHR ''0'' \<le> c \<and> c \<le> CHR ''9'' \<or> c = CHR ''-'')"
    by (rule ext) (auto simp: in_ranges_def lower_alnum_def)
  then show ?thesis by (simp add: namePattern_iff)
qed

end
