(* ===== verification/GrpcRegistry.thy ===== *)
theory GrpcRegistry
  imports RegistryProperties
begin

text \<open>
  The gRPC surface of the registry (\<open>internal/transport/grpc/registry.go\<close>): the unary handlers,
  the mapping of errors to status codes, and the watch stream. A watch runs on the world of the store
  together with the messages sent so far; its loop has no end of its own, so it is observed for a
  number of iterations, one element of the list \<open>ctx\<close> each (the error of the stream's context after
  the iteration, if it has one).
\<close>

section \<open>Status codes\<close>

datatype grpc_code =
    Canceled | DeadlineExceeded | InvalidArgument | NotFound | AlreadyExists | PermissionDenied
  | Unauthenticated | ResourceExhausted | Internal | Unavailable | Unknown

text \<open>A status error, or an error of the transport that is passed on as it is.\<close>

datatype grpc_err =
    Status grpc_code string
  | Transport string

definition registryError :: "go_err \<Rightarrow> grpc_err" where
  "registryError err =
     (if errors_Is err ErrAlreadyRegistered then Status AlreadyExists (Error err)
      else if errors_Is err ErrNotFound then Status NotFound (Error err)
      else if errors_Is err ErrLeaseNotOwned then Status PermissionDenied (Error err)
      else Status InvalidArgument (Error err))"

definition with_registryError :: "(go_err, 's world, 'a) sem \<Rightarrow> (grpc_err, 's world, 'a) sem" where
  "with_registryError f = tryE f (\<lambda>r. case r of Inl err \<Rightarrow> raiseE (registryError err) | Inr x \<Rightarrow> returnE x)"

section \<open>Unary handlers\<close>

definition RegisterInstance ::
  "'s platform \<Rightarrow> string + string \<Rightarrow> instant \<Rightarrow> RegisterInstanceRequest \<Rightarrow>
     (grpc_err, 's world, RegisterInstanceResponse) sem" where
  "RegisterInstance D rnd now request = with_registryError (Service_Register D rnd now request)"

definition RenewLease ::
  "'s platform \<Rightarrow> instant \<Rightarrow> RenewLeaseRequest \<Rightarrow> (grpc_err, 's world, InstanceResponse) sem" where
  "RenewLease D now request = with_registryError (Service_Renew D now request)"

definition DeregisterInstance ::
  "'s platform \<Rightarrow> DeregisterInstanceRequest \<Rightarrow> (grpc_err, 's world, nat) sem" where
  "DeregisterInstance D request = with_registryError (Service_Deregister D request)"

definition SetInstanceStatus ::
  "'s platform \<Rightarrow> instant \<Rightarrow> instant \<Rightarrow> SetInstanceStatusRequest \<Rightarrow>
     (grpc_err, 's world, InstanceResponse) sem" where
  "SetInstanceStatus D wall now request = with_registryError (Service_SetStatus D wall now request)"

definition GetInstance ::
  "'s platform \<Rightarrow> string \<Rightarrow> string \<Rightarrow> (grpc_err, 's world, ServiceInstance) sem" where
  "GetInstance D serviceName instanceId = with_registryError (Service_Get D serviceName instanceId)"

definition ListInstances ::
  "'s platform \<Rightarrow> ListInstancesRequest \<Rightarrow> (grpc_err, 's world, ListInstancesResponse) sem" where
  "ListInstances D request = with_registryError (Service_List D request)"

definition ListServices ::
  "'s platform \<Rightarrow> string \<Rightarrow> (grpc_err, 's world, ListServicesResponse) sem" where
  "ListServices D pre = with_registryError (Service_ListServices D pre)"

section \<open>Watching\<close>

datatype InstanceChangeType = CHANGE_SNAPSHOT | CHANGE_UPSERT | CHANGE_DELETE

record InstanceChange =
  ic_Type :: InstanceChangeType
  ic_Instance :: "ServiceInstance option"
  ic_ServiceName :: string
  ic_InstanceId :: string

record WatchServiceResponse =
  wsr_Revision :: nat
  wsr_Changes :: "InstanceChange list"

record WatchServiceRequest =
  wq_ServiceName :: string
  wq_Selector :: "(string, string) fmap"
  wq_IncludeDraining :: bool

definition registryMatches :: "ServiceInstance \<Rightarrow> (string, string) fmap \<Rightarrow> bool \<Rightarrow> bool" where
  "registryMatches v selector includeDraining =
     (if si_Status v = STATUS_DRAINING \<and> \<not> includeDraining then False
      else selector_matches selector (si_Metadata v))"

definition snapshot_change :: "ServiceInstance \<Rightarrow> InstanceChange" where
  "snapshot_change instance =
     \<lparr>ic_Type = CHANGE_SNAPSHOT, ic_Instance = Some instance, ic_ServiceName = si_ServiceName instance,
      ic_InstanceId = si_InstanceId instance\<rparr>"

definition watch_change :: "WatchServiceRequest \<Rightarrow> Change \<Rightarrow> InstanceChange" where
  "watch_change request v =
     (let change = \<lparr>ic_Type = CHANGE_UPSERT, ic_Instance = chg_Value v, ic_ServiceName = chg_Service v,
                    ic_InstanceId = chg_Instance v\<rparr>
      in if chg_Type v = ''delete'' then change\<lparr>ic_Type := CHANGE_DELETE\<rparr>
         else (case chg_Value v of
                 None \<Rightarrow> change\<lparr>ic_Type := CHANGE_DELETE, ic_Instance := None\<rparr>
               | Some i \<Rightarrow>
                   if \<not> registryMatches i (wq_Selector request) (wq_IncludeDraining request)
                   then change\<lparr>ic_Type := CHANGE_DELETE, ic_Instance := None\<rparr>
                   else change))"

text \<open>
  The world of a watch: the store's world and what the stream has sent. \<open>send\<close> says whether
  sending a message after others fails.
\<close>

type_synonym 's watch = "'s world \<times> WatchServiceResponse list"
type_synonym sender = "WatchServiceResponse list \<Rightarrow> WatchServiceResponse \<Rightarrow> string option"

definition in_world :: "(go_err, 's world, 'a) sem \<Rightarrow> (grpc_err, 's watch, 'a) sem" where
  "in_world f = (\<lambda>(w, sent). case f w of
      (Inl err, w') \<Rightarrow> (Inl (registryError err), (w', sent))
    | (Inr x, w') \<Rightarrow> (Inr x, (w', sent)))"

definition Send :: "sender \<Rightarrow> WatchServiceResponse \<Rightarrow> (grpc_err, 's watch, unit) sem" where
  "Send send msg = (\<lambda>(w, sent). case send sent msg of
      Some e \<Rightarrow> (Inl (Transport e), (w, sent))
    | None \<Rightarrow> (Inr (), (w, sent @ [msg])))"

fun send_changes ::
  "sender \<Rightarrow> WatchServiceRequest \<Rightarrow> Change list \<Rightarrow> nat \<Rightarrow> (grpc_err, 's watch, nat) sem" where
  "send_changes send request [] revision = returnE revision"
| "send_changes send request (v # values) revision =
     (let revision = chg_Revision v in
      if wq_ServiceName request \<noteq> '''' \<and> chg_Service v \<noteq> wq_ServiceName request
      then send_changes send request values revision
      else bindE (Send send \<lparr>wsr_Revision = revision, wsr_Changes = [watch_change request v]\<rparr>) (\<lambda>_.
           send_changes send request values revision))"

text \<open>\<open>status.FromContextError\<close> of the context's error.\<close>

definition FromContextError :: "grpc_code \<Rightarrow> grpc_err" where
  "FromContextError c =
     (case c of
        DeadlineExceeded \<Rightarrow> Status DeadlineExceeded ''context deadline exceeded''
      | Canceled \<Rightarrow> Status Canceled ''context canceled''
      | _ \<Rightarrow> Status Unknown '''')"

fun watch_loop ::
  "'s platform \<Rightarrow> sender \<Rightarrow> WatchServiceRequest \<Rightarrow> grpc_code option list \<Rightarrow> nat \<Rightarrow>
     (grpc_err, 's watch, nat) sem" where
  "watch_loop D send request [] revision = returnE revision"
| "watch_loop D send request (c # ctx) revision =
     bindE (in_world (Store_Changes D revision)) (\<lambda>values.
     bindE (send_changes send request values revision) (\<lambda>revision.
     case c of
       Some e \<Rightarrow> raiseE (FromContextError e)
     | None \<Rightarrow> watch_loop D send request ctx revision))"

definition WatchService ::
  "'s platform \<Rightarrow> sender \<Rightarrow> WatchServiceRequest \<Rightarrow> grpc_code option list \<Rightarrow> (grpc_err, 's watch, nat) sem" where
  "WatchService D send request ctx =
     bindE (in_world (Service_List D
       \<lparr>lir_ServiceName = wq_ServiceName request, lir_Selector = wq_Selector request,
        lir_IncludeDraining = wq_IncludeDraining request\<rparr>)) (\<lambda>initial.
     bindE (Send send \<lparr>wsr_Revision = lis_Revision initial,
                       wsr_Changes = map snapshot_change (lis_Instances initial)\<rparr>) (\<lambda>_.
     watch_loop D send request ctx (lis_Revision initial)))"

section \<open>The watch delivers the history in order, without gaps\<close>

text \<open>The messages for the changes of a service.\<close>

definition deliveries :: "WatchServiceRequest \<Rightarrow> Change list \<Rightarrow> WatchServiceResponse list" where
  "deliveries request cs =
     map (\<lambda>v. \<lparr>wsr_Revision = chg_Revision v, wsr_Changes = [watch_change request v]\<rparr>)
       (filter (\<lambda>v. wq_ServiceName request = '''' \<or> chg_Service v = wq_ServiceName request) cs)"

lemma deliveries_simps [simp]:
  "deliveries request [] = []"
  "deliveries request (v # cs) =
     (if wq_ServiceName request = '''' \<or> chg_Service v = wq_ServiceName request
      then [\<lparr>wsr_Revision = chg_Revision v, wsr_Changes = [watch_change request v]\<rparr>] else []) @ deliveries request cs"
  by (simp_all add: deliveries_def)

lemma deliveries_append: "deliveries request (as @ bs) = deliveries request as @ deliveries request bs"
  by (simp add: deliveries_def)

text \<open>Sending a batch stops at the first failure; what went out is a prefix of the batch.\<close>

lemma send_changes_result:
  "\<exists>k. snd (send_changes send request cs r (w, sent)) = (w, sent @ deliveries request (take k cs)) \<and>
     (\<forall>r'. fst (send_changes send request cs r (w, sent)) = Inr r' \<longrightarrow>
        take k cs = cs \<and> r' = last (r # map chg_Revision cs)) \<and> k \<le> length cs"
proof (induction cs arbitrary: r sent)
  case Nil
  then show ?case by (simp add: returnE_apply)
next
  case (Cons v cs)
  let ?m = "\<lparr>wsr_Revision = chg_Revision v, wsr_Changes = [watch_change request v]\<rparr>"
  show ?case
  proof (cases "wq_ServiceName request \<noteq> '''' \<and> chg_Service v \<noteq> wq_ServiceName request")
    case True
    obtain k where "snd (send_changes send request cs (chg_Revision v) (w, sent)) =
        (w, sent @ deliveries request (take k cs))"
      "\<forall>r'. fst (send_changes send request cs (chg_Revision v) (w, sent)) = Inr r' \<longrightarrow>
        take k cs = cs \<and> r' = last (chg_Revision v # map chg_Revision cs)" "k \<le> length cs"
      using Cons by blast
    with True show ?thesis by (intro exI [of _ "Suc k"]) (auto simp: Let_def)
  next
    case False
    show ?thesis
    proof (cases "send sent ?m")
      case None
      obtain k where "snd (send_changes send request cs (chg_Revision v) (w, sent @ [?m])) =
          (w, (sent @ [?m]) @ deliveries request (take k cs))"
        "\<forall>r'. fst (send_changes send request cs (chg_Revision v) (w, sent @ [?m])) = Inr r' \<longrightarrow>
          take k cs = cs \<and> r' = last (chg_Revision v # map chg_Revision cs)" "k \<le> length cs"
        using Cons by blast
      with False None show ?thesis
        by (intro exI [of _ "Suc k"]) (auto simp: Let_def bindE_apply Send_def)
    next
      case (Some e)
      with False show ?thesis by (intro exI [of _ 0]) (auto simp: Let_def bindE_apply Send_def)
    qed
  qed
qed

lemma watch_loop_extends:
  "watch_loop D send request ctx r (w, sent) = (res, (w', sent')) \<Longrightarrow> \<exists>more. sent' = sent @ more"
proof (induction ctx arbitrary: r w sent)
  case Nil
  then show ?case by (simp add: returnE_apply)
next
  case (Cons c ctx)
  obtain a w1 where a: "Store_Changes D r w = (a, w1)" by fastforce
  show ?case
  proof (cases a)
    case (Inl e)
    then show ?thesis using Cons.prems a by (simp add: bindE_apply in_world_def)
  next
    case (Inr cs)
    obtain b k where b: "send_changes send request cs r (w1, sent) = (b, (w1, sent @ deliveries request (take k cs)))"
      using send_changes_result [of send request cs r w1 sent] by (metis prod.collapse)
    show ?thesis
    proof (cases "c = None \<and> (\<exists>r'. b = Inr r')")
      case True
      then obtain r' where "watch_loop D send request ctx r' (w1, sent @ deliveries request (take k cs)) = (res, (w', sent'))"
        using Cons.prems a Inr b by (auto simp: bindE_apply in_world_def)
      from Cons.IH [OF this] show ?thesis by auto
    next
      case False
      then show ?thesis
        using Cons.prems a Inr b by (cases b; cases c) (auto simp: bindE_apply in_world_def raiseE_apply)
    qed
  qed
qed

text \<open>\<open>Store.Changes\<close> as a function of the reply of its only round trip.\<close>

definition changes_of_reply :: "'s platform \<Rightarrow> reply \<Rightarrow> go_err + Change list" where
  "changes_of_reply D r =
     (case r of
        RErr e \<Rightarrow> Inl (Wrap ''read registry changes'' (ErrText e))
      | RNil \<Rightarrow> Inr []
      | REntries ms \<Rightarrow> Inr (List.map_filter (change_of_message D) ms)
      | _ \<Rightarrow> Inl (Wrap ''read registry changes'' unexpected_reply))"

lemma Store_Changes_apply:
  "Store_Changes D after w =
     (case roundtrip (rcall D (XREAD 128 streamKey (dec after @ ''-0''))) w of
        (Inl err, w') \<Rightarrow> (if errors_Is err RedisNil then Inr [] else Inl (Wrap ''read registry changes'' err), w')
      | (Inr r, w') \<Rightarrow> (changes_of_reply D r, w'))"
proof (cases "roundtrip (rcall D (XREAD 128 streamKey (dec after @ ''-0''))) w")
  case (Pair a b)
  show ?thesis
  proof (cases a)
    case (Inr r)
    with Pair show ?thesis
      by (cases r) (simp_all add: Store_Changes_def client_do_def tryE_apply bindE_apply raiseE_apply
          returnE_apply changes_of_reply_def)
  qed (use Pair in \<open>simp add: Store_Changes_def client_do_def tryE_apply bindE_apply raiseE_apply returnE_apply\<close>)
qed

section \<open>Reading among other clients\<close>

context registry_deps
begin

text \<open>The server has only moved on since its key space was \<open>v\<close>.\<close>

abbreviation since :: "keyspace \<Rightarrow> 's \<Rightarrow> bool" where
  "since v s \<equiv> reg_inv D (view s) \<and> log_grows v (view s)"

lemma since_now: "among D advance (since v) w \<Longrightarrow> among D advance (since (view (db w))) w"
  by (simp add: rely_def)

lemma since_grows: "among D advance (since v) w \<Longrightarrow> log_grows v (view (db w))"
  by (simp add: rely_def)

lemma since_trans: "among D advance (since (view (db w))) w' \<Longrightarrow> log_grows v (view (db w)) \<Longrightarrow> among D advance (since v) w'"
  by (auto simp: rely_def dest: log_grows_trans)

lemmas since_closed = step_closed_history
lemmas since_steps = step_closed_steps [OF step_closed_history]

lemma Store_Changes_among:
  assumes w: "among D advance (since v) w" and after: "after < 2 ^ 64"
    and run: "Store_Changes D after w = (r, w')"
  shows "among D advance (since (view (db w))) w' \<and>
    (\<forall>cs. r = Inr cs \<longrightarrow> cs = take 128 (drop after (reg_changes (abs_reg D (view (db w'))))))"
proof
  show "among D advance (since (view (db w))) w'"
    using keepsD [OF keeps_Store_Changes [OF since_closed] since_now [OF w], of after] run by simp
  let ?f = "rcall D (XREAD 128 streamKey (dec after @ ''-0''))"
  show "\<forall>cs. r = Inr cs \<longrightarrow> cs = take 128 (drop after (reg_changes (abs_reg D (view (db w')))))"
  proof (rule roundtrip_cases [OF w since_steps, of ?f])
    fix s
    assume s: "since v s" and rt: "roundtrip ?f w = (Inr (fst (?f s)), \<lparr>db = snd (?f s), sched = tl (sched w)\<rparr>)"
    have "r = fst (Store_Changes D after (quiet s))" "view (db w') = view s"
      using rt run by (auto simp: Store_Changes_apply roundtrip_quiet xread_view)
    then show ?thesis using Store_Changes_quiet [OF _ after, of s] s by auto
  qed (use run in \<open>auto simp: Store_Changes_apply\<close>)
qed

lemma read_revision_among:
  assumes w: "among D advance (since v) w" and run: "read_revision D w = (Inr n, w')"
  shows "n = revision_of (view (db w'))"
proof (rule roundtrip_cases [OF w since_steps, of "rcall D (GET revisionKey)"])
  fix s
  let ?f = "rcall D (GET revisionKey)"
  assume s: "since v s" and rt: "roundtrip ?f w = (Inr (fst (?f s)), \<lparr>db = snd (?f s), sched = tl (sched w)\<rparr>)"
  have "fst (read_revision D w) = fst (read_revision D (quiet s))" "db (snd (read_revision D w)) = snd (?f s)"
    using rt by (cases "fst (?f s)"; simp add: read_revision_def client_do_def sem_simps split: option.splits)+
  then show ?thesis using run read_revision_quiet [of s] s by (auto simp: get_view)
qed (use run in \<open>auto simp: read_revision_def client_do_def sem_simps\<close>)

text \<open>A method whose last round trip reads the revision returns the revision it leaves behind.\<close>

lemma revision_last:
  assumes "keeps (among D advance (since v)) m" and "among D advance (since v) w"
    and "bindE m (\<lambda>x. bindE (read_revision D) (\<lambda>r. returnE (x, r))) w = (Inr (xs, n), w')"
  shows "n = revision_of (view (db w'))"
proof -
  obtain w1 where "m w = (Inr xs, w1)" "read_revision D w1 = (Inr n, w')"
    using assms(3) by (auto simp: bindE_Inr_iff returnE_apply)
  then show ?thesis using read_revision_among keeps_run [OF assms(1,2)] by blast
qed

lemma Store_List_among:
  assumes w: "among D advance (since v) w" and run: "Store_List D svc w = (Inr (xs, n), w')"
  shows "among D advance (since (view (db w))) w' \<and> n = revision_of (view (db w'))"
proof
  show "among D advance (since (view (db w))) w'"
    using keeps_run [OF keeps_Store_List [OF since_closed] since_now [OF w] run] .
  let ?clean = "\<lambda>stale. if stale \<noteq> [] then tryE (client_do (rcall D) (SREM (serviceKey svc) stale)) (\<lambda>_. returnE ()) else returnE ()"
  let ?m = "bindE (read_members D (serviceKey svc) ''list instance ids'') (\<lambda>ids.
      bindE (list_loop D svc ids [] []) (\<lambda>(inst, stale). bindE (?clean stale) (\<lambda>_. returnE inst)))"
  have "keeps (among D advance (since v)) (?clean stale)" for stale
    by (auto intro!: keeps_try keeps_command [OF since_closed step_cleanup])
  then have m: "keeps (among D advance (since v)) ?m"
    by (auto intro!: keeps_bind keeps_read_members [OF since_closed] keeps_list_loop [OF since_closed] split: prod.splits)
  have "Store_List D svc = bindE ?m (\<lambda>x. bindE (read_revision D) (\<lambda>r. returnE (x, r)))"
    by (simp add: Store_List_def bindE_assoc bindE_returnE case_prod_beta')
  then show "n = revision_of (view (db w'))" using revision_last [OF m w] run by simp
qed

lemma collect_among:
  assumes "among D advance (since v) w" and "r0 \<le> revision_of (view (db w))"
    and "collect_instances D names vals r0 w = (Inr (xs, n), w')"
  shows "among D advance (since (view (db w))) w' \<and> n \<le> revision_of (view (db w'))"
  using assms
proof (induction names arbitrary: w r0 vals v)
  case Nil
  then show ?case using since_now by (auto simp: returnE_apply)
next
  case (Cons m names)
  then obtain ys k w1 where l: "Store_List D m w = (Inr (ys, k), w1)"
      "collect_instances D names (vals @ ys) (if r0 < k then k else r0) w1 = (Inr (xs, n), w')"
    by (auto simp: bindE_Inr_iff)
  note a = Store_List_among [OF Cons.prems(1) l(1)]
  then have "(if r0 < k then k else r0) \<le> revision_of (view (db w1))"
    using Cons.prems(2) since_grows [of "view (db w)" w1] by (auto simp: log_grows_def)
  from Cons.IH [OF conjunct1 [OF a] this l(2)] show ?case
    using since_trans since_grows [OF conjunct1 [OF a]] by blast
qed

lemma Store_Services_among:
  assumes w: "among D advance (since v) w" and run: "Store_Services D w = (Inr (xs, n), w')"
  shows "among D advance (since (view (db w))) w' \<and> n = revision_of (view (db w'))"
proof
  show "among D advance (since (view (db w))) w'"
    using keeps_run [OF keeps_Store_Services [OF since_closed] since_now [OF w] run] .
  show "n = revision_of (view (db w'))"
    using revision_last [OF keeps_read_members [OF since_closed] w] run by (simp add: Store_Services_def)
qed

lemma page_or_panic_world: "page_or_panic xs page psize w = (r, w') \<Longrightarrow> w' = w"
  by (auto simp: page_or_panic_def returnE_apply raiseE_apply split: option.splits)

lemma Service_List_among:
  assumes w: "among D advance (since v) w" and run: "Service_List D request w = (Inr resp, w')"
  shows "among D advance (since (view (db w))) w' \<and> lis_Revision resp \<le> revision_of (view (db w'))"
proof -
  obtain total where "Service_list D request 0 0 w = (Inr (resp, total), w')"
    using run by (auto simp: Service_List_def bindE_Inr_iff returnE_apply)
  then obtain names r0 w1 vals n w2 where
    n: "(if lir_ServiceName request = [] then Store_Services D else returnE ([lir_ServiceName request], 0)) w =
        (Inr (names, r0), w1)"
    and c: "collect_instances D names [] r0 w1 = (Inr (vals, n), w2)" and res: "lis_Revision resp = n" "w' = w2"
    by (auto simp: Service_list_def bindE_Inr_iff returnE_apply raiseE_apply Let_def split: if_splits prod.splits
        dest!: page_or_panic_world)
  have "among D advance (since (view (db w))) w1 \<and> r0 \<le> revision_of (view (db w1))"
    using n Store_Services_among [OF w] since_now [OF w] by (auto simp: returnE_apply split: if_splits)
  then have "among D advance (since (view (db w1))) w2 \<and> n \<le> revision_of (view (db w2))"
    "log_grows (view (db w)) (view (db w1))"
    using collect_among [OF _ _ c] since_grows by blast+
  then show ?thesis using since_trans res by blast
qed

section \<open>What a watch sends\<close>

lemma watch_loop_delivers:
  assumes "among D advance (since v) w" and "r0 \<le> length (reg_changes (abs_reg D (view (db w))))"
    and "watch_loop D send request ctx r0 (w, sent) = (res, (w', sent'))"
  shows "among D advance (since (view (db w))) w' \<and> (\<exists>n.
    r0 + n \<le> length (reg_changes (abs_reg D (view (db w')))) \<and>
    sent' = sent @ deliveries request (take n (drop r0 (reg_changes (abs_reg D (view (db w')))))) \<and>
    (\<forall>r. res = Inr r \<longrightarrow> r = r0 + n))"
  using assms
proof (induction ctx arbitrary: r0 w sent v)
  case Nil
  then show ?case using since_now by (auto simp: returnE_apply)
next
  case (Cons c ctx)
  obtain a w1 where a: "Store_Changes D r0 w = (a, w1)" by fastforce
  have inv: "reg_inv D (view (db w))" using Cons.prems(1) by (simp add: rely_def)
  have "r0 < 2 ^ 64"
    using Cons.prems(2) abs_changes_length [OF inv] by (simp add: max_published_def)
  note f = Store_Changes_among [OF Cons.prems(1) this a]
  let ?H = "reg_changes (abs_reg D (view (db w1)))"
  have w1: "among D advance (since (view (db w))) w1" "reg_inv D (view (db w1))" using f by (auto simp: rely_def)
  have grow: "length (reg_changes (abs_reg D (view (db w)))) \<le> length ?H"
    using since_grows [OF w1(1)] abs_changes_grow prefix_length_le by blast
  show ?case
  proof (cases a)
    case (Inl e)
    then have "w' = w1 \<and> sent' = sent \<and> (\<exists>e. res = Inl e)"
      using Cons.prems(3) a by (auto simp: bindE_apply in_world_def)
    then show ?thesis using w1 grow Cons.prems(2) by (intro conjI exI [of _ 0]) auto
  next
    case (Inr cs)
    have cs: "cs = take 128 (drop r0 ?H)" using f Inr by simp
    have len: "r0 + length cs \<le> length ?H" using grow Cons.prems(2) by (simp add: cs)
    have last: "last (r0 # map chg_Revision cs) = r0 + length cs"
      using changes_window [OF w1(2), of 128 r0] cs by (cases "cs = []") (auto simp del: upt_Suc)
    obtain b k where b: "send_changes send request cs r0 (w1, sent) = (b, (w1, sent @ deliveries request (take k cs)))"
        "\<forall>r'. b = Inr r' \<longrightarrow> take k cs = cs \<and> r' = r0 + length cs" "k \<le> length cs"
      using send_changes_result [of send request cs r0 w1 sent] last by (metis prod.collapse)
    have "k \<le> 128" using b(3) by (simp add: cs)
    then have win: "take k cs = take k (drop r0 ?H)" by (simp add: cs min_def)
    show ?thesis
    proof (cases "c = None \<and> (\<exists>r'. b = Inr r')")
      case False
      then have "w' = w1 \<and> sent' = sent @ deliveries request (take k cs) \<and> (\<exists>e. res = Inl e)"
        using Cons.prems(3) a Inr b(1)
        by (cases b; cases c) (auto simp: bindE_apply in_world_def raiseE_apply)
      then show ?thesis using w1 len b(3) win by (intro conjI exI [of _ k]) auto
    next
      case True
      then have ok: "b = Inr (r0 + length cs)" "take k cs = cs" "c = None" using b(2) by auto
      have rec: "watch_loop D send request ctx (r0 + length cs) (w1, sent @ deliveries request cs) = (res, (w', sent'))"
        using Cons.prems(3) a Inr b(1) ok by (simp add: bindE_apply in_world_def)
      obtain n where n: "among D advance (since (view (db w1))) w'"
          "r0 + length cs + n \<le> length (reg_changes (abs_reg D (view (db w'))))"
          "sent' = (sent @ deliveries request cs) @
             deliveries request (take n (drop (r0 + length cs) (reg_changes (abs_reg D (view (db w'))))))"
          "\<forall>r. res = Inr r \<longrightarrow> r = r0 + length cs + n"
        using Cons.IH [OF w1(1) len rec] by blast
      let ?H' = "reg_changes (abs_reg D (view (db w')))"
      have "cs = take (length cs) (drop r0 ?H)" using cs by (metis append_eq_conv_conj append_take_drop_id)
      also have "\<dots> = take (length cs) (drop r0 ?H')"
        using abs_changes_grow [OF since_grows [OF n(1)], of D] len by (auto simp: prefix_def)
      finally have "take (length cs + n) (drop r0 ?H') = cs @ take n (drop (r0 + length cs) ?H')"
        by (metis take_add drop_drop add.commute)
      then have "sent' = sent @ deliveries request (take (length cs + n) (drop r0 ?H'))"
        using n(3) by (simp add: deliveries_append)
      then show ?thesis
        using n since_trans since_grows [OF w1(1)]
        by (intro conjI exI [of _ "length cs + n"]) (auto simp: add.assoc)
    qed
  qed
qed

end

text \<open>
  C12. Whatever other clients and the network do, a watch that has sent anything has sent one
  snapshot and then, for every change of the history after the snapshot's revision and up to some
  point, in order, without a gap and without repetition, one message for each change of the watched
  service. The revision the loop goes on from is exactly that point.
\<close>

theorem watch_in_order:
  assumes "registry_deps D view advance" and "reg_inv D (view (db w))"
    and "\<forall>(others, n) \<in> set (sched w). \<forall>s. (srv_step D advance)\<^sup>*\<^sup>* s (others s)"
    and "WatchService D send request ctx (w, []) = (res, (w', sent))"
  shows "sent = [] \<or> max_published < wsr_Revision (hd sent) \<or>
    (\<exists>first n. wsr_Revision first + n \<le> length (reg_changes (abs_reg D (view (db w')))) \<and>
      sent = first # deliveries request (take n (drop (wsr_Revision first) (reg_changes (abs_reg D (view (db w')))))) \<and>
      (\<forall>r. res = Inr r \<longrightarrow> r = wsr_Revision first + n))"
proof -
  let ?q = "\<lparr>lir_ServiceName = wq_ServiceName request, lir_Selector = wq_Selector request,
      lir_IncludeDraining = wq_IncludeDraining request\<rparr>"
  let ?P = "\<lambda>s. reg_inv D (view s) \<and> log_grows (view (db w)) (view s)"
  have w: "among D advance ?P w" using assms(2,3) by (simp add: rely_def)
  obtain l w1 where l: "Service_List D ?q w = (l, w1)" by fastforce
  show ?thesis
  proof (cases l)
    case (Inl e)
    then show ?thesis using assms(4) l by (auto simp: WatchService_def bindE_apply in_world_def)
  next
    case (Inr initial)
    let ?first = "\<lparr>wsr_Revision = lis_Revision initial, wsr_Changes = map snapshot_change (lis_Instances initial)\<rparr>"
    have w1: "among D advance ?P w1" "lis_Revision initial \<le> revision_of (view (db w1))"
      using registry_deps.Service_List_among [OF assms(1) w, of ?q initial w1] l Inr by auto
    have inv1: "reg_inv D (view (db w1))" using w1(1) by (simp add: rely_def)
    show ?thesis
    proof (cases "send [] ?first")
      case (Some e)
      then show ?thesis using assms(4) l Inr by (auto simp: WatchService_def bindE_apply in_world_def Send_def)
    next
      case None
      have run: "watch_loop D send request ctx (lis_Revision initial) (w1, [?first]) = (res, (w', sent))"
        using assms(4) l Inr None by (simp add: WatchService_def bindE_apply in_world_def Send_def)
      show ?thesis
      proof (cases "lis_Revision initial \<le> max_published")
        case True
        then have "lis_Revision initial \<le> length (reg_changes (abs_reg D (view (db w1))))"
          using w1(2) abs_changes_length [OF inv1] by simp
        from registry_deps.watch_loop_delivers [OF assms(1) w1(1) this run] obtain n where
          "lis_Revision initial + n \<le> length (reg_changes (abs_reg D (view (db w'))))"
          "sent = [?first] @ deliveries request (take n (drop (lis_Revision initial) (reg_changes (abs_reg D (view (db w'))))))"
          "\<forall>r. res = Inr r \<longrightarrow> r = lis_Revision initial + n" by blast
        then show ?thesis by (intro disjI2 exI [of _ ?first] exI [of _ n]) simp
      next
        case False
        then show ?thesis using watch_loop_extends [OF run] by auto
      qed
    qed
  qed
qed

definition demo_watch :: WatchServiceRequest where
  "demo_watch = \<lparr>wq_ServiceName = ''billing'', wq_Selector = fmempty, wq_IncludeDraining = False\<rparr>"

theorem watch_in_order_witness:
  "\<exists>res w' sent. WatchService mem_platform (\<lambda>_ _. None) demo_watch [None, Some Canceled]
       (\<lparr>db = demo_leased, sched = [(mem_advance 5, Reply)]\<rparr>, []) = (res, (w', sent)) \<and>
     (sent = [] \<or> max_published < wsr_Revision (hd sent) \<or>
      (\<exists>first n. wsr_Revision first + n \<le> length (reg_changes (abs_reg mem_platform (mem_view (db w')))) \<and>
        sent = first # deliveries demo_watch (take n (drop (wsr_Revision first) (reg_changes (abs_reg mem_platform (mem_view (db w')))))) \<and>
        (\<forall>r. res = Inr r \<longrightarrow> r = wsr_Revision first + n)))"
proof -
  let ?w = "\<lparr>db = demo_leased, sched = [(mem_advance 5, Reply)]\<rparr>"
  obtain res w' sent where r: "WatchService mem_platform (\<lambda>_ _. None) demo_watch [None, Some Canceled] (?w, []) = (res, (w', sent))"
    by (metis surj_pair)
  have "\<forall>(others, n) \<in> set (sched ?w). \<forall>s. (srv_step mem_platform mem_advance)\<^sup>*\<^sup>* s (others s)"
    by (auto intro!: r_into_rtranclp step_tick)
  moreover have "reg_inv mem_platform (mem_view (db ?w))" using sound_leased by (simp add: sound_def)
  ultimately show ?thesis using watch_in_order [OF mem_deps _ _ r] r by blast
qed

section \<open>Status codes of the handlers\<close>

lemma registryError_sentinels [simp]:
  "registryError ErrAlreadyRegistered = Status AlreadyExists ''instance is already registered''"
  "registryError ErrNotFound = Status NotFound ''instance was not found''"
  "registryError ErrLeaseNotOwned = Status PermissionDenied ''lease is not owned''"
  by (simp_all add: registryError_def)

lemma with_registryError_quiet:
  "f (quiet s) = (r, quiet s') \<Longrightarrow> with_registryError f (quiet s) = (map_sum registryError id r, quiet s')"
  by (cases r) (simp_all add: with_registryError_def tryE_apply raiseE_apply returnE_apply)

text \<open>
  The removal handler answers with the status the outcome calls for: not found for a name that
  is not leased, permission denied for a token that does not own the lease, and otherwise success with
  the number of the published change.
\<close>

lemma deregister_status:
  assumes "registry_deps D view advance" and "sound D (view s)" and "revision_of (view s) < max_published"
    and "CHR '':'' \<notin> set (dir_ServiceName request)"
  shows "fst (DeregisterInstance D request (quiet s)) =
    (case lease_at D (view s) (dir_ServiceName request) (dir_InstanceId request) of
       None \<Rightarrow> Inl (Status NotFound ''instance was not found'')
     | Some l \<Rightarrow>
         if ls_Owner l \<noteq> hashToken D (dir_LeaseToken request)
         then Inl (Status PermissionDenied ''lease is not owned'')
         else Inr (Suc (revision_of (view s))))"
proof -
  have len: "length (reg_changes (abs_reg D (view s))) = revision_of (view s)"
    using abs_changes_length [of D "view s"] assms(2,3) by (simp add: sound_def)
  obtain s' where "Service_Deregister D request (quiet s) =
      (fst (spec_deregister (dir_ServiceName request) (dir_InstanceId request)
         (hashToken D (dir_LeaseToken request)) (abs_reg D (view s))), quiet s')"
    using registry_deps.Service_Deregister_refines [OF assms] by blast
  from with_registryError_quiet [of "Service_Deregister D request", OF this] show ?thesis
    using assms(4) len
    by (auto simp: DeregisterInstance_def spec_deregister_def Let_def split: option.splits)
qed

lemma deregister_status_example:
  "fst (DeregisterInstance mem_platform \<lparr>dir_ServiceName = ''billing'', dir_InstanceId = ''one'',
      dir_LeaseToken = ''guess''\<rparr> (quiet demo_leased)) = Inl (Status PermissionDenied ''lease is not owned'')"
proof -
  have "hashToken mem_platform ''secret'' \<noteq> hashToken mem_platform ''guess''"
    by (simp add: hashToken_def hex_inj)
  then show ?thesis
    using deregister_status [OF mem_deps sound_leased, of "\<lparr>dir_ServiceName = ''billing'', dir_InstanceId = ''one'',
        dir_LeaseToken = ''guess''\<rparr>"]
    by (simp add: demo_revision demo_lease max_published_def)
qed

end
