(* ===== verification/RegistryRaces.thy ===== *)
theory RegistryRaces
  imports GrpcRegistry
begin

text \<open>
  Where the registry does not do what a user would expect of it, each proved on the model: a race
  that hides a live instance from listings, a status change that fails in the last millisecond of a
  lease, a removal that leaves its name in the index of the service, filters that differ between a
  listing and a watch, and failures of Redis reported as invalid requests.
\<close>

section \<open>Cleaning up stale members races with registration\<close>

lemma client_do_reply_now:
  assumes "sched w = (others, Reply) # rest"
  shows "client_do call c w =
    (case fst (call c (others (db w))) of RErr e \<Rightarrow> Inl (ErrText e) | RNil \<Rightarrow> Inl RedisNil | r \<Rightarrow> Inr r,
     \<lparr>db = snd (call c (others (db w))), sched = rest\<rparr>)"
  using assms by (simp add: client_do_def roundtrip_Cons bindE_apply raiseE_apply returnE_apply Let_def
      split: reply.splits)

context registry_deps
begin

text \<open>
  One listing of a service whose only member is stale. Between the \<open>GET\<close> that misses the
  instance and the \<open>SREM\<close> that drops it from the index, the instance registers again.
\<close>

lemma cleanup_race:
  assumes inv: "sound D (view s)" and nc: "CHR '':'' \<notin> set svc"
    and one: "members (view s) (serviceKey svc) = {ins}" and gone: "lease_at D (view s) svc ins = None"
    and others: "\<And>s'. view s' = view s \<Longrightarrow> sound D (view (others s')) \<and> lease_at D (view (others s')) svc ins = Some l"
  shows "\<exists>n s'. Store_List D svc \<lparr>db = s, sched = [(id, Reply), (id, Reply), (others, Reply)]\<rparr> = (Inr ([], n), quiet s') \<and>
    lease_at D (view s') svc ins = Some l \<and> ins \<notin> members (view s') (serviceKey svc) \<and> reg_inv D (view s')"
proof -
  let ?w = "\<lparr>db = s, sched = [(id, Reply), (id, Reply), (others, Reply)]\<rparr>"
  have ri: "reg_inv D (view s)" using inv by (simp add: sound_def)
  define s1 where "s1 = snd (rcall D (SMEMBERS (serviceKey svc)) s)"
  define s2 where "s2 = snd (rcall D (GET (instanceKey svc ins)) s1)"
  define s3 where "s3 = snd (rcall D (SREM (serviceKey svc) [ins]) (others s2))"
  obtain ids where ids: "fst (rcall D (SMEMBERS (serviceKey svc)) s) = RArr ids" "distinct ids" "set ids = {ins}"
    using smembers_set [of s "serviceKey svc" "{ins}"] members_slot [of "view s", OF reg_inv_slots(1) [OF ri, of svc]] one
    by auto
  have i: "ids = [ins]"
    using ids(2,3) by (cases ids; cases "tl ids") auto
  have v: "view s1 = view s" "view s2 = view s" by (simp_all add: s1_def s2_def smembers_view get_view)
  have o: "reg_inv D (view (others s2))" "lease_at D (view (others s2)) svc ins = Some l"
    using others [OF v(2)] by (simp_all add: sound_def)
  note rem = srem_slot [OF reg_inv_slots(1) [OF o(1)], of svc "[ins]", folded s3_def]
  obtain m where m: "fst (rcall D (SREM (serviceKey svc) [ins]) (others s2)) = RInt m" using rem(1) by blast
  have v3: "view s3 = unindexed (view (others s2)) svc {ins}" using rem(2) by simp
  have inv3: "reg_inv D (view s3)" unfolding v3 by (rule reg_inv_unindexed [OF o(1)])
  obtain s4 where s4: "read_revision D (quiet s3) = (Inr (revision_of (view s3)), quiet s4)" "view s4 = view s3"
    using read_revision_quiet [OF inv3] by blast
  have "read_members D (serviceKey svc) ''list instance ids'' ?w =
      (Inr [ins], \<lparr>db = s1, sched = [(id, Reply), (others, Reply)]\<rparr>)"
    by (simp add: read_members_def tryE_apply client_do_reply_now ids i returnE_apply s1_def)
  moreover have "Store_Get D svc ins \<lparr>db = s1, sched = [(id, Reply), (others, Reply)]\<rparr> =
      (Inl ErrNotFound, \<lparr>db = s2, sched = [(others, Reply)]\<rparr>)"
    using gone lease_at_None [OF ri, of svc ins]
    by (simp add: Store_Get_def tryE_apply client_do_reply_now get_reply v(1) raiseE_apply s2_def)
  moreover have "client_do (rcall D) (SREM (serviceKey svc) [ins]) \<lparr>db = s2, sched = [(others, Reply)]\<rparr> =
      (Inr (RInt m), quiet s3)"
    by (simp add: client_do_reply_now m s3_def quiet_def)
  ultimately have "Store_List D svc ?w = (Inr ([], revision_of (view s3)), quiet s4)"
    using s4(1) by (simp add: Store_List_def bindE_apply tryE_apply returnE_apply)
  moreover have "lease_at D (view s4) svc ins = Some l" using o(2) by (simp add: s4(2) v3 lease_at_unindexed)
  moreover have "ins \<notin> members (view s4) (serviceKey svc)" by (simp add: s4(2) v3 members_unindexed)
  ultimately show ?thesis using inv3 s4(2) by auto
qed

lemma update_members:
  assumes inv: "reg_inv D (view s)" and l: "int64 l"
  shows "members (view (snd (update_script_for D i p t l s))) (serviceKey svc) = members (view s) (serviceKey svc)"
proof (rule lease_slot [OF inv, of "si_ServiceName i" "si_InstanceId i"])
  let ?s = "si_ServiceName i" and ?i = "si_InstanceId i"
  assume "view s (tokenKey ?s ?i) = None"
  from update_rejects(1) [OF this, of p t l] show ?thesis by auto
next
  let ?s = "si_ServiceName i" and ?i = "si_InstanceId i"
  fix h y
  assume tok: "view s (tokenKey ?s ?i) = Some (RStr h, Some y)"
  have b: "duration_Milliseconds l < 2 ^ 63" "- (2 ^ 63) \<le> duration_Milliseconds l"
    using int64_Milliseconds [OF l] by (simp_all add: int64_def)
  consider "h \<noteq> hashToken D t" | "h = hashToken D t" "duration_Milliseconds l \<le> 0"
    | "h = hashToken D t" "0 < duration_Milliseconds l" by fastforce
  then show ?thesis
  proof cases
    case 1
    from update_rejects(2) [OF tok this, of p l] show ?thesis by auto
  next
    case 2
    from update_bad_lease [OF tok [unfolded 2(1)] 2(2) b(2), of p] show ?thesis by auto
  next
    case 3
    from update_effect [OF inv tok [unfolded 3(1)] 3(2) b(1), of p] show ?thesis
      by (intro members_cong)
        (auto simp: publish_outcome_def published_def leased_other key_simps split: if_splits)
  qed
qed

lemma Store_Update_members:
  assumes "reg_inv D (view s)" and "int64 l"
  shows "members (view (db (snd (Store_Update D i t l (quiet s))))) (serviceKey svc) = members (view s) (serviceKey svc)"
  using update_members [OF assms]
  by (auto simp: Store_Update_def run_mapped_apply raiseE_apply split: sum.splits prod.splits dest!: arg_cong [where f = snd])

lemma Service_Renew_members:
  assumes inv: "reg_inv D (view s)"
  shows "members (view (db (snd (Service_Renew D now r (quiet s))))) (serviceKey svc) = members (view s) (serviceKey svc)"
proof (cases "lease_at D (view s) (rlr_ServiceName r) (rlr_InstanceId r)")
  case None
  then show ?thesis
    using Store_Get_quiet [OF inv, of "rlr_ServiceName r" "rlr_InstanceId r"] by (auto simp: Service_Renew_def bindE_apply)
next
  case (Some x)
  obtain s1 where s1: "Store_Get D (rlr_ServiceName r) (rlr_InstanceId r) (quiet s) = (Inr (ls_Instance x), quiet s1)"
      "view s1 = view s"
    using Store_Get_quiet [OF inv, of "rlr_ServiceName r" "rlr_InstanceId r"] Some by auto
  have "members (view (db (snd (Store_Update D i t (leaseDuration n) (quiet s1))))) (serviceKey svc) =
      members (view s) (serviceKey svc)" for i t n
    using Store_Update_members [of s1 "leaseDuration n"] inv s1(2) leaseDuration_ms(1) by simp
  then show ?thesis
    using s1(1)
    by (simp add: Service_Renew_def bindE_apply [of "Store_Get D _ _"] Let_def snd_bind_return)
qed

lemma unindexed_not_listed:
  assumes inv: "reg_inv D (view s)" and nc: "CHR '':'' \<notin> set svc" and "ins \<notin> members (view s) (serviceKey svc)"
    and "fst (Store_List D svc (quiet s)) = Inr (xs, n)"
  shows "ins \<notin> si_InstanceId ` set xs"
proof -
  obtain ids where "xs = live D (view s) svc ids" "set ids = members (view s) (serviceKey svc)"
    using Store_List_quiet [OF inv, of svc] assms(4) by auto
  moreover have "si_InstanceId ` set xs = set (map si_InstanceId xs)" by simp
  ultimately show ?thesis using assms(3) by (simp add: live_ids(1) [OF inv nc] del: set_map)
qed

end

text \<open>
  C14. A listing that cleans up a stale member hides an instance that registers again at the wrong
  moment: the registration succeeds, the instance is live and can be fetched by name, but it is no
  longer in the index of its service, so no later listing returns it, and renewing its lease does not
  put it back.
\<close>

theorem cleanup_hides_live_instance:
  assumes "registry_deps D view advance" and "sound D (view s)" and "revision_of (view s) < max_published"
    and "rir_Instance request = Some i" and "validateInstance D (Some i) = None" and "inst_utf8 i"
    and "members (view s) (serviceKey (si_ServiceName i)) = {si_InstanceId i}"
    and "lease_at D (view s) (si_ServiceName i) (si_InstanceId i) = None"
  shows "\<exists>n s'. Store_List D (si_ServiceName i)
        \<lparr>db = s, sched = [(id, Reply), (id, Reply),
           (\<lambda>x. db (snd (Service_Register D (Inr bytes) now request (quiet x))), Reply)]\<rparr> = (Inr ([], n), quiet s') \<and>
      fst (Service_Get D (si_ServiceName i) (si_InstanceId i) (quiet s')) = Inr (new_instance request now) \<and>
      (\<forall>xs k. fst (Store_List D (si_ServiceName i) (quiet s')) = Inr (xs, k) \<longrightarrow> si_InstanceId i \<notin> si_InstanceId ` set xs) \<and>
      (\<forall>now r. si_InstanceId i \<notin> members (view (db (snd (Service_Renew D now r (quiet s'))))) (serviceKey (si_ServiceName i)))"
proof -
  let ?svc = "si_ServiceName i" and ?ins = "si_InstanceId i"
  let ?x = "\<lparr>ls_Instance = new_instance request now, ls_Owner = hashToken D (base64_RawURL_EncodeToString bytes),
     ls_Millis = lease_millis (rir_LeaseSeconds request)\<rparr>"
  let ?o = "\<lambda>x. db (snd (Service_Register D (Inr bytes) now request (quiet x)))"
  have valid: "re_match namePattern ?svc" "?ins \<noteq> []" using assms(5) by (simp_all add: validateInstance_None)
  have nc: "CHR '':'' \<notin> set ?svc" using valid(1) by (rule namePattern_no_colon)
  have free: "reg_leases (abs_reg D (view s)) (?svc, ?ins) = None" using assms(8) nc by simp
  have names: "si_ServiceName (new_instance request now) = ?svc" "si_InstanceId (new_instance request now) = ?ins"
    using assms(4) by (simp_all add: new_instance_def)
  have o: "sound D (view (?o t)) \<and> lease_at D (view (?o t)) ?svc ?ins = Some ?x" if "view t = view s" for t
  proof -
    have "sound D (view t)" "revision_of (view t) < max_published" using assms(2,3) that by simp_all
    from registry_deps.Service_Register_refines [OF assms(1) this assms(4-6), of bytes now] obtain s' where
      r: "db (snd (Service_Register D (Inr bytes) now request (quiet t))) = s'" "sound D (view s')"
      and a: "abs_reg D (view s') = snd (spec_register (new_instance request now)
        (hashToken D (base64_RawURL_EncodeToString bytes)) (lease_millis (rir_LeaseSeconds request)) (abs_reg D (view t)))"
      by auto
    have "reg_leases (abs_reg D (view s')) (?svc, ?ins) = Some ?x"
      using a free that names by (simp add: spec_register_def spec_put_def Let_def del: abs_leases)
    then show ?thesis using r nc by simp
  qed
  obtain n s' where l: "Store_List D ?svc \<lparr>db = s, sched = [(id, Reply), (id, Reply), (?o, Reply)]\<rparr> = (Inr ([], n), quiet s')"
      "lease_at D (view s') ?svc ?ins = Some ?x" "?ins \<notin> members (view s') (serviceKey ?svc)" "reg_inv D (view s')"
    using registry_deps.cleanup_race [OF assms(1,2) nc assms(7,8), of ?o ?x] o by blast
  have "fst (Service_Get D ?svc ?ins (quiet s')) = Inr (new_instance request now)"
    using registry_deps.Store_Get_quiet [OF assms(1) l(4), of ?svc ?ins] l(2) valid by (auto simp: Service_Get_def)
  then show ?thesis
    using l registry_deps.unindexed_not_listed [OF assms(1) l(4) nc l(3)]
      registry_deps.Service_Renew_members [OF assms(1) l(4)]
    by (intro exI [of _ n] exI [of _ s']) auto
qed

theorem cleanup_hides_live_instance_witness:
  "\<exists>n s'. Store_List mem_platform ''billing''
        \<lparr>db = demo_stale, sched = [(id, Reply), (id, Reply),
           (\<lambda>x. db (snd (Service_Register mem_platform (Inr ''0123'') 5 demo_request (quiet x))), Reply)]\<rparr> = (Inr ([], n), quiet s') \<and>
      fst (Service_Get mem_platform ''billing'' ''one'' (quiet s')) = Inr (new_instance demo_request 5)"
proof -
  have "members (mem_view demo_stale) (serviceKey ''billing'') = {''one''}"
      "lease_at mem_platform (mem_view demo_stale) ''billing'' ''one'' = None"
      "revision_of (mem_view demo_stale) < max_published"
    by (simp_all add: view_stale members_def lease_at_def revision_of_def key_simps max_published_def)
  then show ?thesis
    using cleanup_hides_live_instance [OF mem_deps sound_stale _ demo_deps_request demo_valid demo_utf8, of "''0123''" 5]
    by auto
qed

section \<open>A snapshot can hide a removal from its watcher\<close>

context registry_deps
begin

lemma deregister_now:
  assumes snd: "sound D (view s)" and room': "Suc (revision_of (view s)) < max_published" and nc: "CHR '':'' \<notin> set svc"
    and at: "lease_at D (view s) svc ins = Some l" and own: "hashToken D t = ls_Owner l"
  shows "\<exists>s'. Service_Deregister D \<lparr>dir_ServiceName = svc, dir_InstanceId = ins, dir_LeaseToken = t\<rparr> (quiet s) =
      (Inr (Suc (revision_of (view s))), quiet s') \<and> sound D (view s') \<and> lease_at D (view s') svc ins = None \<and>
    revision_of (view s') = Suc (revision_of (view s)) \<and>
    reg_changes (abs_reg D (view s')) = reg_changes (abs_reg D (view s)) @ [delete_change (Suc (revision_of (view s))) svc ins]"
proof -
  let ?r = "\<lparr>dir_ServiceName = svc, dir_InstanceId = ins, dir_LeaseToken = t\<rparr>"
  have room: "revision_of (view s) < max_published" using room' by simp
  have len: "length (reg_changes (abs_reg D (view s))) = revision_of (view s)"
    using abs_changes_length [of D "view s"] snd room by (simp add: sound_def)
  have at': "reg_leases (abs_reg D (view s)) (svc, ins) = Some l" using at nc by simp
  obtain s' where s': "Service_Deregister D ?r (quiet s) = (Inr (Suc (revision_of (view s))), quiet s')" "sound D (view s')"
      "abs_reg D (view s') = (abs_reg D (view s))\<lparr>reg_leases := (reg_leases (abs_reg D (view s)))((svc, ins) := None),
         reg_changes := reg_changes (abs_reg D (view s)) @ [delete_change (Suc (revision_of (view s))) svc ins]\<rparr>"
    using Service_Deregister_refines [OF snd room, of ?r] nc at' own len
    by (auto simp: spec_deregister_def Let_def simp del: abs_leases)
  have c: "reg_changes (abs_reg D (view s')) = reg_changes (abs_reg D (view s)) @ [delete_change (Suc (revision_of (view s))) svc ins]"
    using s'(3) by simp
  have "reg_leases (abs_reg D (view s')) (svc, ins) = None" by (simp add: s'(3) del: abs_leases)
  moreover have "length (reg_changes (abs_reg D (view s'))) = Suc (revision_of (view s))" using c len by simp
  then have "revision_of (view s') = Suc (revision_of (view s))"
    using abs_changes_length [of D "view s'"] s'(2) room' by (auto simp: sound_def min_def split: if_splits)
  ultimately show ?thesis using s'(1,2) c nc by auto
qed

lemma snapshot_race:
  assumes snd: "sound D (view s)" and nc: "CHR '':'' \<notin> set svc"
    and one: "members (view s) (serviceKey svc) = {ins}" and at: "lease_at D (view s) svc ins = Some l"
    and others: "\<And>s'. view s' = view s \<Longrightarrow> sound D (view (others s')) \<and> P (view (others s'))"
  shows "\<exists>s'. Store_List D svc \<lparr>db = s, sched = [(id, Reply), (id, Reply), (others, Reply)]\<rparr> =
      (Inr ([ls_Instance l], revision_of (view s')), quiet s') \<and> sound D (view s') \<and> P (view s')"
proof -
  let ?w = "\<lparr>db = s, sched = [(id, Reply), (id, Reply), (others, Reply)]\<rparr>"
  have ri: "reg_inv D (view s)" using snd by (simp add: sound_def)
  define s1 where "s1 = snd (rcall D (SMEMBERS (serviceKey svc)) s)"
  define s2 where "s2 = snd (rcall D (GET (instanceKey svc ins)) s1)"
  define s3 where "s3 = snd (rcall D (GET revisionKey) (others s2))"
  obtain ids where ids: "fst (rcall D (SMEMBERS (serviceKey svc)) s) = RArr ids" "distinct ids" "set ids = {ins}"
    using smembers_set [of s "serviceKey svc" "{ins}"] members_slot [of "view s", OF reg_inv_slots(1) [OF ri, of svc]] one
    by auto
  have i: "ids = [ins]"
    using ids(2,3) by (cases ids; cases "tl ids") auto
  have v: "view s1 = view s" "view s2 = view s" by (simp_all add: s1_def s2_def smembers_view get_view)
  note o = others [OF v(2)]
  have v3: "view s3 = view (others s2)" by (simp add: s3_def get_view)
  have "read_members D (serviceKey svc) ''list instance ids'' ?w =
      (Inr [ins], \<lparr>db = s1, sched = [(id, Reply), (others, Reply)]\<rparr>)"
    by (simp add: read_members_def tryE_apply client_do_reply_now ids i returnE_apply s1_def)
  moreover have "Store_Get D svc ins \<lparr>db = s1, sched = [(id, Reply), (others, Reply)]\<rparr> =
      (Inr (ls_Instance l), \<lparr>db = s2, sched = [(others, Reply)]\<rparr>)"
    using at
    by (rule_tac lease_cases [OF ri, of svc ins])
      (auto simp: Store_Get_def tryE_apply client_do_reply_now get_reply v(1) returnE_apply s2_def)
  moreover have "read_revision D \<lparr>db = s2, sched = [(others, Reply)]\<rparr> = (Inr (revision_of (view s3)), quiet s3)"
  proof -
    have "fst (read_revision D \<lparr>db = s2, sched = [(others, Reply)]\<rparr>) = fst (read_revision D (quiet (others s2)))"
      by (simp add: read_revision_def tryE_apply client_do_reply_now client_do_quiet raiseE_apply returnE_apply
          split: reply.splits option.splits)
    moreover have "snd (read_revision D \<lparr>db = s2, sched = [(others, Reply)]\<rparr>) = quiet s3"
      by (simp add: read_revision_def tryE_apply client_do_reply_now raiseE_apply returnE_apply s3_def quiet_def
          split: reply.splits option.splits)
    ultimately show ?thesis
      using read_revision_quiet [of "others s2"] o v3 by (auto simp: sound_def prod_eq_iff)
  qed
  ultimately have "Store_List D svc ?w = (Inr ([ls_Instance l], revision_of (view s3)), quiet s3)"
    by (simp add: Store_List_def bindE_apply tryE_apply returnE_apply)
  then show ?thesis using o v3 by auto
qed

end



section \<open>A renewal can undo a status change\<close>

lemma run_mapped_reply_now: "run_mapped f \<lparr>db = s, sched = [(others, Reply)]\<rparr> = run_mapped f (quiet (others s))"
  by (simp add: run_mapped_def script_Run_def tryE_apply bindE_apply roundtrip_Cons roundtrip_quiet Let_def
      flip: quiet_def)

context registry_deps
begin

lemma renew_race:
  assumes snd: "sound D (view s)" and nc: "CHR '':'' \<notin> set svc" and at: "lease_at D (view s) svc ins = Some l"
    and others: "\<And>s'. view s' = view s \<Longrightarrow> sound D (view (others s')) \<and> revision_of (view (others s')) < max_published \<and>
      (\<exists>l'. lease_at D (view (others s')) svc ins = Some l' \<and> ls_Owner l' = ls_Owner l)"
    and own: "hashToken D t = ls_Owner l"
  shows "\<exists>n s'. Service_Renew D now \<lparr>rlr_ServiceName = svc, rlr_InstanceId = ins, rlr_LeaseToken = t, rlr_LeaseSeconds = k\<rparr>
        \<lparr>db = s, sched = [(id, Reply), (others, Reply)]\<rparr> = (Inr \<lparr>ir_Instance = renewed now k (ls_Instance l), ir_Revision = n\<rparr>, quiet s') \<and>
    lease_at D (view s') svc ins = Some \<lparr>ls_Instance = renewed now k (ls_Instance l), ls_Owner = ls_Owner l, ls_Millis = lease_millis k\<rparr>"
proof -
  let ?x = "renewed now k (ls_Instance l)"
  have ri: "reg_inv D (view s)" using snd by (simp add: sound_def)
  define s1 where "s1 = snd (rcall D (GET (instanceKey svc ins)) s)"
  have v1: "view s1 = view s" by (simp add: s1_def get_view)
  obtain l' where o: "sound D (view (others s1))" "revision_of (view (others s1)) < max_published"
      "lease_at D (view (others s1)) svc ins = Some l'" "ls_Owner l' = ls_Owner l"
    using others [OF v1] by blast
  have get: "Store_Get D svc ins \<lparr>db = s, sched = [(id, Reply), (others, Reply)]\<rparr> =
      (Inr (ls_Instance l), \<lparr>db = s1, sched = [(others, Reply)]\<rparr>)"
    using at
    by (rule_tac lease_cases [OF ri, of svc ins])
      (auto simp: Store_Get_def tryE_apply client_do_reply_now get_reply returnE_apply s1_def)
  have names: "si_ServiceName ?x = svc" "si_InstanceId ?x = ins" "inst_ok ?x"
    using lease_at_names [OF ri at nc] by simp_all
  obtain p where p: "json_Marshal D ?x = Inr p"
    using marshalE [of ?x] names(3) unfolding inst_ok_def by blast
  have upd: "Store_Update D ?x t (leaseDuration k) \<lparr>db = s1, sched = [(others, Reply)]\<rparr> =
      Store_Update D ?x t (leaseDuration k) (quiet (others s1))"
    using p by (simp add: Store_Update_def run_mapped_reply_now)
  have lt: "reg_leases (abs_reg D (view (others s1))) (svc, ins) = Some l'" using o(3) nc by simp
  obtain n s' where s': "Store_Update D ?x t (leaseDuration k) (quiet (others s1)) = (Inr n, quiet s')"
      "reg_leases (abs_reg D (view s')) (svc, ins) = Some \<lparr>ls_Instance = ?x, ls_Owner = ls_Owner l, ls_Millis = lease_millis k\<rparr>"
    using Store_Update_refines [OF _ names(3) leaseDuration_ms o(2), of t k] o(1,4) lt names own
    by (auto simp: sound_def spec_update_def spec_put_def Let_def lease_millis_def simp del: abs_leases)
  have "Service_Renew D now \<lparr>rlr_ServiceName = svc, rlr_InstanceId = ins, rlr_LeaseToken = t, rlr_LeaseSeconds = k\<rparr>
        \<lparr>db = s, sched = [(id, Reply), (others, Reply)]\<rparr> = (Inr \<lparr>ir_Instance = ?x, ir_Revision = n\<rparr>, quiet s')"
    using get upd s'(1) by (simp add: Service_Renew_def bindE_apply Let_def returnE_apply renewed_def)
  then show ?thesis using s'(2) nc by auto
qed

end

context registry_deps
begin

lemma status_now:
  assumes snd: "sound D (view s)" and room': "Suc (revision_of (view s)) < max_published" and nc: "CHR '':'' \<notin> set svc"
    and at: "lease_at D (view s) svc ins = Some l" and own: "hashToken D t = ls_Owner l"
    and left: "time_Millisecond \<le> time_Sub (AsTime (si_LeaseExpiresAt (ls_Instance l))) wall"
  shows "\<exists>n s'. Service_SetStatus D wall now
        \<lparr>ssr_ServiceName = svc, ssr_InstanceId = ins, ssr_LeaseToken = t, ssr_Status = STATUS_DRAINING\<rparr> (quiet s) =
        (Inr \<lparr>ir_Instance = with_status now STATUS_DRAINING (ls_Instance l), ir_Revision = n\<rparr>, quiet s') \<and>
      sound D (view s') \<and> revision_of (view s') < max_published \<and>
      (\<exists>l'. lease_at D (view s') svc ins = Some l' \<and> ls_Owner l' = ls_Owner l)"
proof -
  let ?r = "\<lparr>ssr_ServiceName = svc, ssr_InstanceId = ins, ssr_LeaseToken = t, ssr_Status = STATUS_DRAINING\<rparr>"
  let ?x = "with_status now STATUS_DRAINING (ls_Instance l)"
  have room: "revision_of (view s) < max_published" using room' by simp
  have inv: "reg_inv D (view s)" using snd by (simp add: sound_def)
  have len: "length (reg_changes (abs_reg D (view s))) = revision_of (view s)"
    using abs_changes_length [OF inv] room by simp
  have at': "reg_leases (abs_reg D (view s)) (svc, ins) = Some l" using at nc by simp
  have names: "si_ServiceName (ls_Instance l) = svc" "si_InstanceId (ls_Instance l) = ins"
    using lease_at_names [OF inv at nc] by simp_all
  obtain n s' where s': "Service_SetStatus D wall now ?r (quiet s) = (Inr \<lparr>ir_Instance = ?x, ir_Revision = n\<rparr>, quiet s')"
      "sound D (view s')" "\<exists>l'. reg_leases (abs_reg D (view s')) (svc, ins) = Some l' \<and> ls_Owner l' = ls_Owner l"
      "length (reg_changes (abs_reg D (view s'))) = Suc (revision_of (view s))"
    using Service_SetStatus_refines [OF snd room, of ?r l wall now] nc at left at' own len names
    by (auto simp: spec_modify_def spec_update_def spec_put_def Let_def simp del: abs_leases)
  have "revision_of (view s') < max_published"
    using abs_changes_length [of D "view s'"] s'(2,4) room' by (auto simp: sound_def min_def split: if_splits)
  then show ?thesis using s'(1-3) nc by auto
qed

lemma status_sub_millisecond:
  assumes snd: "sound D (view s)" and nc: "CHR '':'' \<notin> set (ssr_ServiceName request)"
    and st: "ssr_Status request \<in> {STATUS_HEALTHY, STATUS_DRAINING}"
    and at: "lease_at D (view s) (ssr_ServiceName request) (ssr_InstanceId request) = Some l"
    and own: "hashToken D (ssr_LeaseToken request) = ls_Owner l"
    and left: "0 < time_Sub (AsTime (si_LeaseExpiresAt (ls_Instance l))) wall"
      "time_Sub (AsTime (si_LeaseExpiresAt (ls_Instance l))) wall < time_Millisecond"
  shows "\<exists>s'. Service_SetStatus D wall now request (quiet s) = (Inl (ErrText bad_expire), quiet s') \<and> view s' = view s"
proof -
  let ?d = "time_Sub (AsTime (si_LeaseExpiresAt (ls_Instance l))) wall"
  let ?x = "with_status now (ssr_Status request) (ls_Instance l)"
  have inv: "reg_inv D (view s)" using snd by (simp add: sound_def)
  have ms: "duration_Milliseconds ?d = 0"
    using left by (simp add: duration_Milliseconds_def go_quot_nonneg time_Millisecond_def)
  have names: "si_ServiceName ?x = ssr_ServiceName request" "si_InstanceId ?x = ssr_InstanceId request" "inst_ok ?x"
    using lease_at_names [OF inv at nc] by simp_all
  obtain p where p: "json_Marshal D ?x = Inr p"
    using marshalE [of ?x] names(3) unfolding inst_ok_def by blast
  obtain s1 where s1: "Store_Get D (ssr_ServiceName request) (ssr_InstanceId request) (quiet s) = (Inr (ls_Instance l), quiet s1)"
      "view s1 = view s"
    using Store_Get_quiet [OF inv, of "ssr_ServiceName request" "ssr_InstanceId request"] at by auto
  obtain y where "view s1 (tokenKey (si_ServiceName ?x) (si_InstanceId ?x)) = Some (RStr (hashToken D (ssr_LeaseToken request)), y)"
    using lease_at_view(2) [OF inv at refl] own s1(2) names by auto
  then obtain s2 where s2: "update_script_for D ?x p (ssr_LeaseToken request) ?d s1 = (Inl bad_expire, s2)" "view s2 = view s"
    using update_bad_lease [of s1 ?x "ssr_LeaseToken request" y ?d p] ms s1(2) by auto
  have "mapScriptError (ErrText bad_expire) = ErrText bad_expire"
    by (simp add: mapScriptError_def strings_Contains_def bad_expire_def)
  then have "Store_Update D ?x (ssr_LeaseToken request) ?d (quiet s1) = (Inl (ErrText bad_expire), quiet s2)"
    using s2(1) p by (simp add: Store_Update_def run_mapped_apply)
  then show ?thesis
    using s1(1) s2(2) st left(1)
    by (auto simp: Service_SetStatus_def Let_def bindE_apply with_status_def)
qed

end

text \<open>
  C16. Renewing reads the instance and writes it back in two steps. When the same owner changes the
  status in between, both calls succeed, but the renewal writes the old status back: the change of
  status is lost.
\<close>

theorem renewal_undoes_status:
  assumes "registry_deps D view advance" and "sound D (view s)" and "Suc (revision_of (view s)) < max_published"
    and "CHR '':'' \<notin> set svc" and "lease_at D (view s) svc ins = Some l" and "hashToken D t = ls_Owner l"
    and "time_Millisecond \<le> time_Sub (AsTime (si_LeaseExpiresAt (ls_Instance l))) wall"
    and "drain = \<lparr>ssr_ServiceName = svc, ssr_InstanceId = ins, ssr_LeaseToken = t, ssr_Status = STATUS_DRAINING\<rparr>"
    and "renew = \<lparr>rlr_ServiceName = svc, rlr_InstanceId = ins, rlr_LeaseToken = t, rlr_LeaseSeconds = k\<rparr>"
  shows "(\<exists>n. fst (Service_SetStatus D wall now drain (quiet s)) =
      Inr \<lparr>ir_Instance = with_status now STATUS_DRAINING (ls_Instance l), ir_Revision = n\<rparr>) \<and>
    (\<exists>n s' x. Service_Renew D now renew
        \<lparr>db = s, sched = [(id, Reply), (\<lambda>x. db (snd (Service_SetStatus D wall now drain (quiet x))), Reply)]\<rparr> =
        (Inr \<lparr>ir_Instance = renewed now k (ls_Instance l), ir_Revision = n\<rparr>, quiet s') \<and>
      lease_at D (view s') svc ins = Some x \<and> si_Status (ls_Instance x) = si_Status (ls_Instance l))"
proof
  let ?o = "\<lambda>x. db (snd (Service_SetStatus D wall now drain (quiet x)))"
  have drained: "\<exists>n s'. Service_SetStatus D wall now drain (quiet x) =
        (Inr \<lparr>ir_Instance = with_status now STATUS_DRAINING (ls_Instance l), ir_Revision = n\<rparr>, quiet s') \<and>
      sound D (view s') \<and> revision_of (view s') < max_published \<and>
      (\<exists>l'. lease_at D (view s') svc ins = Some l' \<and> ls_Owner l' = ls_Owner l)" if "view x = view s" for x
    using registry_deps.status_now [OF assms(1), of x svc ins l t wall now] assms(2-8) that by auto
  then show "\<exists>n. fst (Service_SetStatus D wall now drain (quiet s)) =
      Inr \<lparr>ir_Instance = with_status now STATUS_DRAINING (ls_Instance l), ir_Revision = n\<rparr>" by force
  have "sound D (view (?o x)) \<and> revision_of (view (?o x)) < max_published \<and>
      (\<exists>l'. lease_at D (view (?o x)) svc ins = Some l' \<and> ls_Owner l' = ls_Owner l)" if "view x = view s" for x
    using drained [OF that] by auto
  from registry_deps.renew_race [where others = ?o, OF assms(1,2,4,5) this assms(6), of now k]
  show "\<exists>n s' x. Service_Renew D now renew \<lparr>db = s, sched = [(id, Reply), (?o, Reply)]\<rparr> =
        (Inr \<lparr>ir_Instance = renewed now k (ls_Instance l), ir_Revision = n\<rparr>, quiet s') \<and>
      lease_at D (view s') svc ins = Some x \<and> si_Status (ls_Instance x) = si_Status (ls_Instance l)"
    unfolding assms(9) by (fastforce simp: renewed_def)
qed

theorem renewal_undoes_status_witness:
  "\<exists>n s' x. Service_Renew mem_platform 7
        \<lparr>rlr_ServiceName = ''billing'', rlr_InstanceId = ''one'', rlr_LeaseToken = ''secret'', rlr_LeaseSeconds = 10\<rparr>
        \<lparr>db = demo_leased, sched = [(id, Reply), (\<lambda>x. db (snd (Service_SetStatus mem_platform (- 5000000) 7
           \<lparr>ssr_ServiceName = ''billing'', ssr_InstanceId = ''one'', ssr_LeaseToken = ''secret'', ssr_Status = STATUS_DRAINING\<rparr>
           (quiet x))), Reply)]\<rparr> =
        (Inr \<lparr>ir_Instance = renewed 7 10 (demo_inst ''billing'' ''one''), ir_Revision = n\<rparr>, quiet s') \<and>
      lease_at mem_platform (mem_view s') ''billing'' ''one'' = Some x \<and> si_Status (ls_Instance x) = STATUS_UNSPECIFIED"
proof -
  have "time_Millisecond \<le> time_Sub (AsTime (si_LeaseExpiresAt (demo_inst ''billing'' ''one''))) (- 5000000)"
    by (simp add: AsTime_def time_Sub_def time_Millisecond_def)
  then show ?thesis
    using renewal_undoes_status [OF mem_deps sound_leased _ _ demo_lease _ _ refl refl, of "''secret''" "- 5000000" 7 10]
    by (simp add: demo_revision max_published_def demo_inst_def)
qed

section \<open>The last millisecond of a lease\<close>

text \<open>
  A status change in the last millisecond of a lease fails with an error of Redis: the time left
  is cut to zero milliseconds, which is no valid expiry. The caller gets \<open>InvalidArgument\<close> for a
  valid request, and nothing changes.
\<close>

lemma status_change_too_late:
  assumes "registry_deps D view advance" and "sound D (view s)"
    and "CHR '':'' \<notin> set (ssr_ServiceName request)"
    and "ssr_Status request \<in> {STATUS_HEALTHY, STATUS_DRAINING}"
    and "lease_at D (view s) (ssr_ServiceName request) (ssr_InstanceId request) = Some l"
    and "hashToken D (ssr_LeaseToken request) = ls_Owner l"
    and "0 < time_Sub (AsTime (si_LeaseExpiresAt (ls_Instance l))) wall"
    and "time_Sub (AsTime (si_LeaseExpiresAt (ls_Instance l))) wall < time_Millisecond"
  shows "\<exists>s'. SetInstanceStatus D wall now request (quiet s) = (Inl (Status InvalidArgument bad_expire), quiet s') \<and>
    view s' = view s"
proof -
  obtain s' where s': "Service_SetStatus D wall now request (quiet s) = (Inl (ErrText bad_expire), quiet s')" "view s' = view s"
    using registry_deps.status_sub_millisecond [OF assms] by blast
  have "registryError (ErrText bad_expire) = Status InvalidArgument bad_expire"
    by (simp add: registryError_def)
  with with_registryError_quiet [of "Service_SetStatus D wall now request", OF s'(1)] s'(2) show ?thesis
    by (auto simp: SetInstanceStatus_def)
qed

lemma status_change_too_late_example:
  "\<exists>s'. SetInstanceStatus mem_platform (- 999999) 7 \<lparr>ssr_ServiceName = ''billing'', ssr_InstanceId = ''one'',
        ssr_LeaseToken = ''secret'', ssr_Status = STATUS_DRAINING\<rparr> (quiet demo_leased) =
      (Inl (Status InvalidArgument bad_expire), quiet s')"
  using status_change_too_late [OF mem_deps sound_leased, of "\<lparr>ssr_ServiceName = ''billing'', ssr_InstanceId = ''one'',
        ssr_LeaseToken = ''secret'', ssr_Status = STATUS_DRAINING\<rparr>"
        "\<lparr>ls_Instance = demo_inst ''billing'' ''one'', ls_Owner = hashToken mem_platform ''secret'', ls_Millis = 60000\<rparr>"
        "- 999999" 7]
  by (auto simp: demo_lease AsTime_def time_Sub_def time_Millisecond_def)

section \<open>Names with a colon\<close>

lemma alias_key: "instanceKey (a @ CHR '':'' # b) c = instanceKey a (b @ CHR '':'' # c)"
  by (simp add: instanceKey_eq_iff)

context registry_deps
begin

lemma delete_under_alias:
  assumes snd: "sound D (view s)" and room: "revision_of (view s) < max_published"
    and at: "lease_at D (view s) a (b @ CHR '':'' # c) = Some l" and own: "hashToken D t = ls_Owner l"
  defines "svc \<equiv> a @ CHR '':'' # b"
  shows "\<exists>s'. Store_Deregister D svc c t (quiet s) = (Inr (Suc (revision_of (view s))), quiet s') \<and>
    lease_at D (view s') a (b @ CHR '':'' # c) = None \<and>
    reg_changes (abs_reg D (view s')) = reg_changes (abs_reg D (view s)) @ [delete_change (Suc (revision_of (view s))) svc c] \<and>
    members (view s') (serviceKey a) = members (view s) (serviceKey a)"
proof -
  have inv: "reg_inv D (view s)" using snd by (simp add: sound_def)
  obtain x where tok: "view s (tokenKey svc c) = Some (RStr (hashToken D t), x)"
    using lease_at_view(2) [OF inv at, of svc c] alias_key [of a b c] own by (auto simp: svc_def)
  let ?d = "(view s) |` (- {instanceKey svc c, tokenKey svc c})"
  let ?w = "unindexed ?d svc {c}" and ?F = "\<lambda>n. delete_fields n svc c"
  define s' where "s' = snd (delete_script_for D svc c t s)"
  have rv: "revision_of ?w = revision_of (view s)"
    by (rule revision_of_cong) (simp add: unindexed_other key_simps)
  have out: "fst (delete_script_for D svc c t s) = Inr (Suc (revision_of (view s)))" "view s' = published ?w ?F"
    using delete_effect [OF inv tok] room by (simp_all add: publish_outcome_def rv s'_def)
  have "Suc (revision_of ?w) < 2 ^ 64" using room by (simp add: rv max_published_def)
  note p = abs_published [where F = ?F, OF change_of_delete [OF this, of D svc c]]
  have "reg_changes (abs_reg D ?w) = reg_changes (abs_reg D (view s))"
    by (simp add: abs_changes stream_of_def unindexed_other key_simps)
  then have "reg_changes (abs_reg D (view s')) = reg_changes (abs_reg D (view s)) @ [delete_change (Suc (revision_of (view s))) svc c]"
    using p by (simp add: out(2) rv)
  moreover have "lease_at D (view s') a (b @ CHR '':'' # c) = None"
    using alias_key [of a b c]
    by (simp add: out(2) lease_at_def published_def unindexed_other key_simps svc_def)
  moreover have "members (view s') (serviceKey a) = members (view s) (serviceKey a)"
    by (rule members_cong) (simp add: out(2) published_def unindexed_other key_simps svc_def)
  moreover have "Store_Deregister D svc c t (quiet s) = (Inr (Suc (revision_of (view s))), quiet s')"
    using out(1) by (cases "delete_script_for D svc c t s") (simp add: Store_Deregister_def run_mapped_apply s'_def)
  ultimately show ?thesis by blast
qed

end

text \<open>
  Removal does not validate the service name, and a key joins service and instance with a colon.
  A request that moves the colon from the instance to the service removes the lease of the other
  service, but publishes the removal under a service that does not exist and leaves the instance in
  the index of its own service: watchers of the service are not told.
\<close>

lemma removal_under_another_name:
  assumes "registry_deps D view advance" and "sound D (view s)" and "revision_of (view s) < max_published"
    and "lease_at D (view s) a (b @ CHR '':'' # c) = Some l" and "hashToken D t = ls_Owner l"
  shows "\<exists>s'. Service_Deregister D \<lparr>dir_ServiceName = a @ CHR '':'' # b, dir_InstanceId = c, dir_LeaseToken = t\<rparr> (quiet s) =
      (Inr (Suc (revision_of (view s))), quiet s') \<and>
    lease_at D (view s') a (b @ CHR '':'' # c) = None \<and>
    reg_changes (abs_reg D (view s')) =
      reg_changes (abs_reg D (view s)) @ [delete_change (Suc (revision_of (view s))) (a @ CHR '':'' # b) c] \<and>
    members (view s') (serviceKey a) = members (view s) (serviceKey a)"
  using registry_deps.delete_under_alias [OF assms] by (simp add: Service_Deregister_def)

definition demo_alias :: mem where
  "demo_alias = mem_empty
     (serviceKey ''a'' \<mapsto> (MSet [''b:c''], None), servicesKey \<mapsto> (MSet [''a''], None),
      instanceKey ''a'' ''b:c'' \<mapsto> (MStr (CHR ''{'' # frames (instance_texts (demo_inst ''a'' ''b:c''))), Some 60000),
      tokenKey ''a'' ''b:c'' \<mapsto> (MStr (hashToken mem_platform ''secret''), Some 60000))"

lemma view_alias: "mem_view demo_alias = leased (indexed (\<lambda>_. None) ''a'' ''b:c'') ''a'' ''b:c''
    (CHR ''{'' # frames (instance_texts (demo_inst ''a'' ''b:c''))) (hashToken mem_platform ''secret'') 60000"
  by (simp add: demo_alias_def mem_view_upd leased_def indexed_def members_def)

lemma alias_payload:
  "json_Unmarshal mem_platform (CHR ''{'' # frames (instance_texts (demo_inst ''a'' ''b:c''))) = Inr (demo_inst ''a'' ''b:c'')"
  using mem_roundtrip [of "demo_inst ''a'' ''b:c''"] by (simp add: mem_marshal_def)

lemma sound_alias: "sound mem_platform (mem_view demo_alias)"
proof -
  have "inst_utf8 (demo_inst ''a'' ''b:c'')" by code_simp
  then have "payload_ok mem_platform (instanceKey ''a'' ''b:c'') (CHR ''{'' # frames (instance_texts (demo_inst ''a'' ''b:c'')))"
    using payload_ok_marshal [OF alias_payload] by (simp add: inst_ok_def)
  then have "reg_inv mem_platform (mem_view demo_alias)"
    using sound_empty [of mem_platform]
    by (simp add: view_alias reg_inv_leased reg_inv_indexed sound_def)
  moreover have "index_ok (mem_view demo_alias)"
    by (auto simp: index_ok_def view_alias leased_lease leased_other members_def indexed_def key_simps instanceKey_inj
        split: if_splits)
  ultimately show ?thesis by (simp add: sound_def)
qed

lemma removal_under_another_name_example:
  "\<exists>s'. Service_Deregister mem_platform \<lparr>dir_ServiceName = ''a:b'', dir_InstanceId = ''c'', dir_LeaseToken = ''secret''\<rparr>
      (quiet demo_alias) = (Inr 1, quiet s') \<and> lease_at mem_platform (mem_view s') ''a'' ''b:c'' = None"
proof -
  have "lease_at mem_platform (mem_view demo_alias) ''a'' (''b'' @ CHR '':'' # ''c'') =
      Some \<lparr>ls_Instance = demo_inst ''a'' ''b:c'', ls_Owner = hashToken mem_platform ''secret'', ls_Millis = 60000\<rparr>"
    using alias_payload by (simp add: lease_at_def view_alias leased_lease)
  moreover have "revision_of (mem_view demo_alias) = 0"
    by (simp add: revision_of_def view_alias leased_other indexed_def key_simps)
  ultimately show ?thesis
    using removal_under_another_name [OF mem_deps sound_alias, of "''a''" "''b''" "''c''"
        "\<lparr>ls_Instance = demo_inst ''a'' ''b:c'', ls_Owner = hashToken mem_platform ''secret'', ls_Millis = 60000\<rparr>" "''secret''"]
    by (auto simp: max_published_def)
qed

section \<open>Listings and watches filter differently\<close>

text \<open>
  Registration accepts any status number. An instance whose status is neither healthy nor
  draining never appears in a listing or snapshot, but a watch announces it as an upsert.
\<close>

lemma watched_but_never_listed:
  assumes "si_Status i = STATUS_OTHER k" and "selector_matches selector (si_Metadata i)"
  shows "\<not> matches (prepareInstance i lease now) selector includeDraining \<and>
    ic_Type (watch_change \<lparr>wq_ServiceName = svc, wq_Selector = selector, wq_IncludeDraining = includeDraining\<rparr>
      (upsert_change n (prepareInstance i lease now))) = CHANGE_UPSERT"
  using assms by (simp add: matches_def watch_change_def registryMatches_def upsert_change_def Let_def)

lemma watched_but_never_listed_example:
  "\<not> matches (prepareInstance (demo_inst ''a'' ''b''\<lparr>si_Status := STATUS_OTHER 7\<rparr>) 30 0) fmempty True"
proof -
  have "selector_matches fmempty (si_Metadata (demo_inst ''a'' ''b''\<lparr>si_Status := STATUS_OTHER 7\<rparr>))" by code_simp
  then show ?thesis
    using watched_but_never_listed [of "demo_inst ''a'' ''b''\<lparr>si_Status := STATUS_OTHER 7\<rparr>" 7 fmempty] by simp
qed

section \<open>Failures of Redis look like invalid requests\<close>

text \<open>
  When Redis cannot be reached, a valid request is answered with \<open>InvalidArgument\<close> and the
  text of the network error, so a client cannot tell an outage from a mistake of its own.
\<close>

lemma outage_is_invalid_argument:
  assumes "re_match namePattern svc" and "ins \<noteq> ''''"
  shows "GetInstance D svc ins \<lparr>db = s, sched = [(others, Refused e)]\<rparr> =
    (Inl (Status InvalidArgument (''get instance: '' @ e)), quiet (others s))"
  using assms
  by (simp add: GetInstance_def with_registryError_def Service_Get_def Store_Get_def client_do_def tryE_apply bindE_apply
      roundtrip_Cons Let_def raiseE_apply registryError_def quiet_def)

lemma outage_is_invalid_argument_example:
  "fst (GetInstance mem_platform ''billing'' ''one'' \<lparr>db = demo_leased, sched = [(id, Refused ''dial tcp: refused'')]\<rparr>) =
     Inl (Status InvalidArgument ''get instance: dial tcp: refused'')"
  using outage_is_invalid_argument [OF demo_name, of "''one''" mem_platform demo_leased id "''dial tcp: refused''"] by simp

end
