(* ===== verification/RegistryServices.thy ===== *)
theory RegistryServices
  imports RegistryProperties
begin

text \<open>
  The listing of services (\<open>ListServices\<close>, \<open>ListServicesPage\<close>): without interference it shows one
  summary for every service with a live instance, with exact counters, in the order of the names.
\<close>

section \<open>Summaries of the abstract registry\<close>

definition at_status :: "registry \<Rightarrow> string \<Rightarrow> InstanceStatus \<Rightarrow> string set" where
  "at_status st svc x = {ins. \<exists>l. reg_leases st (svc, ins) = Some l \<and> si_Status (ls_Instance l) = x}"

definition active :: "registry \<Rightarrow> string \<Rightarrow> string set" where
  "active st svc = at_status st svc STATUS_HEALTHY \<union> at_status st svc STATUS_DRAINING"

definition listed_services :: "string \<Rightarrow> registry \<Rightarrow> string set" where
  "listed_services pre st = {svc. prefix pre svc \<and> active st svc \<noteq> {}}"

definition summary_of :: "registry \<Rightarrow> string \<Rightarrow> ServiceSummary" where
  "summary_of st svc =
     \<lparr>ss_ServiceName = svc, ss_HealthyInstances = card (at_status st svc STATUS_HEALTHY),
      ss_DrainingInstances = card (at_status st svc STATUS_DRAINING)\<rparr>"

section \<open>Counting\<close>

lemma fold_counts:
  "fold (\<lambda>i summary. count_status summary i) xs \<lparr>ss_ServiceName = n, ss_HealthyInstances = h mod 2 ^ 32, ss_DrainingInstances = d mod 2 ^ 32\<rparr> =
    \<lparr>ss_ServiceName = n, ss_HealthyInstances = (h + length (filter (\<lambda>i. si_Status i = STATUS_HEALTHY) xs)) mod 2 ^ 32,
     ss_DrainingInstances = (d + length (filter (\<lambda>i. si_Status i = STATUS_DRAINING) xs)) mod 2 ^ 32\<rparr>"
proof (induction xs arbitrary: h d)
  case (Cons i xs)
  have "count_status \<lparr>ss_ServiceName = n, ss_HealthyInstances = h mod 2 ^ 32, ss_DrainingInstances = d mod 2 ^ 32\<rparr> i =
    \<lparr>ss_ServiceName = n, ss_HealthyInstances = (h + (if si_Status i = STATUS_HEALTHY then 1 else 0)) mod 2 ^ 32,
     ss_DrainingInstances = (d + (if si_Status i = STATUS_DRAINING then 1 else 0)) mod 2 ^ 32\<rparr>"
    by (cases "si_Status i") (simp_all add: count_status_def mod_Suc_eq)
  then show ?case
    using Cons.IH [of "h + (if si_Status i = STATUS_HEALTHY then 1 else 0)" "d + (if si_Status i = STATUS_DRAINING then 1 else 0)"]
    by (cases "si_Status i") simp_all
qed simp

lemma summarise_counts:
  "summarise n xs =
    \<lparr>ss_ServiceName = n, ss_HealthyInstances = length (filter (\<lambda>i. si_Status i = STATUS_HEALTHY) xs) mod 2 ^ 32,
     ss_DrainingInstances = length (filter (\<lambda>i. si_Status i = STATUS_DRAINING) xs) mod 2 ^ 32\<rparr>"
  using fold_counts [of xs n 0 0] by (simp add: summarise_def)

lemma instances_counted:
  assumes "reg_inv D v" and "CHR '':'' \<notin> set svc" and "distinct (map si_InstanceId xs)"
    and "set xs = {ls_Instance l | ins l. lease_at D v svc ins = Some l}"
  shows "length (filter (\<lambda>i. si_Status i = x) xs) = card (at_status (abs_reg D v) svc x)"
    and "finite (at_status (abs_reg D v) svc x)"
proof -
  let ?f = "filter (\<lambda>i. si_Status i = x) xs"
  have "si_InstanceId ` set ?f = at_status (abs_reg D v) svc x"
    using lease_at_names(2) [OF assms(1) _ assms(2)] assms(2,4) by (force simp: at_status_def)
  moreover have "distinct (map si_InstanceId ?f)" using assms(3) by (simp add: distinct_map_filter)
  ultimately show "length ?f = card (at_status (abs_reg D v) svc x)" "finite (at_status (abs_reg D v) svc x)"
    by (metis distinct_card length_map list.set_map, metis List.finite_set list.set_map)
qed

section \<open>The listing\<close>

context registry_deps
begin

lemma collect_summaries_quiet:
  assumes "tidied D v (view s)" and "\<forall>n \<in> set names. CHR '':'' \<notin> set n"
    and small: "\<And>svc. card (active (abs_reg D v) svc) < 2 ^ 32"
  shows "\<exists>s'. collect_summaries D pre names acc (quiet s) =
      (Inr (acc @ map (summary_of (abs_reg D v)) (filter (\<lambda>n. n \<in> listed_services pre (abs_reg D v)) names)), quiet s') \<and>
    tidied D v (view s')"
  using assms(1,2)
proof (induction names arbitrary: s acc)
  case Nil
  then show ?case by (auto simp: returnE_apply)
next
  case (Cons n names)
  show ?case
  proof (cases "prefix pre n")
    case False
    then have "pre \<noteq> ''''" by auto
    with False show ?thesis using Cons.IH [OF Cons.prems(1), of acc] Cons.prems(2)
      by (simp add: strings_HasPrefix_def listed_services_def)
  next
    case True
    have t: "sound D (view s)" "abs_reg D (view s) = abs_reg D v" using Cons.prems(1) by (simp_all add: tidied_def)
    have nc: "CHR '':'' \<notin> set n" using Cons.prems(2) by simp
    obtain xs s1 where x: "Store_List D n (quiet s) = (Inr (xs, revision_of (view s)), quiet s1)"
        "tidied D (view s) (view s1)" "distinct (map si_InstanceId xs)"
        "set xs = {ls_Instance l | ins l. lease_at D (view s) n ins = Some l}"
      using Store_List_tidied [OF t(1) nc] by blast
    note count = instances_counted [OF _ nc x(3,4), unfolded t(2)]
    let ?st = "abs_reg D v"
    have inv: "reg_inv D (view s)" using t(1) by (simp add: sound_def)
    have part: "card (active ?st n) = card (at_status ?st n STATUS_HEALTHY) + card (at_status ?st n STATUS_DRAINING)"
      unfolding active_def using count(2) [OF inv] by (intro card_Un_disjoint) (auto simp: at_status_def)
    have sum: "summarise n xs = summary_of ?st n"
      using small [of n] part by (simp add: summarise_counts summary_of_def count(1) [OF inv])
    have pos: "0 < (ss_HealthyInstances (summary_of ?st n) + ss_DrainingInstances (summary_of ?st n)) mod 2 ^ 32 \<longleftrightarrow>
        n \<in> listed_services pre ?st"
      using small [of n] part True count(2) [OF inv] by (auto simp: summary_of_def listed_services_def active_def card_gt_0_iff)
    let ?acc = "if n \<in> listed_services pre ?st then acc @ [summary_of ?st n] else acc"
    obtain s2 where "collect_summaries D pre names ?acc (quiet s1) =
        (Inr (?acc @ map (summary_of ?st) (filter (\<lambda>n. n \<in> listed_services pre ?st) names)), quiet s2)" "tidied D v (view s2)"
      using Cons.IH [OF tidied_trans [OF Cons.prems(1) x(2)], of ?acc] Cons.prems(2) by auto
    then show ?thesis
      using True x(1) pos by (auto simp: bindE_apply strings_HasPrefix_def sum Let_def)
  qed
qed

end

context registry_deps
begin

lemma listed_in_index:
  assumes "sound D v" and "svc \<in> listed_services pre (abs_reg D v)"
  shows "svc \<in> members v servicesKey"
proof -
  obtain ins l where l: "reg_leases (abs_reg D v) (svc, ins) = Some l"
    using assms(2) by (auto simp: listed_services_def active_def at_status_def)
  then have nc: "CHR '':'' \<notin> set svc" by (cases "CHR '':'' \<in> set svc") simp_all
  then have "v (instanceKey svc ins) \<noteq> None" using l assms(1) lease_at_None [of D v svc ins] by (simp add: sound_def)
  then show ?thesis using assms(1) index_okD [of v svc ins] nc by (simp add: sound_def)
qed

lemma Service_listServices_quiet:
  assumes snd: "sound D (view s)" and small: "\<And>svc. card (active (abs_reg D (view s)) svc) < 2 ^ 32"
    and bounds: "page < 2 ^ 63" "psize < 2 ^ 63" "card (listed_services pre (abs_reg D (view s))) < 2 ^ 62"
  shows "\<exists>s'. tidied D (view s) (view s') \<and> finite (listed_services pre (abs_reg D (view s))) \<and>
    Service_listServices D pre page psize (quiet s) =
      (let names = sorted_list_of_set (listed_services pre (abs_reg D (view s))) in
       (Inr (\<lparr>lss_Services = the (pageValues (map (summary_of (abs_reg D (view s))) names) page psize),
              lss_Revision = revision_of (view s)\<rparr>, length names), quiet s'))"
proof -
  let ?st = "abs_reg D (view s)"
  let ?L = "listed_services pre ?st"
  have inv: "reg_inv D (view s)" "index_ok (view s)" using snd by (simp_all add: sound_def)
  obtain names s1 where n: "Store_Services D (quiet s) = (Inr (names, revision_of (view s)), quiet s1)" "view s1 = view s"
      "distinct names" "set names = members (view s) servicesKey"
    using Store_Services_quiet [OF inv(1)] by blast
  have nc: "\<forall>n \<in> set names. CHR '':'' \<notin> set n" using index_ok_names [OF inv(2)] n(4) by simp
  let ?ns = "filter (\<lambda>n. n \<in> ?L) names"
  obtain s2 where c: "collect_summaries D pre names [] (quiet s1) = (Inr (map (summary_of ?st) ?ns), quiet s2)"
      "tidied D (view s) (view s2)"
    using collect_summaries_quiet [OF _ nc small, of s1 pre "[]"] tidied_refl [OF snd] n(2) by auto
  have L: "set ?ns = ?L" using listed_in_index [OF snd] n(4) by auto
  have fin: "finite ?L" using L by (metis List.finite_set)
  have srt: "sort_summaries D (\<lambda>a b. ss_ServiceName a < ss_ServiceName b) (map (summary_of ?st) ?ns) =
      map (summary_of ?st) (sorted_list_of_set ?L)"
  proof -
    have key: "ss_ServiceName \<circ> summary_of ?st = id" by (simp add: fun_eq_iff summary_of_def)
    have "mset ?ns = mset (sorted_list_of_set ?L)"
      using n(3) L by (metis List.finite_set distinct_filter set_eq_iff_mset_eq_distinct sorted_list_of_set.distinct_sorted_key_list_of_set sorted_list_of_set.set_sorted_key_list_of_set)
    then have m: "mset (map (summary_of ?st) ?ns) = mset (map (summary_of ?st) (sorted_list_of_set ?L))"
      by (simp only: mset_map)
    have "distinct (map ss_ServiceName (map (summary_of ?st) ?ns))" using n(3) key by (simp add: distinct_map_filter)
    from summs.srt_unique [OF this m]
    have "sort_summaries D (\<lambda>a b. ss_ServiceName a < ss_ServiceName b) (map (summary_of ?st) ?ns) =
        sort_key ss_ServiceName (map (summary_of ?st) (sorted_list_of_set ?L))" .
    also have "\<dots> = map (summary_of ?st) (sorted_list_of_set ?L)"
      using key by (intro sort_key_id_if_sorted) (simp add: sorted_list_of_set.sorted_sorted_key_list_of_set)
    finally show ?thesis .
  qed
  have len: "length ?ns = length (sorted_list_of_set ?L)" "length (sorted_list_of_set ?L) = card ?L"
    using n(3) L by (metis distinct_card distinct_filter sorted_list_of_set.length_sorted_key_list_of_set, simp)
  have "page_or_panic (map (summary_of ?st) (sorted_list_of_set ?L)) page psize (quiet s2) =
      (Inr (the (pageValues (map (summary_of ?st) (sorted_list_of_set ?L)) page psize)), quiet s2)"
    using bounds len(2) by (intro page_or_panic_ok) simp_all
  then show ?thesis
    using c(2) fin by (intro exI [of _ s2]) (simp add: Service_listServices_def bindE_apply n(1) c(1) srt Let_def returnE_apply len(1))
qed

end

text \<open>
  C23. Without interference \<open>ListServicesPage\<close> returns the requested page of the services whose name
  starts with the prefix and that have a healthy or draining instance alive, each once, in the order
  of their names, with the exact numbers of healthy and of draining instances, their total and the
  current revision; expired and removed instances do not count, and the table of leases and the
  history stay as they are. \<open>ListServices\<close> returns all of them. The counters have 32 bits.
\<close>

theorem services_listing_exact:
  assumes "registry_deps D view advance" and "sound D (view s)"
    and "\<And>svc. card (active (abs_reg D (view s)) svc) < 2 ^ 32"
    and "page < 2 ^ 63" and "pageSize < 2 ^ 63" and "card (listed_services pre (abs_reg D (view s))) < 2 ^ 62"
  defines "summaries \<equiv> map (summary_of (abs_reg D (view s))) (sorted_list_of_set (listed_services pre (abs_reg D (view s))))"
  shows "ss_ServiceName ` set summaries = listed_services pre (abs_reg D (view s)) \<and> sorted (map ss_ServiceName summaries) \<and>
    distinct (map ss_ServiceName summaries) \<and>
    (\<exists>s'. abs_reg D (view s') = abs_reg D (view s) \<and> sound D (view s') \<and>
      Service_ListServicesPage D pre page pageSize (quiet s) =
        (Inr (\<lparr>lss_Services = the (pageValues summaries page pageSize), lss_Revision = revision_of (view s)\<rparr>, length summaries), quiet s')) \<and>
    (\<exists>s'. Service_ListServices D pre (quiet s) = (Inr \<lparr>lss_Services = summaries, lss_Revision = revision_of (view s)\<rparr>, quiet s'))"
proof -
  let ?st = "abs_reg D (view s)"
  have key: "ss_ServiceName \<circ> summary_of ?st = id" by (simp add: fun_eq_iff summary_of_def)
  obtain s1 where p: "tidied D (view s) (view s1)" "finite (listed_services pre ?st)"
      "Service_listServices D pre page pageSize (quiet s) =
        (Inr (\<lparr>lss_Services = the (pageValues summaries page pageSize), lss_Revision = revision_of (view s)\<rparr>, length summaries), quiet s1)"
    using registry_deps.Service_listServices_quiet [OF assms(1-6)] by (auto simp: summaries_def Let_def)
  obtain s2 where "Service_listServices D pre 0 0 (quiet s) =
        (Inr (\<lparr>lss_Services = the (pageValues summaries 0 0), lss_Revision = revision_of (view s)\<rparr>, length summaries), quiet s2)"
    using registry_deps.Service_listServices_quiet [OF assms(1-3) _ _ assms(6), of 0 0] by (auto simp: summaries_def Let_def)
  then have all: "\<exists>s'. Service_ListServices D pre (quiet s) = (Inr \<lparr>lss_Services = summaries, lss_Revision = revision_of (view s)\<rparr>, quiet s')"
    by (simp add: Service_ListServices_def bindE_apply returnE_apply pageValues_all)
  have "ss_ServiceName ` set summaries = listed_services pre ?st"
    using p(2) unfolding summaries_def by (simp add: image_comp key)
  moreover have "sorted (map ss_ServiceName summaries)" "distinct (map ss_ServiceName summaries)"
    unfolding summaries_def by (simp_all add: key)
  ultimately show ?thesis
    using p(1,3) all unfolding tidied_def Service_ListServicesPage_def by blast
qed

text \<open>A server with one healthy instance.\<close>

definition demo_healthy :: ServiceInstance where
  "demo_healthy = (demo_inst ''billing'' ''one'')\<lparr>si_Status := STATUS_HEALTHY\<rparr>"

definition demo_up :: mem where
  "demo_up = demo_stale
     (instanceKey ''billing'' ''one'' \<mapsto> (MStr (CHR ''{'' # frames (instance_texts demo_healthy)), Some 60000),
      tokenKey ''billing'' ''one'' \<mapsto> (MStr (hashToken mem_platform ''secret''), Some 60000))"

lemma view_up: "mem_view demo_up =
    leased (mem_view demo_stale) ''billing'' ''one'' (CHR ''{'' # frames (instance_texts demo_healthy)) (hashToken mem_platform ''secret'') 60000"
  by (simp add: demo_up_def mem_view_upd leased_def)

lemma healthy_payload: "json_Unmarshal mem_platform (CHR ''{'' # frames (instance_texts demo_healthy)) = Inr demo_healthy"
  using mem_roundtrip [of demo_healthy] by (simp add: mem_marshal_def)

lemma sound_up: "sound mem_platform (mem_view demo_up)"
proof -
  have v: "mem_view demo_up = indexed (mem_view demo_up) ''billing'' ''one''"
    by (auto simp: view_up indexed_def leased_def view_stale members_def key_simps fun_eq_iff)
  have "inst_ok demo_healthy" using demo_utf8 by (simp add: inst_ok_def demo_healthy_def inst_utf8_def)
  then have "payload_ok mem_platform (instanceKey ''billing'' ''one'') (CHR ''{'' # frames (instance_texts demo_healthy))"
    using payload_ok_marshal [OF healthy_payload] by (simp add: demo_healthy_def)
  then have "reg_inv mem_platform (mem_view demo_up)" using sound_stale by (simp add: reg_inv_leased sound_def view_up)
  moreover have "index_ok (indexed (mem_view demo_up) ''billing'' ''one'')"
    unfolding view_up using sound_stale by (intro index_ok_register) (simp_all add: sound_def)
  ultimately show ?thesis using v by (simp add: sound_def)
qed

lemma leases_up:
  "reg_leases (abs_reg mem_platform (mem_view demo_up)) (svc, ins) =
    (if svc = ''billing'' \<and> ins = ''one''
     then Some \<lparr>ls_Instance = demo_healthy, ls_Owner = hashToken mem_platform ''secret'', ls_Millis = 60000\<rparr> else None)"
proof (cases "CHR '':'' \<in> set svc")
  case False
  have "lease_at mem_platform (mem_view demo_up) svc ins =
      (if svc = ''billing'' \<and> ins = ''one''
       then Some \<lparr>ls_Instance = demo_healthy, ls_Owner = hashToken mem_platform ''secret'', ls_Millis = 60000\<rparr> else None)"
    using healthy_payload False
    by (auto simp: lease_at_def view_up leased_lease view_stale key_simps instanceKey_inj)
  then show ?thesis using False by simp
qed auto

lemma status_up: "at_status (abs_reg mem_platform (mem_view demo_up)) svc x = (if svc = ''billing'' \<and> x = STATUS_HEALTHY then {''one''} else {})"
  by (auto simp: at_status_def leases_up demo_healthy_def)

theorem services_listing_exact_witness:
  "\<exists>s'. Service_ListServices mem_platform ''bill'' (quiet demo_up) =
     (Inr \<lparr>lss_Services = [\<lparr>ss_ServiceName = ''billing'', ss_HealthyInstances = 1, ss_DrainingInstances = 0\<rparr>], lss_Revision = 0\<rparr>, quiet s')"
proof -
  have act: "active (abs_reg mem_platform (mem_view demo_up)) svc = (if svc = ''billing'' then {''one''} else {})" for svc
    by (auto simp: active_def status_up)
  have ls: "listed_services ''bill'' (abs_reg mem_platform (mem_view demo_up)) = {''billing''}"
    by (auto simp: listed_services_def act)
  have "revision_of (mem_view demo_up) = 0"
    by (simp add: view_up view_stale revision_of_def leased_other key_simps)
  then show ?thesis
    using services_listing_exact [OF mem_deps sound_up, of 1 20 "''bill''"] by (simp add: act ls summary_of_def status_up)
qed

end
