(* ===== verification/GoRunes.thy ===== *)
theory GoRunes
  imports GoBytes GoStd
begin

text \<open>
  Go strings as sequences of Unicode code points: \<open>utf8.DecodeRuneInString\<close>, the loop
  \<open>for _, r := range s\<close>, and the functions of package \<open>strings\<close> that look at code points:
  \<open>TrimSpace\<close>, \<open>ToLower\<close>, \<open>EqualFold\<close>, \<open>Trim\<close>. A rune is a natural number.
\<close>

section \<open>Decoding\<close>

definition RuneError :: nat where
  "RuneError = 65533"

text \<open>The first rune of a string and its width; a malformed sequence is one byte wide.\<close>

definition DecodeRune_bytes :: "nat list \<Rightarrow> nat \<times> nat" where
  "DecodeRune_bytes bs =
     (case bs of
        [] \<Rightarrow> (RuneError, 0)
      | a # xs \<Rightarrow>
          if a < 128 then (a, 1)
          else if 194 \<le> a \<and> a \<le> 223 then
            (case xs of
               b # _ \<Rightarrow> if cont b then ((a - 192) * 64 + (b - 128), 2) else (RuneError, 1)
             | _ \<Rightarrow> (RuneError, 1))
          else if 224 \<le> a \<and> a \<le> 239 then
            (case xs of
               b # c # _ \<Rightarrow>
                 if cont b \<and> cont c \<and> (a = 224 \<longrightarrow> 160 \<le> b) \<and> (a = 237 \<longrightarrow> b \<le> 159)
                 then (((a - 224) * 64 + (b - 128)) * 64 + (c - 128), 3) else (RuneError, 1)
             | _ \<Rightarrow> (RuneError, 1))
          else if 240 \<le> a \<and> a \<le> 244 then
            (case xs of
               b # c # d # _ \<Rightarrow>
                 if cont b \<and> cont c \<and> cont d \<and> (a = 240 \<longrightarrow> 144 \<le> b) \<and> (a = 244 \<longrightarrow> b \<le> 143)
                 then ((((a - 240) * 64 + (b - 128)) * 64 + (c - 128)) * 64 + (d - 128), 4) else (RuneError, 1)
             | _ \<Rightarrow> (RuneError, 1))
          else (RuneError, 1))"

definition DecodeRune :: "string \<Rightarrow> nat \<times> nat" where
  "DecodeRune s = DecodeRune_bytes (map byte (take 4 s))"

lemma DecodeRune_Nil [simp]: "DecodeRune [] = (RuneError, 0)"
  by (simp add: DecodeRune_def DecodeRune_bytes_def)

lemma DecodeRune_ascii: "byte c < 128 \<Longrightarrow> DecodeRune (c # s) = (byte c, 1)"
  by (simp add: DecodeRune_def DecodeRune_bytes_def)

lemma DecodeRune_width: "0 < snd (DecodeRune (c # s))"
  by (simp add: DecodeRune_def DecodeRune_bytes_def split: list.splits)

lemma rune2: "194 \<le> a \<Longrightarrow> 128 \<le> (a - 192) * 64 + (b :: nat)"
  by (rule trans_le_add1) (use mult_le_mono1 [of 2 "a - 192" 64] in simp)

lemma rune3: "224 \<le> a \<Longrightarrow> (a = 224 \<longrightarrow> 160 \<le> b) \<Longrightarrow> 128 \<le> 4096 * (a - 224) + (b - 128) * 64 + (c :: nat)"
  by (cases "a = 224") (rule trans_le_add1, simp)+

lemma rune4: "240 \<le> a \<Longrightarrow> (a = 240 \<longrightarrow> 144 \<le> b) \<Longrightarrow>
    128 \<le> 262144 * (a - 240) + 4096 * (b - 128) + c * 64 + (d :: nat)"
  by (cases "a = 240") (rule trans_le_add1, simp)+

lemma DecodeRune_not_ascii: "128 \<le> byte c \<Longrightarrow> 128 \<le> fst (DecodeRune (c # s))"
  unfolding DecodeRune_def DecodeRune_bytes_def
  by (simp add: rune2 rune3 rune4 RuneError_def split: list.splits)

text \<open>The runes of a string, each with the bytes it was decoded from.\<close>

function rune_segments :: "string \<Rightarrow> (nat \<times> string) list" where
  "rune_segments s =
     (if s = [] then []
      else (fst (DecodeRune s), take (snd (DecodeRune s)) s) # rune_segments (drop (snd (DecodeRune s)) s))"
  by pat_completeness auto

termination rune_segments
proof (relation "measure length", goal_cases)
  case (2 s)
  then obtain c cs where s: "s = c # cs" by (cases s) auto
  show ?case using DecodeRune_width [of c cs] by (simp add: s)
qed simp

declare rune_segments.simps [simp del]

definition runes :: "string \<Rightarrow> nat list" where
  "runes s = map fst (rune_segments s)"

lemma rune_segments_Nil [simp]: "rune_segments [] = []"
  by (simp add: rune_segments.simps)

lemma rune_segments_ascii [simp]: "byte c < 128 \<Longrightarrow> rune_segments (c # s) = (byte c, [c]) # rune_segments s"
  by (subst rune_segments.simps) (simp add: DecodeRune_ascii)

text \<open>Decoding cuts the string into pieces and loses nothing.\<close>

lemma concat_segments: "concat (map snd (rune_segments s)) = s"
proof (induction s rule: rune_segments.induct)
  case (1 s)
  then show ?case by (cases "s = []") (simp_all add: rune_segments.simps [of s])
qed

text \<open>A string is made of ASCII characters exactly when its runes are.\<close>

lemma runes_ascii_iff: "(\<forall>r \<in> set (runes s). r < 128) \<longleftrightarrow> (\<forall>c \<in> set s. byte c < 128)"
proof (induction s rule: rune_segments.induct)
  case (1 s)
  show ?case
  proof (cases s)
    case (Cons c cs)
    show ?thesis
    proof (cases "byte c < 128")
      case True
      then show ?thesis using 1 Cons by (simp add: runes_def DecodeRune_ascii)
    next
      case False
      then have "128 \<le> fst (DecodeRune s)" using DecodeRune_not_ascii [of c cs] Cons by simp
      then show ?thesis using False Cons by (subst runes_def, subst rune_segments.simps) auto
    qed
  qed (simp add: runes_def)
qed

lemma runes_ascii: "\<forall>c \<in> set s. byte c < 128 \<Longrightarrow> runes s = map byte s"
  by (induction s) (simp_all add: runes_def)

lemma ascii_segments: "\<forall>c \<in> set s. byte c < 128 \<Longrightarrow> rune_segments s = map (\<lambda>c. (byte c, [c])) s"
  by (induction s) simp_all

text \<open>A test of every rune that only ASCII characters pass is a test of every byte.\<close>

lemma runes_all_iff:
  assumes "\<And>r. P r \<Longrightarrow> r < 128"
  shows "list_all P (runes s) \<longleftrightarrow> list_all (P \<circ> byte) s"
proof (cases "\<forall>c \<in> set s. byte c < 128")
  case True
  then show ?thesis by (simp add: runes_ascii list.pred_map)
next
  case False
  then have "\<not> list_all P (runes s)" using runes_ascii_iff [of s] assms by (auto simp: list_all_iff)
  moreover have "\<not> list_all (P \<circ> byte) s" using False assms by (force simp: list_all_iff)
  ultimately show ?thesis by simp
qed

section \<open>Package strings\<close>

text \<open>\<open>unicode.IsSpace\<close>\<close>

definition unicode_IsSpace :: "nat \<Rightarrow> bool" where
  "unicode_IsSpace r \<longleftrightarrow>
     (9 \<le> r \<and> r \<le> 13) \<or> r = 32 \<or> r = 133 \<or> r = 160 \<or> r = 5760 \<or> (8192 \<le> r \<and> r \<le> 8202) \<or>
     r = 8232 \<or> r = 8233 \<or> r = 8239 \<or> r = 8287 \<or> r = 12288"

definition trim_segments :: "(nat \<Rightarrow> bool) \<Rightarrow> string \<Rightarrow> string" where
  "trim_segments P s =
     concat (map snd (rev (dropWhile (P \<circ> fst) (rev (dropWhile (P \<circ> fst) (rune_segments s))))))"

definition strings_TrimSpace :: "string \<Rightarrow> string" where
  "strings_TrimSpace s = trim_segments unicode_IsSpace s"

text \<open>\<open>strings.Trim\<close> with a cut set of ASCII characters.\<close>

definition strings_Trim :: "string \<Rightarrow> string \<Rightarrow> string" where
  "strings_Trim s cutset = trim_segments (\<lambda>r. r \<in> set (map byte cutset)) s"

text \<open>
  \<open>strings.ToLower\<close>, exact on ASCII characters and on the only two other code points whose
  lower-case form is an ASCII character (the Kelvin sign and the capital I with a dot); every other
  rune is left as it is. The service only compares the result with a pattern of ASCII characters.
\<close>

definition lower_rune :: "nat \<Rightarrow> nat" where
  "lower_rune r =
     (if 65 \<le> r \<and> r \<le> 90 then r + 32 else if r = 8490 then 107 else if r = 304 then 105 else r)"

definition lower_segment :: "nat \<times> string \<Rightarrow> string" where
  "lower_segment rs = (let l = lower_rune (fst rs) in if l < 128 then [char_of l] else snd rs)"

definition strings_ToLower :: "string \<Rightarrow> string" where
  "strings_ToLower s = concat (map lower_segment (rune_segments s))"

text \<open>
  \<open>strings.EqualFold\<close> with an ASCII second argument, as in every use of the source: case is
  ignored under Unicode simple folding, in which the long s and the Kelvin sign fold to s and k.
\<close>

definition fold_rune :: "nat \<Rightarrow> nat" where
  "fold_rune r =
     (if 65 \<le> r \<and> r \<le> 90 then r + 32 else if r = 383 then 115 else if r = 8490 then 107 else r)"

definition strings_EqualFold :: "string \<Rightarrow> string \<Rightarrow> bool" where
  "strings_EqualFold s t \<longleftrightarrow> map fold_rune (runes s) = map fold_rune (runes t)"

definition strings_Count :: "string \<Rightarrow> char \<Rightarrow> nat" where
  "strings_Count s c = length (filter (\<lambda>x. x = c) s)"

text \<open>\<open>strings.Split\<close> at a one-byte separator: always at least one part.\<close>

fun strings_Split :: "string \<Rightarrow> char \<Rightarrow> string list" where
  "strings_Split [] c = [[]]"
| "strings_Split (x # xs) c =
     (if x = c then [] # strings_Split xs c
      else (case strings_Split xs c of p # ps \<Rightarrow> (x # p) # ps | [] \<Rightarrow> [[x]]))"

definition strings_HasSuffix :: "string \<Rightarrow> string \<Rightarrow> bool" where
  "strings_HasSuffix s t = suffix t s"

definition strings_TrimSuffix :: "string \<Rightarrow> string \<Rightarrow> string" where
  "strings_TrimSuffix s t = (if suffix t s then take (length s - length t) s else s)"

definition strings_Join :: "string list \<Rightarrow> string \<Rightarrow> string" where
  "strings_Join parts sep = (case parts of [] \<Rightarrow> [] | p # ps \<Rightarrow> p @ concat (map (\<lambda>q. sep @ q) ps))"

lemma strings_Split_ne [simp]: "strings_Split s c \<noteq> []"
  by (induction s) (auto split: list.splits)

text \<open>Splitting a joined list gives the list back when no part holds the separator.\<close>

lemma strings_Split_append: "c \<notin> set p \<Longrightarrow> strings_Split (p @ c # s) c = p # strings_Split s c"
  by (induction p) auto

lemma strings_Split_plain: "c \<notin> set p \<Longrightarrow> strings_Split p c = [p]"
  by (induction p) auto

lemma strings_Split_Join:
  "ps \<noteq> [] \<Longrightarrow> list_all (\<lambda>p. c \<notin> set p) ps \<Longrightarrow> strings_Split (strings_Join ps [c]) c = ps"
proof (induction ps rule: list_nonempty_induct)
  case (cons p ps)
  have "strings_Join (p # ps) [c] = p @ c # strings_Join ps [c]"
    using cons(1) by (cases ps) (simp_all add: strings_Join_def)
  then show ?case using cons by (simp add: strings_Split_append)
qed (simp add: strings_Join_def strings_Split_plain)

lemma EqualFold_refl [simp]: "strings_EqualFold s s"
  by (simp add: strings_EqualFold_def)

lemma trim_segments_id:
  assumes "rune_segments s \<noteq> []" and "\<not> P (fst (hd (rune_segments s)))" and "\<not> P (fst (last (rune_segments s)))"
  shows "trim_segments P s = s"
proof -
  have "dropWhile (P \<circ> fst) (rune_segments s) = rune_segments s"
    using assms(1,2) by (cases "rune_segments s") auto
  moreover have "dropWhile (P \<circ> fst) (rev (rune_segments s)) = rev (rune_segments s)"
    using assms(1,3) by (cases "rune_segments s" rule: rev_cases) auto
  ultimately show ?thesis by (simp add: trim_segments_def concat_segments)
qed

end
