(* ===== verification/GoPath.thy ===== *)
theory GoPath
  imports GoRunes
begin

text \<open>
  \<open>path.Match\<close> of the Go standard library (since Go 1.16 a malformed pattern is an error whatever
  the name), with its helpers \<open>scanChunk\<close>, \<open>matchChunk\<close> and \<open>getEsc\<close>, and
  \<open>filepath.Ext\<close> on a system whose separator is a slash. The error \<open>ErrBadPattern\<close> is
  \<open>None\<close>. Shown here: whether a pattern is malformed does not depend on the name, and what a
  literal pattern, with or without a final star, matches.
\<close>

section \<open>The matcher\<close>

text \<open>A character of a class, possibly escaped; something has to follow it.\<close>

definition getEsc :: "string \<Rightarrow> (nat \<times> string) option" where
  "getEsc chunk =
     (if chunk = [] \<or> hd chunk = CHR ''-'' \<or> hd chunk = CHR '']'' then None
      else
        let chunk = (if hd chunk = CHR 0x5C then tl chunk else chunk) in
        if chunk = [] then None
        else
          let (r, n) = DecodeRune chunk; nchunk = drop n chunk in
          if r = RuneError \<and> n = 1 then None
          else if nchunk = [] then None
          else Some (r, nchunk))"

lemma getEsc_shorter: "getEsc chunk = Some (r, nchunk) \<Longrightarrow> length nchunk < length chunk"
proof -
  assume e: "getEsc chunk = Some (r, nchunk)"
  define k where "k = (if hd chunk = CHR 0x5C then tl chunk else chunk)"
  have k: "length k \<le> length chunk" by (simp add: k_def)
  have n: "k \<noteq> []" "nchunk = drop (snd (DecodeRune k)) k"
    using e by (auto simp: getEsc_def k_def Let_def split: if_splits prod.splits)
  then obtain c cs where "k = c # cs" by (cases k) auto
  with n k DecodeRune_width [of c cs] show ?thesis by simp
qed

lemma getEsc_ne: "getEsc chunk = Some (r, nchunk) \<Longrightarrow> nchunk \<noteq> []"
  by (auto simp: getEsc_def Let_def split: if_splits prod.splits)

text \<open>The ranges of a class up to its closing bracket: does \<open>r\<close> lie in one, and what follows.\<close>

function class_ranges :: "nat \<Rightarrow> bool \<Rightarrow> bool \<Rightarrow> string \<Rightarrow> (bool \<times> string) option" where
  "class_ranges r some found chunk =
     (if chunk \<noteq> [] \<and> hd chunk = CHR '']'' \<and> some then Some (found, tl chunk)
      else
        (case getEsc chunk of
           None \<Rightarrow> None
         | Some (lo, chunk) \<Rightarrow>
             if hd chunk = CHR ''-'' then
               (case getEsc (tl chunk) of
                  None \<Rightarrow> None
                | Some (hi, chunk) \<Rightarrow> class_ranges r True (found \<or> (lo \<le> r \<and> r \<le> hi)) chunk)
             else class_ranges r True (found \<or> lo = r) chunk))"
  by pat_completeness auto

termination class_ranges
proof (relation "measure (\<lambda>(r, some, found, chunk). length chunk)", goal_cases)
  case (2 r some found chunk p lo chunk' q hi chunk'')
  then show ?case
    using getEsc_shorter [of chunk lo chunk'] getEsc_shorter [of "tl chunk'" hi chunk''] by simp
next
  case (3 r some found chunk p lo chunk')
  then show ?case using getEsc_shorter [of chunk lo chunk'] by simp
qed simp

declare class_ranges.simps [simp del]

lemma class_ranges_shorter: "class_ranges r some found chunk = Some (b, rest) \<Longrightarrow> length rest < length chunk"
proof (induction r some found chunk rule: class_ranges.induct)
  case (1 r some found chunk)
  show ?case
  proof (cases "chunk \<noteq> [] \<and> hd chunk = CHR '']'' \<and> some")
    case True
    then have "rest = tl chunk" using 1(3) by (subst (asm) class_ranges.simps) simp
    then show ?thesis using True by (cases chunk) auto
  next
    case False
    note e = 1(3) [unfolded class_ranges.simps [of r some found chunk] if_not_P [OF False]]
    obtain lo k where g: "getEsc chunk = Some (lo, k)" using e by (auto split: option.splits)
    note s = getEsc_shorter [OF g]
    show ?thesis
    proof (cases "hd k = CHR ''-''")
      case True
      then obtain hi k' where h: "getEsc (tl k) = Some (hi, k')" using e g by (auto split: option.splits)
      then have "length rest < length k'" using 1(1) [OF False g refl True h refl] e g True by simp
      then show ?thesis using getEsc_shorter [OF h] s by simp
    next
      case not_dash: False
      then show ?thesis using 1(2) [OF False g refl not_dash] e g s by simp
    qed
  qed
qed

text \<open>
  A chunk (a stretch of the pattern without a star) against the front of a string: what is left of
  the string when it matches. Once the match has failed the chunk is still checked to its end.
\<close>

function matchChunk :: "bool \<Rightarrow> string \<Rightarrow> string \<Rightarrow> string option option" where
  "matchChunk failed chunk s =
     (if chunk = [] then Some (if failed then None else Some s)
      else
        let failed = (failed \<or> s = []) in
        if hd chunk = CHR ''['' then
          let (r, n) = (if failed then (0, 0) else DecodeRune s);
              k = tl chunk;
              negated = (k \<noteq> [] \<and> hd k = CHR ''^'')
          in (case class_ranges r False False (if negated then tl k else k) of
                None \<Rightarrow> None
              | Some (found, rest) \<Rightarrow> matchChunk (failed \<or> found = negated) rest (drop n s))
        else if hd chunk = CHR ''?'' then
          matchChunk (failed \<or> hd s = CHR ''/'') (tl chunk) (if failed then s else drop (snd (DecodeRune s)) s)
        else
          let k = (if hd chunk = CHR 0x5C then tl chunk else chunk) in
          if k = [] then None
          else matchChunk (failed \<or> hd k \<noteq> hd s) (tl k) (if failed then s else tl s))"
  by pat_completeness auto

termination matchChunk
proof (relation "measure (\<lambda>(failed, chunk, s). length chunk)", goal_cases)
  case (2 failed chunk s failed' p r n k negated q found rest)
  note two = 2
  have "length rest < length (if negated then tl k else k)"
    by (rule class_ranges_shorter [of r False False _ found]) (use two in auto)
  then show ?case using 2 by (cases chunk) (auto split: if_splits)
qed (auto simp: Let_def neq_Nil_conv)

declare matchChunk.simps [simp del]

text \<open>The stars at the front of a pattern, and the chunk up to the next star outside a class.\<close>

fun scan_len :: "bool \<Rightarrow> string \<Rightarrow> string \<times> string" where
  "scan_len inrange [] = ([], [])"
| "scan_len inrange (c # cs) =
     (if c = CHR 0x5C then
        (case cs of [] \<Rightarrow> ([c], []) | d # ds \<Rightarrow> let (a, b) = scan_len inrange ds in (c # d # a, b))
      else if c = CHR ''*'' \<and> \<not> inrange then ([], c # cs)
      else
        let (a, b) = scan_len (c = CHR ''['' \<or> c \<noteq> CHR '']'' \<and> inrange) cs in (c # a, b))"

definition scanChunk :: "string \<Rightarrow> bool \<times> string \<times> string" where
  "scanChunk pattern =
     (let p = dropWhile (\<lambda>c. c = CHR ''*'') pattern in (p \<noteq> pattern, scan_len False p))"

lemma scan_len_append: "scan_len b p = (chunk, rest) \<Longrightarrow> p = chunk @ rest"
proof (induction b p arbitrary: chunk rest rule: scan_len.induct)
  case (2 b c cs)
  then show ?case
    by (auto simp: Let_def split: if_splits prod.splits list.splits)
qed simp

lemma scan_len_chunk:
  assumes "scan_len False p = (chunk, rest)" and "p \<noteq> []" and "hd p \<noteq> CHR ''*''"
  shows "chunk \<noteq> []"
  using assms by (cases p) (auto simp: Let_def split: if_splits prod.splits list.splits)

lemma scanChunk_shorter:
  assumes "(star, chunk, rest) = scanChunk pattern" and "pattern \<noteq> []"
  shows "length rest < length pattern"
proof -
  define p where "p = dropWhile (\<lambda>c. c = CHR ''*'') pattern"
  have e: "scan_len False p = (chunk, rest)" and star: "star = (p \<noteq> pattern)"
    using assms(1) by (simp_all add: scanChunk_def p_def Let_def)
  have le: "length p \<le> length pattern" unfolding p_def by (rule length_dropWhile_le)
  show ?thesis
  proof (cases "p = []")
    case True
    then show ?thesis using e assms(2) by simp
  next
    case False
    then have "hd p \<noteq> CHR ''*''" using hd_dropWhile [of "\<lambda>c. c = CHR ''*''" pattern] by (simp add: p_def)
    then have "chunk \<noteq> []" using scan_len_chunk [OF e False] by simp
    then show ?thesis using scan_len_append [OF e] le by (cases chunk) auto
  qed
qed

text \<open>A chunk after a star: tried after skipping one, two, ... characters, never past a slash.\<close>

fun star_try :: "string \<Rightarrow> bool \<Rightarrow> string \<Rightarrow> string option option" where
  "star_try chunk final [] = Some None"
| "star_try chunk final (c # cs) =
     (if c = CHR ''/'' then Some None
      else
        (case matchChunk False chunk cs of
           None \<Rightarrow> None
         | Some None \<Rightarrow> star_try chunk final cs
         | Some (Some t) \<Rightarrow> if final \<and> t \<noteq> [] then star_try chunk final cs else Some (Some t)))"

text \<open>The rest of a pattern after a mismatch is still checked for being well formed.\<close>

function rest_valid :: "string \<Rightarrow> bool" where
  "rest_valid pattern =
     (if pattern = [] then True
      else
        let (star, chunk, rest) = scanChunk pattern in
        if matchChunk False chunk [] = None then False else rest_valid rest)"
  by pat_completeness auto

termination rest_valid
  by (relation "measure length") (auto intro: scanChunk_shorter)

declare rest_valid.simps [simp del]

function path_Match :: "string \<Rightarrow> string \<Rightarrow> bool option" where
  "path_Match pattern name =
     (if pattern = [] then Some (name = [])
      else
        let (star, chunk, rest) = scanChunk pattern in
        if star \<and> chunk = [] then Some (CHR ''/'' \<notin> set name)
        else
          let here = matchChunk False chunk name;
              go = (case here of Some (Some t) \<Rightarrow> if t = [] \<or> rest \<noteq> [] then Some (Some t) else Some None | r \<Rightarrow> r);
              found = (case go of
                         Some None \<Rightarrow> if star then star_try chunk (rest = []) name else Some None
                       | r \<Rightarrow> r)
          in (case found of
                None \<Rightarrow> None
              | Some (Some t) \<Rightarrow> path_Match rest t
              | Some None \<Rightarrow> if rest_valid rest then Some False else None))"
  by pat_completeness auto

termination path_Match
  by (relation "measure (\<lambda>(pattern, name). length pattern)") (auto intro: scanChunk_shorter)

declare path_Match.simps [simp del]

text \<open>\<open>filepath.Ext\<close>: the part from the last dot on, if no slash follows that dot.\<close>

definition filepath_Ext :: "string \<Rightarrow> string" where
  "filepath_Ext path =
     (let t = takeWhile (\<lambda>c. c \<noteq> CHR ''.'' \<and> c \<noteq> CHR ''/'') (rev path);
          d = dropWhile (\<lambda>c. c \<noteq> CHR ''.'' \<and> c \<noteq> CHR ''/'') (rev path)
      in case d of c # _ \<Rightarrow> if c = CHR ''.'' then c # rev t else [] | [] \<Rightarrow> [])"

section \<open>Malformed patterns\<close>

lemma class_ranges_rest:
  "map_option snd (class_ranges r some found chunk) = map_option snd (class_ranges r' some found' chunk)"
proof (induction r some found chunk arbitrary: found' rule: class_ranges.induct)
  case (1 r some found chunk)
  show ?case
  proof (cases "chunk \<noteq> [] \<and> hd chunk = CHR '']'' \<and> some")
    case True
    then show ?thesis by (simp add: class_ranges.simps [of _ _ _ chunk])
  next
    case False
    note unfold = class_ranges.simps [of _ some _ chunk, unfolded if_not_P [OF False]]
    show ?thesis
    proof (cases "getEsc chunk")
      case None
      then show ?thesis by (simp add: unfold)
    next
      case (Some p)
      then obtain lo k where g: "getEsc chunk = Some (lo, k)" by (cases p) auto
      show ?thesis
      proof (cases "hd k = CHR ''-''")
        case dash: True
        show ?thesis
        proof (cases "getEsc (tl k)")
          case None
          then show ?thesis using g dash by (simp add: unfold)
        next
          case (Some q)
          then obtain hi k' where h: "getEsc (tl k) = Some (hi, k')" by (cases q) auto
          then show ?thesis using 1(1) [OF False g refl dash h refl] g dash by (simp add: unfold)
        qed
      next
        case dash: False
        then show ?thesis using 1(2) [OF False g refl dash] g by (simp add: unfold)
      qed
    qed
  qed
qed

lemma class_ranges_None:
  "class_ranges r some found chunk = None \<longleftrightarrow> class_ranges r' some found' chunk = None"
  using class_ranges_rest [of r some found chunk r' found'] by (metis option.map_disc_iff)

lemma class_ranges_Some:
  assumes "class_ranges r some found chunk = Some (b, rest)"
  obtains b' where "class_ranges r' some found' chunk = Some (b', rest)"
proof -
  have "map_option snd (class_ranges r' some found' chunk) = Some rest"
    by (subst class_ranges_rest [of r' some found' chunk r found]) (simp add: assms)
  then show ?thesis using that by (auto simp: map_option_eq_Some)
qed

text \<open>Whether a chunk is malformed does not depend on the string it is compared with.\<close>

lemma matchChunk_None: "matchChunk failed chunk s = None \<longleftrightarrow> matchChunk failed' chunk s' = None"
proof (induction failed chunk s arbitrary: failed' s' rule: matchChunk.induct)
  case (1 failed chunk s)
  define f where "f = (failed \<or> s = [])"
  define f' where "f' = (failed' \<or> s' = [])"
  show ?case
  proof (cases "chunk = []")
    case True
    then show ?thesis by (simp add: matchChunk.simps)
  next
    case ne: False
    note unfold = matchChunk.simps [of failed chunk s, unfolded if_not_P [OF ne] Let_def, folded f_def]
      matchChunk.simps [of failed' chunk s', unfolded if_not_P [OF ne] Let_def, folded f'_def]
    consider (cls) "hd chunk = CHR ''[''" | (any) "hd chunk = CHR ''?''"
      | (lit) "hd chunk \<noteq> CHR ''[''" "hd chunk \<noteq> CHR ''?''" by blast
    then show ?thesis
    proof cases
      case cls
      define k where "k = (if tl chunk \<noteq> [] \<and> hd (tl chunk) = CHR ''^'' then tl (tl chunk) else tl chunk)"
      obtain r n where d: "(if f then (0, 0) else DecodeRune s) = (r, n)" by (cases "if f then (0, 0) else DecodeRune s") auto
      obtain r' n' where d': "(if f' then (0, 0) else DecodeRune s') = (r', n')"
        by (cases "if f' then (0, 0) else DecodeRune s'") auto
      show ?thesis
      proof (cases "class_ranges r False False k")
        case None
        then have "class_ranges r' False False k = None" using class_ranges_None by blast
        then show ?thesis using None cls by (simp add: unfold d d' flip: k_def)
      next
        case (Some q)
        then obtain b rest where q: "class_ranges r False False k = Some (b, rest)" by (cases q) auto
        obtain b' where q': "class_ranges r' False False k = Some (b', rest)" using class_ranges_Some [OF q] by blast
        let ?neg = "tl chunk \<noteq> [] \<and> hd (tl chunk) = CHR ''^''"
        have "matchChunk (f \<or> b = ?neg) rest (drop n s) = None \<longleftrightarrow> matchChunk (f' \<or> b' = ?neg) rest (drop n' s') = None"
          using 1(1) [OF ne refl, folded f_def, OF cls d [symmetric] refl refl refl q [unfolded k_def] refl] by blast
        then show ?thesis using cls q q' by (simp only: unfold d d' if_True prod.case option.case simp_thms flip: k_def)
      qed
    next
      case any
      have "matchChunk (f \<or> hd s = CHR ''/'') (tl chunk) (if f then s else drop (snd (DecodeRune s)) s) = None \<longleftrightarrow>
          matchChunk (f' \<or> hd s' = CHR ''/'') (tl chunk) (if f' then s' else drop (snd (DecodeRune s')) s') = None"
        using 1(2) [OF ne refl, folded f_def] any by simp
      then show ?thesis using any by (simp only: unfold if_True) simp
    next
      case lit
      define k where "k = (if hd chunk = CHR 0x5C then tl chunk else chunk)"
      have "matchChunk (f \<or> hd k \<noteq> hd s) (tl k) (if f then s else tl s) = None \<longleftrightarrow>
          matchChunk (f' \<or> hd k \<noteq> hd s') (tl k) (if f' then s' else tl s') = None" if "k \<noteq> []"
        using 1(3) [OF ne refl, folded f_def, OF lit refl, folded k_def, OF that] by blast
      then show ?thesis using lit by (cases "k = []") (simp_all only: unfold if_False if_True flip: k_def, simp_all)
    qed
  qed
qed

lemma star_try_valid: "(\<And>s. matchChunk False chunk s \<noteq> None) \<Longrightarrow> star_try chunk final name \<noteq> None"
proof (induction name)
  case (Cons c cs)
  then obtain r where "matchChunk False chunk cs = Some r" by blast
  with Cons show ?case by (cases r) auto
qed simp

lemma star_try_malformed: "(\<And>s. matchChunk False chunk s = None) \<Longrightarrow> star_try chunk final name \<in> {None, Some None}"
  by (induction name) auto

text \<open>Whether a pattern is malformed does not depend on the name.\<close>

lemma path_Match_None: "path_Match pattern name = None \<longleftrightarrow> \<not> rest_valid pattern"
proof (induction pattern name rule: path_Match.induct)
  case (1 pattern name)
  show ?case
  proof (cases "pattern = []")
    case True
    then show ?thesis by (simp add: path_Match.simps rest_valid.simps)
  next
    case ne: False
    obtain star chunk rest where sc: "scanChunk pattern = (star, chunk, rest)" by (cases "scanChunk pattern") auto
    note unfold = path_Match.simps [of pattern name] rest_valid.simps [of pattern]
    note ih = 1 [OF ne sc [symmetric] refl]
    show ?thesis
    proof (cases "matchChunk False chunk []")
      case None
      then have bad: "matchChunk False chunk t = None" for t using matchChunk_None by blast
      then have "chunk \<noteq> []" by (metis matchChunk.simps option.simps(3))
      then show ?thesis using ne sc None bad by (simp add: unfold)
    next
      case (Some r)
      then have good: "matchChunk False chunk t \<noteq> None" for t using matchChunk_None [of False chunk t False "[]"] by simp
      show ?thesis
      proof (cases "star \<and> chunk = []")
        case True
        then have "rest = []" using sc scan_len_chunk [of "dropWhile (\<lambda>c. c = CHR ''*'') pattern" "[]" rest]
            hd_dropWhile [of "\<lambda>c. c = CHR ''*''" pattern]
          by (cases "dropWhile (\<lambda>c. c = CHR ''*'') pattern") (auto simp: scanChunk_def Let_def)
        then show ?thesis using ne sc True Some by (simp add: unfold rest_valid.simps [of "[]"])
      next
        case False
        define found where "found = (case (case matchChunk False chunk name of
             Some (Some t) \<Rightarrow> if t = [] \<or> rest \<noteq> [] then Some (Some t) else Some None | r \<Rightarrow> r) of
           Some None \<Rightarrow> if star then star_try chunk (rest = []) name else Some None | r \<Rightarrow> r)"
        have pm: "path_Match pattern name = (case found of None \<Rightarrow> None | Some (Some t) \<Rightarrow> path_Match rest t
             | Some None \<Rightarrow> if rest_valid rest then Some False else None)"
          using ne sc False by (simp add: unfold Let_def found_def)
        have rv: "rest_valid pattern = rest_valid rest" using ne sc Some by (simp add: unfold)
        have "found \<noteq> None"
          using good [of name] star_try_valid [OF good, of "rest = []" name]
          by (auto simp: found_def split: option.splits)
        then consider t where "found = Some (Some t)" | "found = Some None" by (cases found) auto
        then show ?thesis
        proof cases
          case (1 t)
          then show ?thesis using ih [OF refl False refl refl, folded found_def] by (simp add: pm rv)
        qed (simp add: pm rv)
      qed
    qed
  qed
qed

section \<open>Literal patterns\<close>

definition literal :: "char \<Rightarrow> bool" where
  "literal c \<longleftrightarrow> c \<noteq> CHR ''*'' \<and> c \<noteq> CHR ''?'' \<and> c \<noteq> CHR ''['' \<and> c \<noteq> CHR '']'' \<and> c \<noteq> CHR 0x5C"

lemma matchChunk_Nil [simp]: "matchChunk failed [] s = Some (if failed then None else Some s)"
  by (simp add: matchChunk.simps)

lemma matchChunk_failed: "matchChunk True chunk s \<noteq> Some (Some t)"
proof (induction "length chunk" arbitrary: chunk s rule: less_induct)
  case less
  then have ih: "length k < length chunk \<Longrightarrow> matchChunk True k s' \<noteq> Some (Some t)" for k s' by blast
  define k where "k = (if tl chunk \<noteq> [] \<and> hd (tl chunk) = CHR ''^'' then tl (tl chunk) else tl chunk)"
  have "length rest < length chunk" if "chunk \<noteq> []" "class_ranges 0 False False k = Some (b, rest)" for b rest
    using class_ranges_shorter [OF that(2)] that(1) by (cases chunk) (auto simp: k_def split: if_splits)
  then have cls: "(case class_ranges 0 False False k of None \<Rightarrow> None | Some (found, rest) \<Rightarrow> matchChunk True rest s) \<noteq> Some (Some t)"
    if "chunk \<noteq> []" using that ih by (auto split: option.splits)
  show ?case
  proof (cases "chunk = []")
    case False
    then have "matchChunk True (tl chunk) s \<noteq> Some (Some t)" "matchChunk True (tl (tl chunk)) s \<noteq> Some (Some t)"
      by (auto intro!: ih simp: neq_Nil_conv)
    then show ?thesis using cls [OF False] False by (subst matchChunk.simps) (auto simp: Let_def k_def cong: option.case_cong)
  qed simp
qed

lemma matchChunk_literal:
  assumes "literal c"
  shows "matchChunk False (c # k) (c # s) = matchChunk False k s"
    and "s = [] \<or> hd s \<noteq> c \<Longrightarrow> matchChunk False (c # k) s \<in> {Some None, None}"
proof -
  show "matchChunk False (c # k) (c # s) = matchChunk False k s"
    using assms by (subst matchChunk.simps) (simp add: literal_def Let_def)
  assume s: "s = [] \<or> hd s \<noteq> c"
  have "matchChunk False (c # k) s = matchChunk True k (if s = [] then s else tl s)"
    using assms s by (subst matchChunk.simps) (auto simp: literal_def Let_def)
  then show "matchChunk False (c # k) s \<in> {Some None, None}"
    using matchChunk_failed [of k "if s = [] then s else tl s"]
    by (cases "matchChunk True k (if s = [] then s else tl s)") (auto simp: option.split)
qed

lemma scanChunk_literal:
  assumes "literal c"
  shows "scanChunk (c # q) = (False, c # fst (scan_len False q), snd (scan_len False q))"
  using assms by (simp add: scanChunk_def literal_def Let_def split: prod.splits)

text \<open>The part of a pattern behind a literal character is matched as a pattern of its own.\<close>

lemma path_Match_chunk:
  assumes "q \<noteq> []" and "hd q \<noteq> CHR ''*''"
  shows "scanChunk q = (False, scan_len False q)"
  using assms by (cases q) (simp_all add: scanChunk_def)

lemma scan_len_star: "scan_len False (CHR ''*'' # q) = ([], CHR ''*'' # q)"
  by simp

lemma path_Match_literal_same:
  assumes "literal c"
  shows "path_Match (c # q) (c # n) = path_Match q n"
proof -
  consider (nil) "q = []" | (star) q' where "q = CHR ''*'' # q'" | (chunk) "q \<noteq> []" "hd q \<noteq> CHR ''*''"
    by (cases q) auto
  then show ?thesis
  proof cases
    case nil
    then show ?thesis using assms
      by (subst path_Match.simps)
        (simp add: scanChunk_literal matchChunk_literal path_Match.simps [of "[]"] rest_valid.simps [of "[]"] Let_def)
  next
    case star
    then show ?thesis using assms
      by (subst path_Match.simps) (simp add: scanChunk_literal matchChunk_literal Let_def)
  next
    case chunk
    obtain k rest where s: "scan_len False q = (k, rest)" by (cases "scan_len False q") auto
    have "path_Match (c # q) (c # n) = (case (case matchChunk False k n of
             Some (Some t) \<Rightarrow> if t = [] \<or> rest \<noteq> [] then Some (Some t) else Some None | r \<Rightarrow> r) of
           None \<Rightarrow> None | Some (Some t) \<Rightarrow> path_Match rest t | Some None \<Rightarrow> if rest_valid rest then Some False else None)"
      using assms s by (subst path_Match.simps)
        (simp add: scanChunk_literal matchChunk_literal Let_def split: option.split)
    moreover have "path_Match q n = (case (case matchChunk False k n of
             Some (Some t) \<Rightarrow> if t = [] \<or> rest \<noteq> [] then Some (Some t) else Some None | r \<Rightarrow> r) of
           None \<Rightarrow> None | Some (Some t) \<Rightarrow> path_Match rest t | Some None \<Rightarrow> if rest_valid rest then Some False else None)"
      using chunk s by (subst path_Match.simps) (simp add: path_Match_chunk Let_def split: option.split)
    ultimately show ?thesis by simp
  qed
qed

lemma path_Match_literal_other:
  assumes "literal c" and "n = [] \<or> hd n \<noteq> c"
  shows "path_Match (c # q) n \<noteq> Some True"
proof -
  have "matchChunk False (c # fst (scan_len False q)) n \<in> {Some None, None}"
    by (rule matchChunk_literal(2) [OF assms])
  then show ?thesis using assms(1)
    by (subst path_Match.simps) (auto simp: scanChunk_literal Let_def)
qed

lemma path_Match_prefix:
  assumes "list_all literal l"
  shows "path_Match (l @ q) n = Some True \<longleftrightarrow> (\<exists>m. n = l @ m \<and> path_Match q m = Some True)"
  using assms
proof (induction l arbitrary: n)
  case (Cons c l)
  then show ?case
  proof (cases "n \<noteq> [] \<and> hd n = c")
    case True
    then obtain m where "n = c # m" by (cases n) auto
    then show ?thesis using Cons by (simp add: path_Match_literal_same)
  next
    case False
    then show ?thesis using Cons path_Match_literal_other [of c n "l @ q"] by auto
  qed
qed simp

lemma path_Match_Nil [simp]: "path_Match [] n = Some (n = [])"
  by (simp add: path_Match.simps)

lemma path_Match_star [simp]: "path_Match ''*'' n = Some (CHR ''/'' \<notin> set n)"
  by (simp add: path_Match.simps scanChunk_def Let_def)

text \<open>A literal pattern matches itself; with a final star, every continuation without a slash.\<close>

lemma path_Match_exact: "list_all literal l \<Longrightarrow> path_Match l n = Some True \<longleftrightarrow> n = l"
  using path_Match_prefix [of l "[]" n] by simp

lemma path_Match_wildcard:
  "list_all literal l \<Longrightarrow> path_Match (l @ ''*'') n = Some True \<longleftrightarrow> (\<exists>m. n = l @ m \<and> CHR ''/'' \<notin> set m)"
  using path_Match_prefix [of l "''*''" n] by simp

end
