(* ===== verification/ConfigTypes.thy ===== *)
theory ConfigTypes
  imports GoPath GoRegexp "HOL-Library.Finite_Map"
begin

text \<open>
  The configuration of the service (\<open>internal/config/config.go\<close>): one record per struct, in the
  order in which they use each other, with the fields of the source. Durations are nanoseconds.
\<close>

text \<open>A \<open>float64\<close> as the range checks see it: a finite number, an infinity or not a number.\<close>

datatype float64 = Finite rat | PosInf | NegInf | NaN

definition float_less :: "float64 \<Rightarrow> rat \<Rightarrow> bool" where
  "float_less f r = (case f of Finite x \<Rightarrow> x < r | NegInf \<Rightarrow> True | _ \<Rightarrow> False)"

definition float_greater :: "float64 \<Rightarrow> rat \<Rightarrow> bool" where
  "float_greater f r = (case f of Finite x \<Rightarrow> r < x | PosInf \<Rightarrow> True | _ \<Rightarrow> False)"

section \<open>The structs\<close>

record Runtime =
  rt_ActiveProfile :: string
  rt_ConfigFiles :: "string list"

record App =
  app_Name :: string
  app_Schema :: string
  app_Env :: string
  app_ShutdownTimeout :: duration

record CORS =
  cors_Enabled :: bool
  cors_AllowedOrigins :: "string list"
  cors_AllowedHeaders :: "string list"
  cors_ExposedHeaders :: "string list"
  cors_MaxAge :: duration

record HTTP =
  http_Address :: string
  http_ReadTimeout :: duration
  http_WriteTimeout :: duration
  http_IdleTimeout :: duration
  http_RequestTimeout :: duration
  http_MaxBodyBytes :: int
  http_TrustedProxies :: "string list"
  http_CORS :: CORS

record GRPCTLS =
  gtls_Enabled :: bool
  gtls_CertFile :: string
  gtls_KeyFile :: string
  gtls_ClientCAFile :: string

record GRPC =
  grpc_Enabled :: bool
  grpc_Address :: string
  grpc_ReflectionEnabled :: bool
  grpc_MaxReceiveBytes :: int
  grpc_TLS :: GRPCTLS

record Log =
  log_Level :: string
  log_Format :: string
  log_File :: string
  log_MaxSizeMB :: int
  log_MaxBackups :: int
  log_MaxAgeDays :: int
  log_Compress :: bool

record Database =
  db_Enabled :: bool
  db_Name :: string
  db_Schema :: string
  db_Type :: string
  db_DSN :: string
  db_MaxOpenConns :: int
  db_MaxIdleConns :: int
  db_ConnMaxLifetime :: duration
  db_ConnMaxIdleTime :: duration
  db_PingTimeout :: duration

record RedisConfig =
  redis_Enabled :: bool
  redis_Address :: string
  redis_Username :: string
  redis_Password :: string
  redis_DB :: int
  redis_DialTimeout :: duration
  redis_ReadTimeout :: duration
  redis_WriteTimeout :: duration

record Health =
  health_DatabaseTimeout :: duration
  health_RedisTimeout :: duration

record RateLimitRule =
  rule_Rate :: int
  rule_Burst :: int
  rule_Period :: duration

record RateLimit =
  rl_Enabled :: bool
  rl_FailOpen :: bool
  rl_IP :: RateLimitRule
  rl_API :: RateLimitRule
  rl_User :: RateLimitRule
  rl_Login :: RateLimitRule

record Observability =
  obs_MetricsEnabled :: bool
  obs_TracingEnabled :: bool
  obs_TracingEndpoint :: string
  obs_TracingSampleRatio :: float64
  obs_PprofEnabled :: bool
  obs_PprofToken :: string

record Swagger =
  swagger_Enabled :: bool
  swagger_RequireAuth :: bool

record JWT =
  jwt_Issuer :: string
  jwt_Secret :: string
  jwt_TTL :: duration

record PSK =
  psk_Enabled :: bool
  psk_Key :: string
  psk_HTTPPaths :: "string list"
  psk_GRPCMethods :: "string list"

record Auth =
  auth_ClientID :: string
  auth_ClientSecret :: string
  auth_JWKSURL :: string
  auth_Issuer :: string
  auth_Audience :: string
  auth_SkipHTTPPaths :: "string list"
  auth_SkipGRPCMethods :: "string list"
  auth_PSK :: PSK

record Authorization =
  authz_Enabled :: bool

record Cron =
  cron_Enabled :: bool
  cron_Timezone :: string
  cron_SampleSpec :: string

record Migration =
  mig_AutoUp :: bool
  mig_CreateSchema :: bool
  mig_Path :: string
  mig_DatabaseURL :: string
  mig_Table :: string
  mig_Schema :: string
  mig_DatabaseName :: string

record User =
  user_CacheTTL :: duration
  user_LockTTL :: duration
  user_LockRetryDelay :: duration

record Idempotency =
  idem_Enabled :: bool
  idem_HTTPPaths :: "string list"
  idem_GRPCMethods :: "string list"
  idem_ProcessingTTL :: duration
  idem_ResultTTL :: duration
  idem_FailureTTL :: duration

record ClientAuth =
  ca_Type :: string
  ca_Token :: string

record Retry =
  retry_MaxAttempts :: int
  retry_InitialBackoff :: duration
  retry_MaxBackoff :: duration
  retry_Methods :: "string list"

record Breaker =
  brk_Enabled :: bool
  brk_FailureThreshold :: nat
  brk_OpenTimeout :: duration

record ClientTLS =
  ctls_Enabled :: bool
  ctls_ServerName :: string
  ctls_CAFile :: string
  ctls_CertFile :: string
  ctls_KeyFile :: string

record HTTPUpstream =
  hup_BaseURL :: string
  hup_Timeout :: duration
  hup_Auth :: ClientAuth
  hup_Retry :: Retry
  hup_Breaker :: Breaker
  hup_TLS :: ClientTLS

record GRPCUpstream =
  gup_Target :: string
  gup_Timeout :: duration
  gup_Auth :: ClientAuth
  gup_Retry :: Retry
  gup_Breaker :: Breaker
  gup_TLS :: ClientTLS

record Outbound =
  out_HTTP :: "(string, HTTPUpstream) fmap"
  out_GRPC :: "(string, GRPCUpstream) fmap"

record EventBus =
  bus_Enabled :: bool
  bus_URLs :: "string list"
  bus_StreamName :: string
  bus_Subjects :: "string list"
  bus_Storage :: string
  bus_MaxAge :: duration
  bus_DuplicateWindow :: duration
  bus_ConnectTimeout :: duration
  bus_ReconnectWait :: duration
  bus_PublishTimeout :: duration
  bus_ConsumerAckWait :: duration
  bus_ConsumerMaxDeliver :: int

record Config =
  cfg_Runtime :: Runtime
  cfg_App :: App
  cfg_HTTP :: HTTP
  cfg_GRPC :: GRPC
  cfg_Log :: Log
  cfg_Database :: Database
  cfg_Redis :: RedisConfig
  cfg_Health :: Health
  cfg_RateLimit :: RateLimit
  cfg_Observability :: Observability
  cfg_Swagger :: Swagger
  cfg_JWT :: JWT
  cfg_Auth :: Auth
  cfg_Authorization :: Authorization
  cfg_Cron :: Cron
  cfg_Migration :: Migration
  cfg_User :: User
  cfg_Idempotency :: Idempotency
  cfg_Outbound :: Outbound
  cfg_EventBus :: EventBus

section \<open>Checks in sequence\<close>

text \<open>
  An error of validation: a text, or a text around a value that is printed quoted (\<open>%q\<close>).
\<close>

datatype config_err =
    Msg string
  | Quoted string string string

text \<open>A sequence of \<open>if ... { return err }\<close>: the first check that fails decides.\<close>

definition must :: "bool \<Rightarrow> config_err \<Rightarrow> config_err option" where
  "must ok err = (if ok then None else Some err)"

primrec first_error :: "config_err option list \<Rightarrow> config_err option" where
  "first_error [] = None"
| "first_error (r # rs) = (case r of None \<Rightarrow> first_error rs | Some e \<Rightarrow> Some e)"

lemma must_None [simp]: "must ok err = None \<longleftrightarrow> ok"
  by (simp add: must_def)

lemma first_error_None [simp]: "first_error rs = None \<longleftrightarrow> list_all (\<lambda>r. r = None) rs"
  by (induction rs) (auto split: option.splits)

declare first_error.simps [simp del]

end
