(* ===== verification/ConfigValidate.thy ===== *)
theory ConfigValidate
  imports ConfigTypes
begin

text \<open>
  The validation of a configuration: \<open>Config.Validate\<close>, \<open>validateClientPolicy\<close> and their
  helpers. A loop over a Go map visits the keys in an order that differs from run to run: the
  argument \<open>visit\<close> rearranges the sorted list of keys. The theorem \<open>Validate_None\<close> says in
  declarative form what an accepted configuration satisfies, whatever that order is.
\<close>

section \<open>Patterns\<close>

definition validProfile :: re where
  "validProfile =
     RCat (RCls [(CHR ''a'', CHR ''z''), (CHR ''0'', CHR ''9'')])
       (RStar (RCls [(CHR ''a'', CHR ''z''), (CHR ''0'', CHR ''9''), (CHR ''_'', CHR ''_''), (CHR ''-'', CHR ''-'')]))"

definition validMigrationTable :: re where
  "validMigrationTable =
     RCat (RCls [(CHR ''a'', CHR ''z'')])
       (RUpto 62 (RCls [(CHR ''a'', CHR ''z''), (CHR ''0'', CHR ''9''), (CHR ''_'', CHR ''_'')]))"

definition isDBType :: "string \<Rightarrow> bool" where
  "isDBType v \<longleftrightarrow> v = ''mysql'' \<or> v = ''postgres'' \<or> v = ''kingbase''"

text \<open>The trial match with which every route pattern is checked for being well formed.\<close>

definition pattern_compiles :: "string \<Rightarrow> bool" where
  "pattern_compiles pattern \<longleftrightarrow> path_Match pattern ''/validation/target'' \<noteq> None"

definition ErrBadPattern :: string where
  "ErrBadPattern = ''syntax error in pattern''"

definition is_http_pattern :: "string \<Rightarrow> bool" where
  "is_http_pattern pattern = strings_HasPrefix pattern ''/api/''"

definition is_method_pattern :: "string \<Rightarrow> bool" where
  "is_method_pattern pattern \<longleftrightarrow> strings_HasPrefix pattern ''/'' \<and> strings_Count pattern (CHR ''/'') = 2"

definition check_http_patterns :: "string \<Rightarrow> string list \<Rightarrow> config_err option" where
  "check_http_patterns key patterns = first_error (map (\<lambda>pattern. first_error
     [must (is_http_pattern pattern) (Quoted (key @ '' contains path outside /api '') pattern ''''),
      must (pattern_compiles pattern) (Quoted (key @ '' contains invalid pattern '') pattern ('': '' @ ErrBadPattern))])
     patterns)"

definition check_method_patterns :: "string \<Rightarrow> string list \<Rightarrow> config_err option" where
  "check_method_patterns key patterns = first_error (map (\<lambda>pattern. first_error
     [must (is_method_pattern pattern) (Quoted (key @ '' contains invalid method pattern '') pattern ''''),
      must (pattern_compiles pattern) (Quoted (key @ '' contains invalid pattern '') pattern ('': '' @ ErrBadPattern))])
     patterns)"

section \<open>Outbound clients\<close>

definition validateClientPolicy ::
    "string \<Rightarrow> ClientAuth \<Rightarrow> Retry \<Rightarrow> Breaker \<Rightarrow> ClientTLS \<Rightarrow> config_err option" where
  "validateClientPolicy name auth retry breaker tls =
     (let outbound = (\<lambda>what. Msg (''outbound '' @ name @ what)) in
      first_error
        [must (ca_Type auth \<in> {'''', ''bearer'', ''psk''}) (outbound '' auth.type must be bearer or psk''),
         must (\<not> (ca_Type auth \<noteq> '''' \<and> ca_Token auth = '''')) (outbound '' auth.token is required''),
         must (\<not> (ca_Type auth \<noteq> '''' \<and> \<not> ctls_Enabled tls)) (outbound '' credentials require TLS''),
         must (\<not> (retry_MaxAttempts retry < 1 \<or> 5 < retry_MaxAttempts retry \<or> retry_InitialBackoff retry \<le> 0 \<or>
             retry_MaxBackoff retry < retry_InitialBackoff retry)) (outbound '' retry policy is invalid''),
         first_error (map (\<lambda>pattern. first_error
           [must (is_method_pattern pattern) (outbound '' retry method pattern is invalid''),
            must (pattern_compiles pattern) (outbound ('' retry method pattern is invalid: '' @ ErrBadPattern))])
           (retry_Methods retry)),
         must (\<not> (brk_Enabled breaker \<and> (brk_FailureThreshold breaker = 0 \<or> brk_OpenTimeout breaker \<le> 0)))
           (outbound '' breaker policy is invalid''),
         must (\<not> (ctls_Enabled tls \<and> (ctls_CertFile tls = '''') \<noteq> (ctls_KeyFile tls = '''')))
           (outbound '' TLS certificate and key must be configured together'')])"

text \<open>A loop over a map: the keys in the order of the run, and the value at each.\<close>

definition range_map :: "(string list \<Rightarrow> string list) \<Rightarrow> (string, 'v) fmap \<Rightarrow> (string \<times> 'v) list" where
  "range_map visit m = map (\<lambda>k. (k, the (fmlookup m k))) (visit (sorted_list_of_fset (fmdom m)))"

definition check_http_upstream :: "string \<times> HTTPUpstream \<Rightarrow> config_err option" where
  "check_http_upstream = (\<lambda>(name, upstream). first_error
     [must (\<not> (hup_BaseURL upstream = '''' \<or> hup_Timeout upstream \<le> 0))
        (Msg (''outbound.http.'' @ name @ '' requires base_url and positive timeout'')),
      validateClientPolicy name (hup_Auth upstream) (hup_Retry upstream) (hup_Breaker upstream) (hup_TLS upstream)])"

definition check_grpc_upstream :: "string \<times> GRPCUpstream \<Rightarrow> config_err option" where
  "check_grpc_upstream = (\<lambda>(name, upstream). first_error
     [must (\<not> (gup_Target upstream = '''' \<or> gup_Timeout upstream \<le> 0))
        (Msg (''outbound.grpc.'' @ name @ '' requires target and positive timeout'')),
      validateClientPolicy name (gup_Auth upstream) (gup_Retry upstream) (gup_Breaker upstream) (gup_TLS upstream)])"

definition rate_rules :: "RateLimit \<Rightarrow> (string, RateLimitRule) fmap" where
  "rate_rules r = fmap_of_list [(''ip'', rl_IP r), (''api'', rl_API r), (''user'', rl_User r), (''login'', rl_Login r)]"

definition check_rate_rule :: "string \<times> RateLimitRule \<Rightarrow> config_err option" where
  "check_rate_rule = (\<lambda>(name, rule).
     must (\<not> (rule_Rate rule \<le> 0 \<or> rule_Burst rule \<le> 0 \<or> rule_Period rule \<le> 0))
       (Msg (''rate_limit.'' @ name @ '' values must be positive'')))"

section \<open>Config.Validate\<close>

definition Validate :: "(string list \<Rightarrow> string list) \<Rightarrow> Config \<Rightarrow> config_err option" where
  "Validate visit c =
     (let production = (app_Env (cfg_App c) = ''production'');
          db = cfg_Database c; http = cfg_HTTP c; grpc = cfg_GRPC c; mig = cfg_Migration c;
          redis = cfg_Redis c; health = cfg_Health c; rl = cfg_RateLimit c; obs = cfg_Observability c;
          auth = cfg_Auth c; psk = auth_PSK (cfg_Auth c); user = cfg_User c; idem = cfg_Idempotency c;
          bus = cfg_EventBus c; out = cfg_Outbound c
      in first_error
        [must (re_match validMigrationTable (db_Name db))
           (Msg ''database.name must contain lowercase letters, digits, or underscores and be at most 63 characters''),
         must (\<not> (db_Schema db \<noteq> '''' \<and> \<not> re_match validMigrationTable (db_Schema db)))
           (Msg ''database.schema must contain lowercase letters, digits, or underscores and be at most 63 characters''),
         must (http_Address http \<noteq> '''') (Msg ''http.address is required''),
         must (\<not> (grpc_Enabled grpc \<and> (grpc_Address grpc = '''' \<or> grpc_MaxReceiveBytes grpc \<le> 0)))
           (Msg ''enabled grpc requires address and positive max_receive_bytes''),
         must (\<not> (gtls_Enabled (grpc_TLS grpc) \<and> (gtls_CertFile (grpc_TLS grpc) = '''' \<or> gtls_KeyFile (grpc_TLS grpc) = '''')))
           (Msg ''grpc tls requires cert_file and key_file''),
         must (\<not> (production \<and> grpc_Enabled grpc \<and> \<not> gtls_Enabled (grpc_TLS grpc)))
           (Msg ''grpc tls must be enabled in production''),
         must (\<not> (production \<and> grpc_ReflectionEnabled grpc))
           (Msg ''grpc reflection must be disabled in production''),
         must (\<not> (db_Enabled db \<and> (db_DSN db = '''' \<or> \<not> isDBType (db_Type db))))
           (Msg ''enabled database requires dsn and type mysql, postgres, or kingbase''),
         must (\<not> (mig_AutoUp mig \<and> (\<not> db_Enabled db \<or> mig_Path mig = '''' \<or> mig_DatabaseURL mig = '''' \<or>
             \<not> re_match validMigrationTable (mig_Table mig))))
           (Msg ''migration.auto_up requires enabled database, path, database_url, and a valid service-specific table''),
         must (\<not> (redis_Enabled redis \<and> redis_Address redis = '''')) (Msg ''enabled redis requires address''),
         must (\<not> (http_RequestTimeout http \<le> 0 \<or> health_DatabaseTimeout health \<le> 0 \<or> health_RedisTimeout health \<le> 0))
           (Msg ''http and health timeouts must be positive''),
         must (\<not> (rl_Enabled rl \<and> \<not> redis_Enabled redis)) (Msg ''rate_limit requires redis.enabled''),
         (if rl_Enabled rl then first_error (map check_rate_rule (range_map visit (rate_rules rl))) else None),
         must (\<not> (cors_Enabled (http_CORS http) \<and> length (cors_AllowedOrigins (http_CORS http)) = 0))
           (Msg ''cors.allowed_origins is required when cors is enabled''),
         must (\<not> (float_less (obs_TracingSampleRatio obs) 0 \<or> float_greater (obs_TracingSampleRatio obs) 1))
           (Msg ''observability.tracing_sample_ratio must be between 0 and 1''),
         must (\<not> (obs_TracingEnabled obs \<and> obs_TracingEndpoint obs = ''''))
           (Msg ''observability.tracing_endpoint is required''),
         must (\<not> (obs_PprofEnabled obs \<and> length (obs_PprofToken obs) < 32))
           (Msg ''observability.pprof_token must contain at least 32 bytes''),
         must (\<not> (production \<and> swagger_Enabled (cfg_Swagger c) \<and> \<not> swagger_RequireAuth (cfg_Swagger c)))
           (Msg ''swagger.require_auth must be enabled in production''),
         must (\<not> ((auth_ClientID auth \<noteq> '''' \<or> auth_ClientSecret auth \<noteq> '''') \<and> length (jwt_Secret (cfg_JWT c)) < 32))
           (Msg ''jwt.secret must contain at least 32 bytes when auth is enabled''),
         check_http_patterns ''auth.skip_http_paths'' (auth_SkipHTTPPaths auth),
         must (\<not> (production \<and> (strings_TrimSpace (auth_JWKSURL auth) = '''' \<or> strings_TrimSpace (auth_Issuer auth) = '''' \<or>
             strings_TrimSpace (auth_Audience auth) = '''')))
           (Msg ''production auth requires JWKS URL, issuer, and audience''),
         must (\<not> (production \<and> \<not> authz_Enabled (cfg_Authorization c)))
           (Msg ''authorization must be enabled in production''),
         must (\<not> (authz_Enabled (cfg_Authorization c) \<and> fmlookup (out_GRPC out) ''authorization'' = None))
           (Msg ''enabled authorization requires outbound.grpc.authorization''),
         check_method_patterns ''auth.skip_grpc_methods'' (auth_SkipGRPCMethods auth),
         must (\<not> (psk_Enabled psk \<and> (length (psk_Key psk) < 32 \<or> length (psk_HTTPPaths psk) + length (psk_GRPCMethods psk) = 0)))
           (Msg ''enabled auth.psk requires a key of at least 32 bytes and at least one route pattern''),
         check_http_patterns ''auth.psk.http_paths'' (psk_HTTPPaths psk),
         check_method_patterns ''auth.psk.grpc_methods'' (psk_GRPCMethods psk),
         must (\<not> (user_CacheTTL user \<le> 0 \<or> user_LockTTL user \<le> 0 \<or> user_LockRetryDelay user \<le> 0))
           (Msg ''user cache and lock durations must be positive''),
         must (\<not> (idem_Enabled idem \<and> (\<not> redis_Enabled redis \<or>
             (length (idem_HTTPPaths idem) = 0 \<and> length (idem_GRPCMethods idem) = 0) \<or>
             idem_ProcessingTTL idem \<le> 0 \<or> idem_ResultTTL idem \<le> 0 \<or> idem_FailureTTL idem \<le> 0)))
           (Msg ''enabled idempotency requires redis, at least one route pattern, and positive TTL values''),
         check_http_patterns ''idempotency.http_paths'' (idem_HTTPPaths idem),
         check_method_patterns ''idempotency.grpc_methods'' (idem_GRPCMethods idem),
         must (\<not> (bus_Enabled bus \<and> (length (bus_URLs bus) = 0 \<or> bus_StreamName bus = '''' \<or> length (bus_Subjects bus) = 0 \<or>
             (bus_Storage bus \<noteq> ''file'' \<and> bus_Storage bus \<noteq> ''memory'') \<or> bus_MaxAge bus \<le> 0 \<or>
             bus_DuplicateWindow bus \<le> 0 \<or> bus_ConnectTimeout bus \<le> 0 \<or> bus_ReconnectWait bus \<le> 0 \<or>
             bus_PublishTimeout bus \<le> 0 \<or> bus_ConsumerAckWait bus \<le> 0 \<or> bus_ConsumerMaxDeliver bus \<le> 0)))
           (Msg ''enabled event_bus requires URLs, stream, subjects, valid storage, positive timeouts, and max deliveries''),
         first_error (map check_http_upstream (range_map visit (out_HTTP out))),
         first_error (map check_grpc_upstream (range_map visit (out_GRPC out)))])"

section \<open>What an accepted configuration satisfies\<close>

definition http_patterns_ok :: "string list \<Rightarrow> bool" where
  "http_patterns_ok = list_all (\<lambda>p. is_http_pattern p \<and> rest_valid p)"

definition method_patterns_ok :: "string list \<Rightarrow> bool" where
  "method_patterns_ok = list_all (\<lambda>p. is_method_pattern p \<and> rest_valid p)"

definition client_ok :: "ClientAuth \<Rightarrow> Retry \<Rightarrow> Breaker \<Rightarrow> ClientTLS \<Rightarrow> bool" where
  "client_ok auth retry breaker tls \<longleftrightarrow>
     (ca_Type auth = '''' \<or> (ca_Type auth \<in> {''bearer'', ''psk''} \<and> ca_Token auth \<noteq> '''' \<and> ctls_Enabled tls)) \<and>
     1 \<le> retry_MaxAttempts retry \<and> retry_MaxAttempts retry \<le> 5 \<and>
     0 < retry_InitialBackoff retry \<and> retry_InitialBackoff retry \<le> retry_MaxBackoff retry \<and>
     method_patterns_ok (retry_Methods retry) \<and>
     (brk_Enabled breaker \<longrightarrow> 0 < brk_FailureThreshold breaker \<and> 0 < brk_OpenTimeout breaker) \<and>
     (ctls_Enabled tls \<longrightarrow> (ctls_CertFile tls = '''' \<longleftrightarrow> ctls_KeyFile tls = ''''))"

lemma pattern_compiles_iff: "pattern_compiles p \<longleftrightarrow> rest_valid p"
  by (simp add: pattern_compiles_def path_Match_None)

lemma check_http_patterns_None [simp]: "check_http_patterns key ps = None \<longleftrightarrow> http_patterns_ok ps"
  by (simp add: check_http_patterns_def http_patterns_ok_def pattern_compiles_iff list.pred_map comp_def)

lemma check_method_patterns_None [simp]: "check_method_patterns key ps = None \<longleftrightarrow> method_patterns_ok ps"
  by (simp add: check_method_patterns_def method_patterns_ok_def pattern_compiles_iff list.pred_map comp_def)

lemma validateClientPolicy_None [simp]:
  "validateClientPolicy name auth retry breaker tls = None \<longleftrightarrow> client_ok auth retry breaker tls"
  by (auto simp: validateClientPolicy_def client_ok_def method_patterns_ok_def pattern_compiles_iff list.pred_map
      comp_def Let_def)

lemma set_range_map:
  "(\<And>ks. set (visit ks) = set ks) \<Longrightarrow> set (range_map visit m) = {(k, v). fmlookup m k = Some v}"
  by (auto simp: range_map_def image_iff fmlookup_dom_iff)

lemma list_all_range_map:
  "(\<And>ks. set (visit ks) = set ks) \<Longrightarrow> list_all P (range_map visit m) \<longleftrightarrow> (\<forall>k v. fmlookup m k = Some v \<longrightarrow> P (k, v))"
  by (auto simp: list_all_iff set_range_map)

text \<open>
  The same as one predicate, by concern: what the listeners need, what an enabled dependency
  needs, what protects the interfaces, what the outbound clients need, and what only a production
  profile demands.
\<close>

definition rule_ok :: "RateLimitRule \<Rightarrow> bool" where
  "rule_ok r \<longleftrightarrow> 0 < rule_Rate r \<and> 0 < rule_Burst r \<and> 0 < rule_Period r"

definition listeners_ok :: "Config \<Rightarrow> bool" where
  "listeners_ok c \<longleftrightarrow>
     http_Address (cfg_HTTP c) \<noteq> '''' \<and> 0 < http_RequestTimeout (cfg_HTTP c) \<and>
     0 < health_DatabaseTimeout (cfg_Health c) \<and> 0 < health_RedisTimeout (cfg_Health c) \<and>
     (grpc_Enabled (cfg_GRPC c) \<longrightarrow> grpc_Address (cfg_GRPC c) \<noteq> '''' \<and> 0 < grpc_MaxReceiveBytes (cfg_GRPC c)) \<and>
     (gtls_Enabled (grpc_TLS (cfg_GRPC c)) \<longrightarrow>
        gtls_CertFile (grpc_TLS (cfg_GRPC c)) \<noteq> '''' \<and> gtls_KeyFile (grpc_TLS (cfg_GRPC c)) \<noteq> '''') \<and>
     (cors_Enabled (http_CORS (cfg_HTTP c)) \<longrightarrow> cors_AllowedOrigins (http_CORS (cfg_HTTP c)) \<noteq> [])"

definition storage_ok :: "Config \<Rightarrow> bool" where
  "storage_ok c \<longleftrightarrow>
     re_match validMigrationTable (db_Name (cfg_Database c)) \<and>
     (db_Schema (cfg_Database c) = '''' \<or> re_match validMigrationTable (db_Schema (cfg_Database c))) \<and>
     (db_Enabled (cfg_Database c) \<longrightarrow> db_DSN (cfg_Database c) \<noteq> '''' \<and> isDBType (db_Type (cfg_Database c))) \<and>
     (mig_AutoUp (cfg_Migration c) \<longrightarrow> db_Enabled (cfg_Database c) \<and> mig_Path (cfg_Migration c) \<noteq> '''' \<and>
        mig_DatabaseURL (cfg_Migration c) \<noteq> '''' \<and> re_match validMigrationTable (mig_Table (cfg_Migration c))) \<and>
     (redis_Enabled (cfg_Redis c) \<longrightarrow> redis_Address (cfg_Redis c) \<noteq> '''') \<and>
     0 < user_CacheTTL (cfg_User c) \<and> 0 < user_LockTTL (cfg_User c) \<and> 0 < user_LockRetryDelay (cfg_User c)"

definition dependents_ok :: "Config \<Rightarrow> bool" where
  "dependents_ok c \<longleftrightarrow>
     (rl_Enabled (cfg_RateLimit c) \<longrightarrow> redis_Enabled (cfg_Redis c) \<and> rule_ok (rl_IP (cfg_RateLimit c)) \<and>
        rule_ok (rl_API (cfg_RateLimit c)) \<and> rule_ok (rl_User (cfg_RateLimit c)) \<and> rule_ok (rl_Login (cfg_RateLimit c))) \<and>
     (idem_Enabled (cfg_Idempotency c) \<longrightarrow> redis_Enabled (cfg_Redis c) \<and>
        (idem_HTTPPaths (cfg_Idempotency c) \<noteq> [] \<or> idem_GRPCMethods (cfg_Idempotency c) \<noteq> []) \<and>
        0 < idem_ProcessingTTL (cfg_Idempotency c) \<and> 0 < idem_ResultTTL (cfg_Idempotency c) \<and>
        0 < idem_FailureTTL (cfg_Idempotency c)) \<and>
     \<not> float_less (obs_TracingSampleRatio (cfg_Observability c)) 0 \<and>
     \<not> float_greater (obs_TracingSampleRatio (cfg_Observability c)) 1 \<and>
     (obs_TracingEnabled (cfg_Observability c) \<longrightarrow> obs_TracingEndpoint (cfg_Observability c) \<noteq> '''')"

definition bus_ok :: "EventBus \<Rightarrow> bool" where
  "bus_ok b \<longleftrightarrow> (bus_Enabled b \<longrightarrow>
     bus_URLs b \<noteq> [] \<and> bus_StreamName b \<noteq> '''' \<and> bus_Subjects b \<noteq> [] \<and> bus_Storage b \<in> {''file'', ''memory''} \<and>
     0 < bus_MaxAge b \<and> 0 < bus_DuplicateWindow b \<and> 0 < bus_ConnectTimeout b \<and> 0 < bus_ReconnectWait b \<and>
     0 < bus_PublishTimeout b \<and> 0 < bus_ConsumerAckWait b \<and> 0 < bus_ConsumerMaxDeliver b)"

definition protection_ok :: "Config \<Rightarrow> bool" where
  "protection_ok c \<longleftrightarrow>
     http_patterns_ok (auth_SkipHTTPPaths (cfg_Auth c)) \<and> method_patterns_ok (auth_SkipGRPCMethods (cfg_Auth c)) \<and>
     http_patterns_ok (psk_HTTPPaths (auth_PSK (cfg_Auth c))) \<and> method_patterns_ok (psk_GRPCMethods (auth_PSK (cfg_Auth c))) \<and>
     http_patterns_ok (idem_HTTPPaths (cfg_Idempotency c)) \<and> method_patterns_ok (idem_GRPCMethods (cfg_Idempotency c)) \<and>
     (psk_Enabled (auth_PSK (cfg_Auth c)) \<longrightarrow> 32 \<le> length (psk_Key (auth_PSK (cfg_Auth c))) \<and>
        (psk_HTTPPaths (auth_PSK (cfg_Auth c)) \<noteq> [] \<or> psk_GRPCMethods (auth_PSK (cfg_Auth c)) \<noteq> [])) \<and>
     (auth_ClientID (cfg_Auth c) \<noteq> '''' \<or> auth_ClientSecret (cfg_Auth c) \<noteq> '''' \<longrightarrow> 32 \<le> length (jwt_Secret (cfg_JWT c))) \<and>
     (obs_PprofEnabled (cfg_Observability c) \<longrightarrow> 32 \<le> length (obs_PprofToken (cfg_Observability c))) \<and>
     (authz_Enabled (cfg_Authorization c) \<longrightarrow> fmlookup (out_GRPC (cfg_Outbound c)) ''authorization'' \<noteq> None)"

definition clients_ok :: "Outbound \<Rightarrow> bool" where
  "clients_ok out \<longleftrightarrow>
     (\<forall>name u. fmlookup (out_HTTP out) name = Some u \<longrightarrow>
        hup_BaseURL u \<noteq> '''' \<and> 0 < hup_Timeout u \<and> client_ok (hup_Auth u) (hup_Retry u) (hup_Breaker u) (hup_TLS u)) \<and>
     (\<forall>name u. fmlookup (out_GRPC out) name = Some u \<longrightarrow>
        gup_Target u \<noteq> '''' \<and> 0 < gup_Timeout u \<and> client_ok (gup_Auth u) (gup_Retry u) (gup_Breaker u) (gup_TLS u))"

definition production_ok :: "Config \<Rightarrow> bool" where
  "production_ok c \<longleftrightarrow>
     (grpc_Enabled (cfg_GRPC c) \<longrightarrow> gtls_Enabled (grpc_TLS (cfg_GRPC c))) \<and>
     \<not> grpc_ReflectionEnabled (cfg_GRPC c) \<and>
     (swagger_Enabled (cfg_Swagger c) \<longrightarrow> swagger_RequireAuth (cfg_Swagger c)) \<and>
     strings_TrimSpace (auth_JWKSURL (cfg_Auth c)) \<noteq> '''' \<and> strings_TrimSpace (auth_Issuer (cfg_Auth c)) \<noteq> '''' \<and>
     strings_TrimSpace (auth_Audience (cfg_Auth c)) \<noteq> '''' \<and> authz_Enabled (cfg_Authorization c)"

definition config_ok :: "Config \<Rightarrow> bool" where
  "config_ok c \<longleftrightarrow> listeners_ok c \<and> storage_ok c \<and> dependents_ok c \<and> bus_ok (cfg_EventBus c) \<and> protection_ok c \<and>
     clients_ok (cfg_Outbound c) \<and> (app_Env (cfg_App c) = ''production'' \<longrightarrow> production_ok c)"

lemma rate_rules_checked:
  assumes "\<And>ks. set (visit ks) = set ks"
  shows "list_all (\<lambda>r. r = None) (map check_rate_rule (range_map visit (rate_rules r))) \<longleftrightarrow>
    rule_ok (rl_IP r) \<and> rule_ok (rl_API r) \<and> rule_ok (rl_User r) \<and> rule_ok (rl_Login r)"
proof -
  have "list_all (\<lambda>r. r = None) (map check_rate_rule (range_map visit (rate_rules r))) \<longleftrightarrow>
      (\<forall>k v. fmlookup (rate_rules r) k = Some v \<longrightarrow> rule_ok v)"
    by (simp add: list.pred_map comp_def list_all_range_map [OF assms] check_rate_rule_def rule_ok_def not_le)
  moreover have "fmlookup (rate_rules r) k = Some v \<longleftrightarrow> k = ''ip'' \<and> v = rl_IP r \<or> k = ''api'' \<and> v = rl_API r \<or>
      k = ''user'' \<and> v = rl_User r \<or> k = ''login'' \<and> v = rl_Login r" for k v
    by (auto simp: rate_rules_def fmlookup_of_list)
  ultimately show ?thesis by auto
qed

lemma clients_checked:
  assumes "\<And>ks. set (visit ks) = set ks"
  shows "list_all (\<lambda>r. r = None) (map check_http_upstream (range_map visit (out_HTTP out))) \<and>
    list_all (\<lambda>r. r = None) (map check_grpc_upstream (range_map visit (out_GRPC out))) \<longleftrightarrow> clients_ok out"
  by (simp add: list.pred_map comp_def list_all_range_map [OF assms] check_http_upstream_def check_grpc_upstream_def
      clients_ok_def not_le)

text \<open>Both forms of the checks as conjunctions of implications between the same atoms.\<close>

lemma not_conj_imp: "(\<not> (A \<and> B)) \<longleftrightarrow> (A \<longrightarrow> \<not> B)"
  by blast

lemma if_None: "((if b then x else None) = None) \<longleftrightarrow> (b \<longrightarrow> x = None)"
  by simp

lemma psk_check:
  "(\<not> (E \<and> (length key < 32 \<or> length a + length b = 0))) \<longleftrightarrow> (E \<longrightarrow> 32 \<le> length key) \<and> (E \<longrightarrow> a = [] \<longrightarrow> b \<noteq> [])"
  by auto

lemmas check_normal_form = if_None not_conj_imp not_imp de_Morgan_disj not_not not_le not_less disj_imp imp_conjR conj_assoc
  length_0_conv add_is_0 insert_iff empty_iff simp_thms

lemma Validate_None:
  assumes "\<And>ks. set (visit ks) = set ks"
  shows "Validate visit c = None \<longleftrightarrow> config_ok c"
  unfolding Validate_def Let_def first_error_None list.pred_inject must_None psk_check check_http_patterns_None
    check_method_patterns_None config_ok_def clients_checked [OF assms, symmetric] listeners_ok_def storage_ok_def
    dependents_ok_def bus_ok_def protection_ok_def production_ok_def rate_rules_checked [OF assms, symmetric]
  by (simp only: check_normal_form first_error_None list.pred_inject) (rule iffI; elim conjE; intro conjI; assumption)

end
