(* ===== verification/ConfigLoad.thy ===== *)
theory ConfigLoad
  imports ConfigValidate
begin

text \<open>
  Loading a configuration: \<open>setDefaults\<close>, \<open>profileConfigPath\<close>, the hook that turns a string
  into a list of strings, and \<open>LoadWithProfile\<close>. The configuration library (viper) and the file
  system are parameters, a record of the operations the function calls on an abstract state.
\<close>

section \<open>Defaults\<close>

datatype setting =
    VStr string
  | VInt int
  | VBool bool
  | VFloat float64
  | VStrs "string list"
  | VEmptyMap

definition setRateLimitDefaults :: "string \<Rightarrow> int \<Rightarrow> int \<Rightarrow> (string \<times> setting) list" where
  "setRateLimitDefaults key rate burst =
     [(key @ ''.rate'', VInt rate), (key @ ''.burst'', VInt burst), (key @ ''.period'', VStr ''1m'')]"

text \<open>The calls of \<open>v.SetDefault\<close>, in order.\<close>

definition defaults :: "(string \<times> setting) list" where
  "defaults =
     [(''app.name'', VStr ''service-registry-service''),
      (''app.env'', VStr ''development''),
      (''app.shutdown_timeout'', VStr ''10s''),
      (''http.address'', VStr ''127.0.0.1:8080''),
      (''http.read_timeout'', VStr ''10s''),
      (''http.write_timeout'', VStr ''15s''),
      (''http.idle_timeout'', VStr ''60s''),
      (''http.request_timeout'', VStr ''10s''),
      (''http.max_body_bytes'', VInt 1048576),
      (''http.trusted_proxies'', VStrs []),
      (''http.cors.enabled'', VBool False),
      (''http.cors.allowed_origins'', VStrs []),
      (''http.cors.allowed_headers'', VStrs [''Authorization'', ''Content-Type'', ''X-Request-ID'']),
      (''http.cors.exposed_headers'', VStrs [''X-Request-ID'', ''X-RateLimit-Limit'', ''X-RateLimit-Remaining'', ''Retry-After'']),
      (''http.cors.max_age'', VStr ''12h''),
      (''grpc.enabled'', VBool True),
      (''grpc.address'', VStr ''127.0.0.1:9090''),
      (''grpc.reflection_enabled'', VBool True),
      (''grpc.max_receive_bytes'', VInt 16777216),
      (''grpc.tls.enabled'', VBool False),
      (''grpc.tls.cert_file'', VStr ''''),
      (''grpc.tls.key_file'', VStr ''''),
      (''grpc.tls.client_ca_file'', VStr ''''),
      (''log.level'', VStr ''info''),
      (''log.format'', VStr ''json''),
      (''log.file'', VStr ''logs/app.log''),
      (''log.max_size_mb'', VInt 100),
      (''log.max_backups'', VInt 10),
      (''log.max_age_days'', VInt 30),
      (''log.compress'', VBool True),
      (''database.ping_timeout'', VStr ''5s''),
      (''database.max_open_conns'', VInt 25),
      (''database.max_idle_conns'', VInt 10),
      (''database.conn_max_lifetime'', VStr ''5m''),
      (''database.conn_max_idle_time'', VStr ''1m''),
      (''database.enabled'', VBool False),
      (''database.name'', VStr ''platform''),
      (''database.schema'', VStr ''service_registry''),
      (''database.type'', VStr ''postgres''),
      (''database.dsn'', VStr ''''),
      (''redis.address'', VStr ''127.0.0.1:6379''),
      (''redis.dial_timeout'', VStr ''5s''),
      (''redis.read_timeout'', VStr ''3s''),
      (''redis.write_timeout'', VStr ''3s''),
      (''redis.enabled'', VBool False),
      (''redis.username'', VStr ''''),
      (''redis.password'', VStr ''''),
      (''redis.db'', VInt 0),
      (''health.database_timeout'', VStr ''2s''),
      (''health.redis_timeout'', VStr ''2s''),
      (''rate_limit.enabled'', VBool False),
      (''rate_limit.fail_open'', VBool False)] @
     setRateLimitDefaults ''rate_limit.ip'' 120 30 @
     setRateLimitDefaults ''rate_limit.api'' 10000 1000 @
     setRateLimitDefaults ''rate_limit.user'' 600 100 @
     setRateLimitDefaults ''rate_limit.login'' 10 3 @
     [(''observability.metrics_enabled'', VBool True),
      (''observability.tracing_enabled'', VBool False),
      (''observability.tracing_endpoint'', VStr ''http://127.0.0.1:4318''),
      (''observability.tracing_sample_ratio'', VFloat (Finite (3602879701896397 / 36028797018963968))),
      (''observability.pprof_enabled'', VBool False),
      (''observability.pprof_token'', VStr ''''),
      (''swagger.enabled'', VBool True),
      (''swagger.require_auth'', VBool False),
      (''jwt.issuer'', VStr ''service-registry-service''),
      (''jwt.secret'', VStr ''''),
      (''jwt.ttl'', VStr ''2h''),
      (''auth.client_id'', VStr ''''),
      (''auth.client_secret'', VStr ''''),
      (''auth.jwks_url'', VStr ''''),
      (''auth.issuer'', VStr ''identity-service''),
      (''auth.audience'', VStr ''service-registry-service''),
      (''auth.skip_http_paths'', VStrs [''/api/v1/version'']),
      (''auth.skip_grpc_methods'', VStrs [''/grpc.health.v1.Health/*'']),
      (''auth.psk.enabled'', VBool False),
      (''auth.psk.key'', VStr ''''),
      (''auth.psk.http_paths'', VStrs []),
      (''auth.psk.grpc_methods'', VStrs []),
      (''authorization.enabled'', VBool False),
      (''cron.enabled'', VBool True),
      (''cron.timezone'', VStr ''Asia/Shanghai''),
      (''cron.sample_spec'', VStr ''0 */5 * * * *''),
      (''migration.path'', VStr ''migrations/postgres''),
      (''migration.database_url'', VStr ''''),
      (''migration.auto_up'', VBool False),
      (''migration.create_schema'', VBool False),
      (''migration.table'', VStr ''service_registry_schema_migrations''),
      (''user.cache_ttl'', VStr ''5m''),
      (''user.lock_ttl'', VStr ''10s''),
      (''user.lock_retry_delay'', VStr ''100ms''),
      (''idempotency.enabled'', VBool False),
      (''idempotency.processing_ttl'', VStr ''30s''),
      (''idempotency.result_ttl'', VStr ''24h''),
      (''idempotency.failure_ttl'', VStr ''5m''),
      (''event_bus.enabled'', VBool False),
      (''event_bus.urls'', VStrs [''nats://127.0.0.1:4222'']),
      (''event_bus.stream_name'', VStr ''PLATFORM_EVENTS''),
      (''event_bus.subjects'', VStrs [''platform.>'']),
      (''event_bus.storage'', VStr ''file''),
      (''event_bus.max_age'', VStr ''168h''),
      (''event_bus.duplicate_window'', VStr ''10m''),
      (''event_bus.connect_timeout'', VStr ''5s''),
      (''event_bus.reconnect_wait'', VStr ''1s''),
      (''event_bus.publish_timeout'', VStr ''5s''),
      (''event_bus.consumer_ack_wait'', VStr ''30s''),
      (''event_bus.consumer_max_deliver'', VInt 10),
      (''outbound.http'', VEmptyMap),
      (''outbound.grpc'', VEmptyMap)]"

section \<open>Strings that hold lists\<close>

text \<open>
  The decode hook for a string that is decoded into a list (an environment variable): an optional
  pair of brackets, commas, blanks and quotes around the elements.
\<close>

definition stringToStringSlice :: "string \<Rightarrow> string list" where
  "stringToStringSlice s =
     (let raw = strings_TrimSpace s;
          raw = (if strings_HasPrefix raw ''['' \<and> strings_HasSuffix raw '']''
                 then strings_TrimSpace (take (length raw - 2) (drop 1 raw)) else raw)
      in if raw = '''' then []
         else map (\<lambda>v. strings_Trim (strings_TrimSpace v) [CHR 0x22, CHR 0x27]) (strings_Split raw (CHR '','')))"

section \<open>Profiles\<close>

definition profileConfigPath :: "string \<Rightarrow> string \<Rightarrow> string" where
  "profileConfigPath path profile =
     (let extension = filepath_Ext path; base = strings_TrimSuffix path extension
      in base @ ''-'' @ profile @ extension)"

definition normalProfile :: "string \<Rightarrow> string" where
  "normalProfile p = strings_ToLower (strings_TrimSpace p)"

section \<open>Loading\<close>

datatype read_err =
    ConfigFileNotFound string
  | ReadFailed string

datatype stat = Present | Absent | StatFailed string

record 'v viper =
  vp_New :: 'v
  vp_SetConfigFile :: "string \<Rightarrow> 'v \<Rightarrow> 'v"
  vp_SetEnvPrefix :: "string \<Rightarrow> 'v \<Rightarrow> 'v"
  vp_SetEnvKeyReplacer :: "string \<Rightarrow> string \<Rightarrow> 'v \<Rightarrow> 'v"
  vp_AutomaticEnv :: "'v \<Rightarrow> 'v"
  vp_BindEnv :: "string list \<Rightarrow> 'v \<Rightarrow> string option \<times> 'v"
  vp_SetDefault :: "string \<Rightarrow> setting \<Rightarrow> 'v \<Rightarrow> 'v"
  vp_ReadInConfig :: "'v \<Rightarrow> read_err option \<times> 'v"
  vp_GetString :: "string \<Rightarrow> 'v \<Rightarrow> string"
  vp_MergeInConfig :: "'v \<Rightarrow> string option \<times> 'v"
  vp_Set :: "string \<Rightarrow> setting \<Rightarrow> 'v \<Rightarrow> 'v"
  vp_Unmarshal :: "(string \<Rightarrow> string list) \<Rightarrow> 'v \<Rightarrow> string + Config"
  os_Stat :: "string \<Rightarrow> stat"

definition setDefaults :: "'v viper \<Rightarrow> 'v \<Rightarrow> 'v" where
  "setDefaults V v = fold (\<lambda>(key, x). vp_SetDefault V key x) defaults v"

definition read_text :: "read_err \<Rightarrow> string" where
  "read_text e = (case e of ConfigFileNotFound t \<Rightarrow> t | ReadFailed t \<Rightarrow> t)"

text \<open>The profile file, merged when it is there.\<close>

definition merge_profile :: "'v viper \<Rightarrow> string \<Rightarrow> string \<Rightarrow> 'v \<Rightarrow> config_err + (string list \<times> 'v)" where
  "merge_profile V path profilePath v =
     (if profilePath = path then Inr ([path], v)
      else
        (case os_Stat V profilePath of
           Present \<Rightarrow>
             (case vp_MergeInConfig V (vp_SetConfigFile V profilePath v) of
                (Some e, _) \<Rightarrow> Inl (Quoted ''merge profile config '' profilePath ('': '' @ e))
              | (None, v) \<Rightarrow> Inr ([path, profilePath], v))
         | Absent \<Rightarrow> Inr ([path], v)
         | StatFailed e \<Rightarrow> Inl (Quoted ''inspect profile config '' profilePath ('': '' @ e))))"

text \<open>From the merged settings to the configuration: decode, complete, validate, stamp.\<close>

definition finish_load ::
    "(string list \<Rightarrow> string list) \<Rightarrow> 'v viper \<Rightarrow> string \<Rightarrow> string list \<Rightarrow> 'v \<Rightarrow> config_err + Config" where
  "finish_load visit V profile loadedFiles v =
     (case vp_Unmarshal V stringToStringSlice (vp_Set V ''app.env'' (VStr profile) v) of
        Inl e \<Rightarrow> Inl (Msg (''decode config: '' @ e))
      | Inr cfg \<Rightarrow>
          let cfg = cfg\<lparr>cfg_Migration := (cfg_Migration cfg)\<lparr>mig_Schema := db_Schema (cfg_Database cfg),
                      mig_DatabaseName := db_Name (cfg_Database cfg)\<rparr>\<rparr>
          in (case Validate visit cfg of
                Some e \<Rightarrow> Inl e
              | None \<Rightarrow> Inr (cfg\<lparr>cfg_Runtime := \<lparr>rt_ActiveProfile = profile, rt_ConfigFiles = loadedFiles\<rparr>\<rparr>)))"

definition LoadWithProfile ::
    "(string list \<Rightarrow> string list) \<Rightarrow> 'v viper \<Rightarrow> string \<Rightarrow> string \<Rightarrow> config_err + Config" where
  "LoadWithProfile visit V path explicitProfile =
     (let v = vp_AutomaticEnv V (vp_SetEnvKeyReplacer V ''.'' ''_'' (vp_SetEnvPrefix V ''APP''
                (vp_SetConfigFile V path (vp_New V))))
      in case vp_BindEnv V [''app.env'', ''APP_ENV'', ''APP_APP_ENV''] v of
           (Some e, _) \<Rightarrow> Inl (Msg (''bind environment profile: '' @ e))
         | (None, v) \<Rightarrow>
         (case vp_BindEnv V [''outbound.grpc.authorization.target'', ''APP_OUTBOUND_GRPC_AUTHORIZATION_TARGET''] v of
           (Some e, _) \<Rightarrow> Inl (Msg (''bind authorization target: '' @ e))
         | (None, v) \<Rightarrow>
         (case vp_ReadInConfig V (setDefaults V v) of (readErr, v) \<Rightarrow>
            if (case readErr of None \<Rightarrow> False | Some (ConfigFileNotFound _) \<Rightarrow> path \<noteq> '''' | Some (ReadFailed _) \<Rightarrow> True)
            then Inl (Msg (''read config: '' @ read_text (the readErr)))
            else
              let profile = normalProfile explicitProfile;
                  profile = (if profile = '''' then normalProfile (vp_GetString V ''app.env'' v) else profile)
              in if \<not> re_match validProfile profile then Inl (Quoted ''invalid environment profile '' profile '''')
                 else
                   (case merge_profile V path (profileConfigPath path profile) v of
                      Inl e \<Rightarrow> Inl e
                    | Inr (loadedFiles, v) \<Rightarrow> finish_load visit V profile loadedFiles v))))"

definition Load :: "(string list \<Rightarrow> string list) \<Rightarrow> 'v viper \<Rightarrow> string \<Rightarrow> config_err + Config" where
  "Load visit V path = LoadWithProfile visit V path ''''"

section \<open>What a loaded configuration satisfies\<close>

lemma config_ok_runtime [simp]: "config_ok (cfg\<lparr>cfg_Runtime := r\<rparr>) \<longleftrightarrow> config_ok cfg"
  by (simp add: config_ok_def listeners_ok_def storage_ok_def dependents_ok_def protection_ok_def production_ok_def)

lemma finish_loadE:
  assumes "finish_load visit V profile files v = Inr cfg" and "\<And>ks. set (visit ks) = set ks"
  obtains c where "vp_Unmarshal V stringToStringSlice (vp_Set V ''app.env'' (VStr profile) v) = Inr c"
    and "config_ok cfg" and "cfg_App cfg = cfg_App c"
    and "cfg_Runtime cfg = \<lparr>rt_ActiveProfile = profile, rt_ConfigFiles = files\<rparr>"
    and "mig_Schema (cfg_Migration cfg) = db_Schema (cfg_Database cfg)"
    and "mig_DatabaseName (cfg_Migration cfg) = db_Name (cfg_Database cfg)"
proof -
  obtain c where u: "vp_Unmarshal V stringToStringSlice (vp_Set V ''app.env'' (VStr profile) v) = Inr c"
    using assms(1) by (auto simp: finish_load_def split: sum.splits)
  let ?c = "c\<lparr>cfg_Migration := (cfg_Migration c)\<lparr>mig_Schema := db_Schema (cfg_Database c),
    mig_DatabaseName := db_Name (cfg_Database c)\<rparr>\<rparr>"
  have v: "Validate visit ?c = None" and e: "cfg = ?c\<lparr>cfg_Runtime := \<lparr>rt_ActiveProfile = profile, rt_ConfigFiles = files\<rparr>\<rparr>"
    using assms(1) u by (auto simp: finish_load_def Let_def split: option.splits)
  have "config_ok ?c" using v Validate_None [OF assms(2)] by blast
  then show ?thesis using that [OF u] e by simp
qed

lemma LoadWithProfileE:
  assumes "LoadWithProfile visit V path explicitProfile = Inr cfg"
  obtains profile files v where "finish_load visit V profile files v = Inr cfg" and "re_match validProfile profile"
    and "normalProfile explicitProfile \<noteq> '''' \<Longrightarrow> profile = normalProfile explicitProfile"
    and "files = [path] \<or> files = [path, profileConfigPath path profile]"
proof -
  obtain profile v files v' where p: "re_match validProfile profile"
      "normalProfile explicitProfile \<noteq> '''' \<Longrightarrow> profile = normalProfile explicitProfile"
      "merge_profile V path (profileConfigPath path profile) v = Inr (files, v')"
      "finish_load visit V profile files v' = Inr cfg"
    using assms by (auto simp: LoadWithProfile_def Let_def split: prod.splits option.splits if_splits sum.splits)
  moreover have "files = [path] \<or> files = [path, profileConfigPath path profile]"
    using p(3) by (auto simp: merge_profile_def split: if_splits stat.splits prod.splits option.splits)
  ultimately show ?thesis using that by blast
qed

end
