(* ===== verification/ConfigLists.thy ===== *)
theory ConfigLists
  imports ConfigLoad
begin

text \<open>
  Reading a list of strings back from the single string an environment variable holds: the hook
  \<open>stringToStringSlice\<close> recovers the elements from the usual ways of writing a list.
\<close>

section \<open>Lists in one string\<close>

text \<open>A character that neither trimming nor splitting touches.\<close>

definition plain_char :: "char \<Rightarrow> bool" where
  "plain_char c \<longleftrightarrow> byte c < 128 \<and> \<not> unicode_IsSpace (byte c) \<and>
     c \<notin> {CHR '','', CHR 0x22, CHR 0x27, CHR ''['', CHR '']''}"

definition plain :: "string \<Rightarrow> bool" where
  "plain v \<longleftrightarrow> v \<noteq> '''' \<and> list_all plain_char v"

definition in_quotes :: "string \<Rightarrow> string" where
  "in_quotes v = CHR 0x22 # v @ [CHR 0x22]"

lemma trim_ascii:
  assumes "\<forall>c \<in> set s. byte c < 128" and "s \<noteq> ''''" and "\<not> P (byte (hd s))" and "\<not> P (byte (last s))"
  shows "trim_segments P s = s"
  using assms by (intro trim_segments_id) (simp_all add: ascii_segments hd_map last_map)

lemma trim_one_ascii:
  assumes "\<forall>c \<in> set v. byte c < 128" and "v \<noteq> ''''" and "\<not> P (byte (hd v))" and "\<not> P (byte (last v))"
    and "list_all (\<lambda>c. byte c < 128 \<and> P (byte c)) a" and "list_all (\<lambda>c. byte c < 128 \<and> P (byte c)) b"
  shows "trim_segments P (a @ v @ b) = v"
proof -
  let ?f = "\<lambda>c. (byte c, [c])"
  have ascii: "\<forall>c \<in> set (a @ v @ b). byte c < 128" using assms by (auto simp: list_all_iff)
  obtain c cs where v: "v = c # cs" using assms(2) by (cases v) auto
  have "dropWhile (P \<circ> fst) (map ?f (a @ v @ b)) = map ?f (v @ b)"
    using assms(3,5) v by (induction a) auto
  moreover have "dropWhile (P \<circ> fst) (rev (map ?f (v @ b))) = rev (map ?f v)"
  proof -
    have "dropWhile (P \<circ> fst) (rev (map ?f b) @ rev (map ?f v)) = dropWhile (P \<circ> fst) (rev (map ?f v))"
      by (rule dropWhile_append2) (use assms(6) in \<open>auto simp: list_all_iff\<close>)
    moreover have "dropWhile (P \<circ> fst) (rev (map ?f v)) = rev (map ?f v)"
      using assms(2,4) by (cases v rule: rev_cases) auto
    ultimately show ?thesis by simp
  qed
  ultimately show ?thesis by (simp only: trim_segments_def ascii_segments [OF ascii]) (simp add: comp_def)
qed

lemma plainD:
  assumes "plain v"
  shows "\<forall>c \<in> set v. byte c < 128" "v \<noteq> ''''" "plain_char (hd v)" "plain_char (last v)" "CHR '','' \<notin> set v"
  using assms by (auto simp: plain_def list_all_iff plain_char_def)

lemma byte_marks:
  "byte (CHR 0x22) = 34" "byte (CHR 0x27) = 39" "byte (CHR '' '') = 32" "unicode_IsSpace 32" "\<not> unicode_IsSpace 34"
  by code_simp+

lemma trim_element:
  assumes "plain v" and "list_all (\<lambda>c. c = CHR '' '') a"
  shows "strings_Trim (strings_TrimSpace (a @ in_quotes v)) [CHR 0x22, CHR 0x27] = v"
    and "strings_Trim (strings_TrimSpace (a @ v)) [CHR 0x22, CHR 0x27] = v"
proof -
  note p = plainD [OF assms(1)]
  have sp: "list_all (\<lambda>c. byte c < 128 \<and> unicode_IsSpace (byte c)) a"
    using assms(2) by (induction a) (simp_all add: byte_marks)
  have "strings_TrimSpace (a @ in_quotes v @ []) = in_quotes v"
    unfolding strings_TrimSpace_def using p(1) sp
    by (intro trim_one_ascii) (simp_all add: in_quotes_def byte_marks)
  moreover have edge: "byte (hd v) \<notin> {34, 39}" "byte (last v) \<notin> {34, 39}"
    using p(3,4) byte_marks byte_eq_iff unfolding plain_char_def by (metis insertE insertI1 insertI2 singletonD)+
  have q: "strings_Trim ([CHR 0x22] @ v @ [CHR 0x22]) [CHR 0x22, CHR 0x27] = v"
    "strings_Trim ([] @ v @ []) [CHR 0x22, CHR 0x27] = v"
    unfolding strings_Trim_def using p(1,2) edge by (intro trim_one_ascii; simp add: byte_marks)+
  ultimately show "strings_Trim (strings_TrimSpace (a @ in_quotes v)) [CHR 0x22, CHR 0x27] = v"
    by (simp add: in_quotes_def)
  have "strings_TrimSpace (a @ v @ []) = v"
    unfolding strings_TrimSpace_def using p sp by (intro trim_one_ascii) (simp_all add: plain_char_def)
  then show "strings_Trim (strings_TrimSpace (a @ v)) [CHR 0x22, CHR 0x27] = v" using q by simp
qed

lemma Join_Cons: "ps \<noteq> [] \<Longrightarrow> strings_Join (p # ps) sep = p @ sep @ strings_Join ps sep"
  by (cases ps) (simp_all add: strings_Join_def)

lemma Join_single [simp]: "strings_Join [p] sep = p"
  by (simp add: strings_Join_def)

lemma set_Join: "set (strings_Join ps sep) \<subseteq> set (concat ps) \<union> set sep"
  by (cases ps) (auto simp: strings_Join_def)

lemma ascii_Join:
  "(\<And>p c. p \<in> set ps \<Longrightarrow> c \<in> set p \<Longrightarrow> byte c < 128) \<Longrightarrow> (\<And>c. c \<in> set sep \<Longrightarrow> byte c < 128) \<Longrightarrow>
     \<forall>c \<in> set (strings_Join ps sep). byte c < 128"
  using set_Join [of ps sep] by (auto dest!: subsetD)

lemma hd_last_Join:
  "ps \<noteq> [] \<Longrightarrow> list_all (\<lambda>p. p \<noteq> []) ps \<Longrightarrow>
     strings_Join ps sep \<noteq> [] \<and> hd (strings_Join ps sep) = hd (hd ps) \<and> last (strings_Join ps sep) = last (last ps)"
proof (induction ps rule: list_nonempty_induct)
  case (cons p ps)
  then show ?case by (simp add: Join_Cons)
qed simp

text \<open>A separator with a blank is the separator with a blank before every later element.\<close>

lemma Join_blank: "strings_Join (p # ps) '', '' = strings_Join (p # map ((#) (CHR '' '')) ps) '',''"
  by (induction ps) (simp_all add: strings_Join_def)

text \<open>Trimming the blanks around text whose ends are no blanks.\<close>

lemma TrimSpace_keeps:
  "\<forall>c \<in> set s. byte c < 128 \<Longrightarrow> s \<noteq> '''' \<Longrightarrow> \<not> unicode_IsSpace (byte (hd s)) \<Longrightarrow> \<not> unicode_IsSpace (byte (last s)) \<Longrightarrow>
     strings_TrimSpace s = s"
  unfolding strings_TrimSpace_def by (rule trim_ascii)

lemma byte_punctuation:
  "byte (CHR '','') = 44" "byte (CHR ''['') = 91" "byte (CHR '']'') = 93"
  "\<not> unicode_IsSpace 91" "\<not> unicode_IsSpace 93"
  by code_simp+

lemma slice_commas:
  assumes "vals \<noteq> []" and "list_all plain vals"
  shows "stringToStringSlice (strings_Join vals '','') = vals"
proof -
  let ?s = "strings_Join vals '',''"
  have e: "list_all (\<lambda>p. p \<noteq> []) vals" using assms(2) by (auto simp: list_all_iff plain_def)
  note j = hd_last_Join [OF assms(1) e, of "'',''"]
  have ends: "plain_char (hd ?s)" "plain_char (last ?s)"
    using assms plainD(3) [of "hd vals"] plainD(4) [of "last vals"] by (simp_all add: j list_all_iff)
  have "\<forall>c \<in> set ?s. byte c < 128"
    using assms(2) plainD(1) by (intro ascii_Join) (auto simp: list_all_iff byte_punctuation)
  then have t: "strings_TrimSpace ?s = ?s" using j ends by (intro TrimSpace_keeps) (simp_all add: plain_char_def)
  have "\<not> strings_HasPrefix ?s ''[''" using ends(1) j by (cases ?s) (auto simp: strings_HasPrefix_def plain_char_def)
  moreover have "strings_Split ?s (CHR '','') = vals"
    using assms plainD(5) by (intro strings_Split_Join) (auto simp: list_all_iff)
  moreover have "map (\<lambda>v. strings_Trim (strings_TrimSpace v) [CHR 0x22, CHR 0x27]) vals = vals"
    using assms(2) trim_element(2) [of _ "[]"] by (intro map_idI) (simp add: list_all_iff)
  ultimately show ?thesis using t j by (simp add: stringToStringSlice_def)
qed

lemma slice_brackets:
  assumes "vals \<noteq> []" and "list_all plain vals"
  shows "stringToStringSlice (''['' @ strings_Join (map in_quotes vals) '', '' @ '']'') = vals"
proof -
  obtain v vs where vs: "vals = v # vs" using assms(1) by (cases "vals") auto
  let ?qs = "map in_quotes vals" and ?es = "in_quotes v # map (\<lambda>w. CHR '' '' # in_quotes w) vs"
  let ?j = "strings_Join ?qs '', ''" and ?s = "''['' @ strings_Join (map in_quotes vals) '', '' @ '']''"
  have "list_all (\<lambda>p. p \<noteq> []) ?qs" by (simp add: list_all_iff in_quotes_def)
  note j = hd_last_Join [OF _ this, of "'', ''"]
  have q: "hd (in_quotes w) = CHR 0x22" "last (in_quotes w) = CHR 0x22" for w by (simp_all add: in_quotes_def)
  have ends: "?j \<noteq> []" "hd ?j = CHR 0x22" "last ?j = CHR 0x22" using j by (simp_all add: vs q last_map)
  have ascii: "\<forall>c \<in> set ?j. byte c < 128"
    using bspec [OF plainD(1)] assms(2)
    by (intro ascii_Join) (auto simp: list_all_iff byte_punctuation byte_marks in_quotes_def, blast)
  then have inner: "strings_TrimSpace ?j = ?j" using ends by (intro TrimSpace_keeps) (simp_all add: byte_marks)
  have outer: "strings_TrimSpace ?s = ?s" using ascii by (intro TrimSpace_keeps) (auto simp: byte_punctuation)
  have "?j = strings_Join ?es '',''" using Join_blank [of "in_quotes v" "map in_quotes vs"] by (simp add: vs comp_def)
  moreover have "strings_Split (strings_Join ?es '','') (CHR '','') = ?es"
    using assms(2) plainD(5) by (intro strings_Split_Join) (auto simp: list_all_iff in_quotes_def vs)
  ultimately have "strings_Split ?j (CHR '','') = ?es" by simp
  moreover have "strings_Trim (strings_TrimSpace (in_quotes w)) [CHR 0x22, CHR 0x27] = w"
      "strings_Trim (strings_TrimSpace (CHR '' '' # in_quotes w)) [CHR 0x22, CHR 0x27] = w" if "w \<in> set vals" for w
    using trim_element(1) [of w "[]"] trim_element(1) [of w "'' ''"] that assms(2) by (simp_all add: list_all_iff)
  then have "map (\<lambda>v. strings_Trim (strings_TrimSpace v) [CHR 0x22, CHR 0x27]) ?es = vals"
    by (simp add: vs comp_def map_idI)
  ultimately show ?thesis
    using inner outer ends(1)
    by (simp add: stringToStringSlice_def strings_HasPrefix_def strings_HasSuffix_def suffix_def)
qed

text \<open>
  A list written into one string is read back: separated by commas, or in brackets with quoted
  elements, blanks after the commas; elements without blanks, commas, quotes or brackets.
\<close>

lemma list_read_back:
  assumes "vals \<noteq> []" and "list_all plain vals"
  shows "stringToStringSlice (strings_Join vals '','') = vals \<and>
    stringToStringSlice (''['' @ strings_Join (map in_quotes vals) '', '' @ '']'') = vals"
  using slice_commas [OF assms] slice_brackets [OF assms] by simp

lemma list_read_back_example:
  "stringToStringSlice (strings_Join [''/a.B/C'', ''/a.B/*''] '','') = [''/a.B/C'', ''/a.B/*'']"
proof -
  have "list_all plain [''/a.B/C'', ''/a.B/*'']"
    by (simp add: plain_def plain_char_def byte_def unicode_IsSpace_def)
  then show ?thesis using list_read_back [of "[''/a.B/C'', ''/a.B/*'']"] by simp
qed

end
