(* ===== verification/Swagger.thy ===== *)
theory Swagger
  imports Prelude
begin

text \<open>
  JSON values and the part of the Swagger 2.0 format that the API document uses: schemas, operations
  and documents, and when a value is what a schema describes. References are resolved first
  (\<open>expand\<close>); an unresolved one describes nothing, so that too little fuel never makes a value valid.
\<close>

section \<open>Values and schemas\<close>

datatype json = JNull | JBool bool | JNum int | JStr string | JArr "json list" | JObj "(string \<times> json) list"

text \<open>
  \<open>Ref\<close> is \<open>$ref\<close> into the definitions, \<open>TMap\<close> an object with \<open>additionalProperties\<close>,
  \<open>AnyValue\<close> the empty schema; an integer has an optional minimum and maximum.
\<close>

datatype schema =
    Ref string
  | TString
  | TBoolean
  | TInteger "int option" "int option"
  | TArray schema
  | TMap schema
  | TObject "(string \<times> schema) list"
  | AllOf "schema list"
  | AnyValue

record parameter =
  pm_description :: string
  pm_name :: string
  pm_in :: string
  pm_required :: bool
  pm_schema :: schema

record doc_response =
  dr_description :: string
  dr_schema :: schema

record operation =
  op_security :: "string list"
  op_consumes :: "string list"
  op_produces :: "string list"
  op_tags :: "string list"
  op_summary :: string
  op_parameters :: "parameter list"
  op_responses :: "(int \<times> doc_response) list"

record security_definition =
  sec_description :: string
  sec_type :: string
  sec_name :: string
  sec_in :: string

record swagger_doc =
  sd_schemes :: "string list"
  sd_swagger :: string
  sd_description :: string
  sd_title :: string
  sd_version :: string
  sd_host :: string
  sd_basePath :: string
  sd_paths :: "(string \<times> (string \<times> operation) list) list"
  sd_definitions :: "(string \<times> schema) list"
  sd_securityDefinitions :: "(string \<times> security_definition) list"

section \<open>Validity\<close>

text \<open>Replaces references by what they refer to, as deep as the fuel reaches.\<close>

fun expand :: "(string \<times> schema) list \<Rightarrow> nat \<Rightarrow> schema \<Rightarrow> schema" where
  "expand defs 0 (Ref r) = Ref r"
| "expand defs (Suc n) (Ref r) = (case map_of defs r of Some s \<Rightarrow> expand defs n s | None \<Rightarrow> Ref r)"
| "expand defs n (TArray s) = TArray (expand defs n s)"
| "expand defs n (TMap s) = TMap (expand defs n s)"
| "expand defs n (TObject ps) = TObject (map (\<lambda>p. (fst p, expand defs n (snd p))) ps)"
| "expand defs n (AllOf ss) = AllOf (map (expand defs n) ss)"
| "expand defs n s = s"

definition in_range :: "int option \<Rightarrow> int option \<Rightarrow> int \<Rightarrow> bool" where
  "in_range lo hi i \<longleftrightarrow> (case lo of Some l \<Rightarrow> l \<le> i | None \<Rightarrow> True) \<and> (case hi of Some h \<Rightarrow> i \<le> h | None \<Rightarrow> True)"

text \<open>A property may be absent; one that is present has the type of the schema.\<close>

fun conforms :: "schema \<Rightarrow> json \<Rightarrow> bool" where
  "conforms (Ref r) j = False"
| "conforms TString j = (case j of JStr _ \<Rightarrow> True | _ \<Rightarrow> False)"
| "conforms TBoolean j = (case j of JBool _ \<Rightarrow> True | _ \<Rightarrow> False)"
| "conforms (TInteger lo hi) j = (case j of JNum i \<Rightarrow> in_range lo hi i | _ \<Rightarrow> False)"
| "conforms (TArray s) j = (case j of JArr js \<Rightarrow> list_all (conforms s) js | _ \<Rightarrow> False)"
| "conforms (TMap s) j = (case j of JObj fs \<Rightarrow> list_all (\<lambda>f. conforms s (snd f)) fs | _ \<Rightarrow> False)"
| "conforms (TObject ps) j =
     (case j of
        JObj fs \<Rightarrow> list_all (\<lambda>p. list_all (\<lambda>f. fst f = fst p \<longrightarrow> conforms (snd p) (snd f)) fs) ps
      | _ \<Rightarrow> False)"
| "conforms (AllOf ss) j = list_all (\<lambda>s. conforms s j) ss"
| "conforms AnyValue j = True"

text \<open>The properties an object schema names, and whether a value has no others, at any depth.\<close>

fun properties :: "schema \<Rightarrow> (string \<times> schema) list" where
  "properties (TObject ps) = ps"
| "properties (AllOf ss) = concat (map properties ss)"
| "properties _ = []"

fun no_extras :: "schema \<Rightarrow> json \<Rightarrow> bool" where
  "no_extras AnyValue j = True"
| "no_extras (TArray s) (JArr js) = list_all (no_extras s) js"
| "no_extras (TMap s) (JObj fs) = list_all (\<lambda>f. no_extras s (snd f)) fs"
| "no_extras s (JObj fs) =
     list_all (\<lambda>f. fst f \<in> fst ` set (properties s) \<and>
       list_all (\<lambda>p. fst p = fst f \<longrightarrow> no_extras (snd p) (snd f)) (properties s)) fs"
| "no_extras s j = True"

definition described :: "(string \<times> schema) list \<Rightarrow> schema \<Rightarrow> json \<Rightarrow> bool" where
  "described defs s j \<longleftrightarrow> (let t = expand defs (length defs) s in conforms t j \<and> no_extras t j)"

end
