(* ===== verification/Auth.thy ===== *)
theory Auth
  imports ConfigTypes
begin

text \<open>
  Authentication (\<open>internal/auth\<close>): route patterns, the pre-shared key, and the token service. The
  JWT library and the verifier of the identity service (JWKS) are parameters; the laws of the JWT
  library that the service relies on are \<open>jwt_sound\<close>.
\<close>

section \<open>Route patterns and the pre-shared key\<close>

primrec MatchesAny :: "string \<Rightarrow> string list \<Rightarrow> bool" where
  "MatchesAny v [] = False"
| "MatchesAny v (pattern # patterns) =
     (case path_Match pattern v of
        Some True \<Rightarrow> True
      | _ \<Rightarrow> MatchesAny v patterns)"

text \<open>\<open>subtle.ConstantTimeCompare(x, y) == 1\<close>\<close>

definition ConstantTimeCompare :: "string \<Rightarrow> string \<Rightarrow> bool" where
  "ConstantTimeCompare x y \<longleftrightarrow> x = y"

definition VerifyPSK :: "string \<Rightarrow> string \<Rightarrow> bool" where
  "VerifyPSK authorization expected =
     (case strings_Cut authorization (CHR '' '') of (scheme, supplied, ok) \<Rightarrow>
        if \<not> ok \<or> \<not> strings_EqualFold scheme ''PSK'' \<or> supplied = '''' \<or> length supplied \<noteq> length expected
        then False
        else ConstantTimeCompare supplied expected)"

section \<open>The token service\<close>

record Claims =
  cl_Issuer :: string
  cl_Subject :: string
  cl_ID :: string
  cl_IssuedAt :: "instant option"
  cl_NotBefore :: "instant option"
  cl_ExpiresAt :: "instant option"

datatype principal_type = TypeServiceAccount | TypeOther string

record Principal =
  pr_ID :: string
  pr_Type :: principal_type

datatype signing_method = SigningMethodHS256 | SigningMethodOther string

text \<open>
  The JWT library: dates, signing with HS256, and parsing with the key function and the issuer,
  with the options that require an expiry and check the time of issue, at a given time. A parsed
  token carries whether it is valid.
\<close>

record jwt_lib =
  jwt_NewNumericDate :: "instant \<Rightarrow> instant"
  jwt_SignedString :: "Claims \<Rightarrow> string \<Rightarrow> string + string"
  jwt_ParseWithClaims :: "string \<Rightarrow> (signing_method \<Rightarrow> string + string) \<Rightarrow> string \<Rightarrow> instant \<Rightarrow> string + (Claims \<times> bool)"

record auth_Service =
  svc_issuer :: string
  svc_secret :: string
  svc_ttl :: duration
  svc_clientID :: string
  svc_clientSecret :: string
  svc_verifier :: "(string \<Rightarrow> string + Principal) option"

definition auth_New :: "Config \<Rightarrow> auth_Service" where
  "auth_New cfg = \<lparr>svc_issuer = jwt_Issuer (cfg_JWT cfg), svc_secret = jwt_Secret (cfg_JWT cfg), svc_ttl = jwt_TTL (cfg_JWT cfg),
     svc_clientID = auth_ClientID (cfg_Auth cfg), svc_clientSecret = auth_ClientSecret (cfg_Auth cfg), svc_verifier = None\<rparr>"

text \<open>\<open>NewRuntime\<close>; the constructor of the verifier may fail.\<close>

definition auth_NewRuntime ::
    "(string \<Rightarrow> string \<Rightarrow> string \<Rightarrow> string + (string \<Rightarrow> string + Principal)) \<Rightarrow> Config \<Rightarrow> string + auth_Service" where
  "auth_NewRuntime NewJWKSVerifier cfg =
     (let service = auth_New cfg in
      if auth_JWKSURL (cfg_Auth cfg) = '''' then Inr service
      else (case NewJWKSVerifier (auth_JWKSURL (cfg_Auth cfg)) (auth_Issuer (cfg_Auth cfg)) (auth_Audience (cfg_Auth cfg)) of
              Inl err \<Rightarrow> Inl (''configure identity token verifier: '' @ err)
            | Inr verifier \<Rightarrow> Inr (service\<lparr>svc_verifier := Some verifier\<rparr>)))"

definition auth_Enabled :: "auth_Service \<Rightarrow> bool" where
  "auth_Enabled s \<longleftrightarrow> 32 \<le> length (svc_secret s) \<and> svc_clientID s \<noteq> '''' \<and> svc_clientSecret s \<noteq> ''''"

definition Authenticate :: "auth_Service \<Rightarrow> string \<Rightarrow> string \<Rightarrow> bool" where
  "Authenticate s clientID clientSecret =
     (if \<not> auth_Enabled s then False
      else ConstantTimeCompare clientID (svc_clientID s) \<and> ConstantTimeCompare clientSecret (svc_clientSecret s))"

text \<open>\<open>randomID\<close>: 16 random bytes, unless reading them fails.\<close>

definition auth_randomID :: "string + string \<Rightarrow> string + string" where
  "auth_randomID rnd = (case rnd of Inl err \<Rightarrow> Inl err | Inr b \<Rightarrow> Inr (base64_RawURL_EncodeToString b))"

definition Issue :: "jwt_lib \<Rightarrow> auth_Service \<Rightarrow> instant \<Rightarrow> string + string \<Rightarrow> string \<Rightarrow> string + string" where
  "Issue J s now rnd subject =
     (if \<not> auth_Enabled s then Inl ''authentication is not configured''
      else (case auth_randomID rnd of
              Inl err \<Rightarrow> Inl (''create token id: '' @ err)
            | Inr jti \<Rightarrow>
                jwt_SignedString J
                  \<lparr>cl_Issuer = svc_issuer s, cl_Subject = subject, cl_ID = jti,
                   cl_IssuedAt = Some (jwt_NewNumericDate J now), cl_NotBefore = Some (jwt_NewNumericDate J now),
                   cl_ExpiresAt = Some (jwt_NewNumericDate J (now + svc_ttl s))\<rparr> (svc_secret s)))"

definition method_name :: "signing_method \<Rightarrow> string" where
  "method_name m = (case m of SigningMethodHS256 \<Rightarrow> ''HS256'' | SigningMethodOther a \<Rightarrow> a)"

text \<open>The key function of \<open>Parse\<close>: only HS256 gets the secret.\<close>

definition keyFunc :: "auth_Service \<Rightarrow> signing_method \<Rightarrow> string + string" where
  "keyFunc s m =
     (if m \<noteq> SigningMethodHS256 then Inl (''unexpected signing method '' @ method_name m) else Inr (svc_secret s))"

definition Parse :: "jwt_lib \<Rightarrow> auth_Service \<Rightarrow> instant \<Rightarrow> string \<Rightarrow> string + Claims" where
  "Parse J s now raw =
     (if \<not> auth_Enabled s then Inl ''authentication is not configured''
      else (case jwt_ParseWithClaims J raw (keyFunc s) (svc_issuer s) now of
              Inl err \<Rightarrow> Inl (''parse jwt: '' @ err)
            | Inr (claims, valid) \<Rightarrow> if \<not> valid then Inl ''invalid jwt claims'' else Inr claims))"

definition Verify :: "jwt_lib \<Rightarrow> auth_Service \<Rightarrow> instant \<Rightarrow> string \<Rightarrow> string + Principal" where
  "Verify J s now raw =
     (case svc_verifier s of
        Some verifier \<Rightarrow> verifier raw
      | None \<Rightarrow>
          (case Parse J s now raw of
             Inl err \<Rightarrow> Inl err
           | Inr claims \<Rightarrow> Inr \<lparr>pr_ID = cl_Subject claims, pr_Type = TypeServiceAccount\<rparr>))"

section \<open>Facts\<close>

lemma MatchesAny_iff: "MatchesAny v patterns \<longleftrightarrow> (\<exists>p \<in> set patterns. path_Match p v = Some True)"
  by (induction patterns) (auto split: option.splits bool.splits)

text \<open>
  What the service relies on of the JWT library: dates are cut to whole seconds, signing with a byte
  string succeeds, and a signed token is accepted for the key, the issuer and the period it was made
  for, and refused outside that period.
\<close>

definition in_period :: "Claims \<Rightarrow> instant \<Rightarrow> bool" where
  "in_period c now \<longleftrightarrow>
     (case cl_ExpiresAt c of None \<Rightarrow> False | Some e \<Rightarrow> now < e) \<and>
     (case cl_NotBefore c of None \<Rightarrow> True | Some t \<Rightarrow> t \<le> now) \<and>
     (case cl_IssuedAt c of None \<Rightarrow> True | Some t \<Rightarrow> t \<le> now)"

definition jwt_sound :: "jwt_lib \<Rightarrow> bool" where
  "jwt_sound J \<longleftrightarrow>
     (\<forall>t. jwt_NewNumericDate J t = t div 1000000000 * 1000000000) \<and>
     (\<forall>c k. \<exists>raw. jwt_SignedString J c k = Inr raw) \<and>
     (\<forall>c k raw kf now. jwt_SignedString J c k = Inr raw \<longrightarrow> kf SigningMethodHS256 = Inr k \<longrightarrow>
        (if in_period c now then jwt_ParseWithClaims J raw kf (cl_Issuer c) now = Inr (c, True)
         else \<exists>e. jwt_ParseWithClaims J raw kf (cl_Issuer c) now = Inl e))"

lemma VerifyPSK_iff:
  "VerifyPSK header key \<longleftrightarrow>
     key \<noteq> '''' \<and> (\<exists>scheme. header = scheme @ CHR '' '' # key \<and> CHR '' '' \<notin> set scheme \<and> strings_EqualFold scheme ''PSK'')"
proof -
  obtain scheme supplied ok where c: "strings_Cut header (CHR '' '') = (scheme, supplied, ok)"
    by (cases "strings_Cut header (CHR '' '')") auto
  show ?thesis
  proof (cases ok)
    case True
    have h: "header = scheme @ CHR '' '' # supplied" "CHR '' '' \<notin> set scheme" using strings_Cut_sound [of header "CHR '' ''" scheme supplied] c True by simp_all
    have "scheme' = scheme \<and> key = supplied" if "header = scheme' @ CHR '' '' # key" "CHR '' '' \<notin> set scheme'" for scheme'
      using strings_Cut_found [OF that(2), of key] that(1) c by simp
    then show ?thesis using c True h by (auto simp: VerifyPSK_def ConstantTimeCompare_def)
  next
    case False
    have "CHR '' '' \<notin> set header"
    proof
      assume "CHR '' '' \<in> set header"
      then obtain a b where "header = a @ CHR '' '' # b" "CHR '' '' \<notin> set a" by (meson split_list_first)
      then show False using strings_Cut_found [of "CHR '' ''" a b] c False by simp
    qed
    then show ?thesis using c False by (auto simp: VerifyPSK_def)
  qed
qed

lemma issued_token:
  assumes "jwt_sound J" and "auth_Enabled s" and "svc_verifier s = None" and "now \<le> t"
  obtains raw where "Issue J s now (Inr b) subject = Inr raw"
    and "t < (now + svc_ttl s) div 1000000000 * 1000000000 \<Longrightarrow>
      Verify J s t raw = Inr \<lparr>pr_ID = subject, pr_Type = TypeServiceAccount\<rparr>"
    and "\<not> t < (now + svc_ttl s) div 1000000000 * 1000000000 \<Longrightarrow> \<exists>e. Verify J s t raw = Inl e"
proof -
  note J = assms(1) [unfolded jwt_sound_def]
  let ?c = "\<lparr>cl_Issuer = svc_issuer s, cl_Subject = subject, cl_ID = base64_RawURL_EncodeToString b,
    cl_IssuedAt = Some (now div 1000000000 * 1000000000), cl_NotBefore = Some (now div 1000000000 * 1000000000),
    cl_ExpiresAt = Some ((now + svc_ttl s) div 1000000000 * 1000000000)\<rparr>"
  obtain raw where r: "jwt_SignedString J ?c (svc_secret s) = Inr raw" using J by blast
  then have "Issue J s now (Inr b) subject = Inr raw" using J assms(2) by (simp add: Issue_def auth_randomID_def)
  moreover have "now div 1000000000 * 1000000000 \<le> now" by linarith
  with assms(4) have "in_period ?c t \<longleftrightarrow> t < (now + svc_ttl s) div 1000000000 * 1000000000"
    by (auto simp: in_period_def)
  moreover have "keyFunc s SigningMethodHS256 = Inr (svc_secret s)" by (simp add: keyFunc_def)
  then have "if in_period ?c t then jwt_ParseWithClaims J raw (keyFunc s) (cl_Issuer ?c) t = Inr (?c, True)
      else \<exists>e. jwt_ParseWithClaims J raw (keyFunc s) (cl_Issuer ?c) t = Inl e"
    using J r by blast
  ultimately show ?thesis
    using that [of raw] assms(2,3) by (auto simp: Verify_def Parse_def split: if_splits)
qed

end
