(* ===== verification/RequestContext.thy ===== *)
theory RequestContext
  imports Auth
begin

text \<open>
  What travels with a request: its identifier (\<open>internal/requestid\<close>), the environment profile
  (\<open>internal/environment\<close>), the idempotency key (\<open>internal/idempotency/context.go\<close>, which
  delegates to the platform library) and the authenticated principal. Context values are fields of a
  record; a field that was never set is \<open>None\<close>.
\<close>

record request_ctx =
  ctx_metadata :: "string \<Rightarrow> string list"
  ctx_requestID :: "string option"
  ctx_environment :: "string option"
  ctx_idempotencyKey :: "string option"
  ctx_principal :: "Principal option"
  ctx_credential :: "string option"

section \<open>Request identifiers\<close>

definition requestid_WithContext :: "request_ctx \<Rightarrow> string \<Rightarrow> request_ctx" where
  "requestid_WithContext ctx i = ctx\<lparr>ctx_requestID := Some i\<rparr>"

definition requestid_FromContext :: "request_ctx \<Rightarrow> string \<times> bool" where
  "requestid_FromContext ctx = (case ctx_requestID ctx of Some i \<Rightarrow> (i, i \<noteq> '''') | None \<Rightarrow> ('''', False))"

definition environment_WithContext :: "request_ctx \<Rightarrow> string \<Rightarrow> request_ctx" where
  "environment_WithContext ctx profile = ctx\<lparr>ctx_environment := Some profile\<rparr>"

definition environment_FromContext :: "request_ctx \<Rightarrow> string \<times> bool" where
  "environment_FromContext ctx = (case ctx_environment ctx of Some p \<Rightarrow> (p, True) | None \<Rightarrow> ('''', False))"

definition allowedCharacter :: "nat \<Rightarrow> bool" where
  "allowedCharacter c \<longleftrightarrow> byte (CHR ''a'') \<le> c \<and> c \<le> byte (CHR ''z'') \<or> byte (CHR ''A'') \<le> c \<and> c \<le> byte (CHR ''Z'') \<or>
     byte (CHR ''0'') \<le> c \<and> c \<le> byte (CHR ''9'') \<or> c \<in> set (runes ''-_.'')"

definition requestid_Valid :: "string \<Rightarrow> bool" where
  "requestid_Valid v =
     (if v = '''' \<or> 128 < length v then False else list_all allowedCharacter (runes v))"

text \<open>\<open>Generate\<close>: sixteen random bytes in hexadecimal, or the time when there are none.\<close>

definition requestid_Generate :: "string option \<Rightarrow> int \<Rightarrow> string" where
  "requestid_Generate rnd nanos =
     (case rnd of Some v \<Rightarrow> hex_EncodeToString v | None \<Rightarrow> ''fallback-'' @ dec_int nanos)"

section \<open>Facts\<close>

text \<open>The characters an identifier may have.\<close>

definition id_char :: "char \<Rightarrow> bool" where
  "id_char c \<longleftrightarrow> is_digit c \<or> c \<in> {CHR ''-'', CHR ''_'', CHR ''.''} \<or> (CHR ''A'' \<le> c \<and> c \<le> CHR ''Z'') \<or> (CHR ''a'' \<le> c \<and> c \<le> CHR ''z'')"

lemma allowed_bytes:
  "allowedCharacter r \<longleftrightarrow> 97 \<le> r \<and> r \<le> 122 \<or> 65 \<le> r \<and> r \<le> 90 \<or> 48 \<le> r \<and> r \<le> 57 \<or> r = 45 \<or> r = 95 \<or> r = 46"
proof -
  have "runes ''-_.'' = map byte ''-_.''" by (rule runes_ascii) (simp add: byte_def)
  then show ?thesis by (auto simp: allowedCharacter_def byte_def)
qed

lemma id_char_iff: "allowedCharacter (byte c) \<longleftrightarrow> id_char c"
proof -
  have "byte (CHR ''-'') = 45" "byte (CHR ''_'') = 95" "byte (CHR ''.'') = 46" by (simp_all add: byte_def)
  then have "byte c = 45 \<longleftrightarrow> c = CHR ''-''" "byte c = 95 \<longleftrightarrow> c = CHR ''_''" "byte c = 46 \<longleftrightarrow> c = CHR ''.''"
    by (metis byte_eq_iff)+
  then show ?thesis by (simp only: allowed_bytes) (auto simp: id_char_def is_digit_def less_eq_char_def byte_def)
qed

lemma Valid_iff: "requestid_Valid v \<longleftrightarrow> v \<noteq> '''' \<and> length v \<le> 128 \<and> list_all id_char v"
proof -
  have "list_all allowedCharacter (runes v) \<longleftrightarrow> list_all (allowedCharacter \<circ> byte) v"
    by (rule runes_all_iff) (auto simp: allowed_bytes)
  then show ?thesis by (auto simp: requestid_Valid_def comp_def id_char_iff)
qed

lemma id_char_digit: "is_digit c \<Longrightarrow> id_char c"
  by (simp add: id_char_def)

lemma id_char_hex: "d < 16 \<Longrightarrow> id_char (hex_digit d)"
proof -
  assume "d < 16"
  then have "hex_digit d \<in> set ''0123456789abcdef''" by (simp only: hex_digit_def) (rule nth_mem, simp)
  then show ?thesis by (auto simp: id_char_def is_digit_def less_eq_char_def)
qed

lemma hex_id: "list_all id_char (hex_EncodeToString v)"
proof (induction v)
  case (Cons c v)
  have "byte c div 16 < 16" using byte_less [of c] by (simp add: less_mult_imp_div_less)
  then show ?case using Cons by (simp add: id_char_hex)
qed simp

lemma dec_int_id: "list_all id_char (dec_int i)"
  using dec_all_digits by (auto simp: dec_int_def list_all_iff id_char_def)

lemma length_dec: "n < 10 ^ k \<Longrightarrow> 0 < k \<Longrightarrow> length (dec n) \<le> k"
proof (induction k arbitrary: n)
  case (Suc k)
  show ?case
  proof (cases "n < 10")
    case True
    then show ?thesis by (subst dec.simps) simp
  next
    case False
    then have "0 < k" "n div 10 < 10 ^ k" using Suc(2) by (cases k; simp)+
    then show ?thesis using Suc(1) [of "n div 10"] False by (subst dec.simps) simp
  qed
qed simp

lemma Generate_valid:
  assumes "\<And>v. rnd = Some v \<Longrightarrow> length v = 16" and "\<bar>nanos\<bar> < 2 ^ 64"
  shows "requestid_Valid (requestid_Generate rnd nanos)"
proof (cases rnd)
  case None
  have "nat \<bar>nanos\<bar> < 10 ^ 20" using assms(2) by simp
  then have "length (dec (nat \<bar>nanos\<bar>)) \<le> 20" by (rule length_dec) simp
  then have "length (dec_int nanos) \<le> 21" by (cases "nanos < 0") (simp_all add: dec_int_def)
  moreover have "list_all id_char ''fallback-''" by code_simp
  ultimately show ?thesis using None dec_int_id [of nanos] by (simp add: Valid_iff requestid_Generate_def)
next
  case (Some v)
  then have len: "length (hex_EncodeToString v) = 32" using assms(1) by simp
  then have "hex_EncodeToString v \<noteq> ''''" by (metis list.size(3) zero_neq_numeral)
  with len show ?thesis using Some hex_id [of v] by (simp add: Valid_iff requestid_Generate_def)
qed

end
