(* ===== verification/Health.thy ===== *)
theory Health
  imports ConfigTypes
begin

text \<open>
  Readiness (\<open>internal/health/service.go\<close>): the database and Redis are checked concurrently and
  their results are collected from a channel in the order of arrival. A dependency is the function
  that pings it within a timeout: the error, if any, and how long it took (as printed).
\<close>

record Dependency =
  dep_Status :: string
  dep_Latency :: string

record health_Status =
  hs_Status :: string
  hs_Dependencies :: "(string, Dependency) fmap"

type_synonym pinger = "duration \<Rightarrow> string option \<times> string"

record health_Service =
  hv_db :: "pinger option"
  hv_redis :: "pinger option"
  hv_cfg :: ConfigTypes.Health

record check_result =
  res_name :: string
  res_dependency :: Dependency
  res_ready :: bool

definition health_New :: "pinger option \<Rightarrow> pinger option \<Rightarrow> Config \<Rightarrow> health_Service" where
  "health_New db client cfg = \<lparr>hv_db = db, hv_redis = client, hv_cfg = cfg_Health cfg\<rparr>"

definition Live :: "health_Service \<Rightarrow> health_Status" where
  "Live s = \<lparr>hs_Status = ''up'', hs_Dependencies = fmempty\<rparr>"

definition checkResult :: "string \<Rightarrow> string option \<times> string \<Rightarrow> check_result" where
  "checkResult name r =
     (let dependency = \<lparr>dep_Status = ''up'', dep_Latency = snd r\<rparr> in
      if fst r \<noteq> None
      then \<lparr>res_name = name, res_dependency = dependency\<lparr>dep_Status := ''down''\<rparr>, res_ready = False\<rparr>
      else \<lparr>res_name = name, res_dependency = dependency, res_ready = True\<rparr>)"

definition disabled :: "string \<Rightarrow> check_result" where
  "disabled name = \<lparr>res_name = name, res_dependency = \<lparr>dep_Status = ''disabled'', dep_Latency = ''''\<rparr>, res_ready = True\<rparr>"

definition checkDatabase :: "health_Service \<Rightarrow> check_result" where
  "checkDatabase s =
     (case hv_db s of
        None \<Rightarrow> disabled ''database''
      | Some ping \<Rightarrow> checkResult ''database'' (ping (health_DatabaseTimeout (hv_cfg s))))"

definition checkRedis :: "health_Service \<Rightarrow> check_result" where
  "checkRedis s =
     (case hv_redis s of
        None \<Rightarrow> disabled ''redis''
      | Some ping \<Rightarrow> checkResult ''redis'' (ping (health_RedisTimeout (hv_cfg s))))"

text \<open>One item from the channel.\<close>

definition collect :: "check_result \<Rightarrow> health_Status \<times> bool \<Rightarrow> health_Status \<times> bool" where
  "collect item = (\<lambda>(status, ready).
     (status\<lparr>hs_Dependencies := fmupd (res_name item) (res_dependency item) (hs_Dependencies status)\<rparr>, ready \<and> res_ready item))"

text \<open>\<open>arrival\<close> is the order in which the two results come out of the channel.\<close>

definition Ready :: "(check_result list \<Rightarrow> check_result list) \<Rightarrow> health_Service \<Rightarrow> health_Status \<times> bool" where
  "Ready arrival s =
     (let (status, ready) = fold collect (arrival [checkDatabase s, checkRedis s])
            (\<lparr>hs_Status = ''ready'', hs_Dependencies = fmempty\<rparr>, True)
      in (if \<not> ready then status\<lparr>hs_Status := ''not_ready''\<rparr> else status, ready))"

definition answers :: "pinger option \<Rightarrow> duration \<Rightarrow> bool" where
  "answers p timeout = (case p of None \<Rightarrow> True | Some ping \<Rightarrow> fst (ping timeout) = None)"

lemma check_names [simp]: "res_name (checkDatabase s) = ''database''" "res_name (checkRedis s) = ''redis''"
  by (simp_all add: checkDatabase_def checkRedis_def disabled_def checkResult_def Let_def split: option.splits)

lemma check_ready:
  "res_ready (checkDatabase s) \<longleftrightarrow> answers (hv_db s) (health_DatabaseTimeout (hv_cfg s))"
  "res_ready (checkRedis s) \<longleftrightarrow> answers (hv_redis s) (health_RedisTimeout (hv_cfg s))"
  by (simp_all add: checkDatabase_def checkRedis_def disabled_def checkResult_def answers_def Let_def split: option.splits)

lemma two_orders: "mset xs = {#a, b#} \<Longrightarrow> xs = [a, b] \<or> xs = [b, a]"
proof -
  assume m: "mset xs = {#a, b#}"
  then have "length xs = 2" by (metis size_mset size_add_mset size_empty numeral_2_eq_2)
  then obtain x y where "xs = [x, y]" by (auto simp: numeral_2_eq_2 length_Suc_conv)
  with m show ?thesis by (auto simp: add_eq_conv_ex)
qed

text \<open>
  C26. Whichever check answers first, readiness reports the same: ready exactly when every
  dependency that is configured answered its ping within its timeout, with both dependencies listed.
\<close>

theorem readiness_exact:
  assumes "\<And>xs. mset (arrival xs) = mset xs"
  shows "Ready arrival s = Ready id s \<and>
    snd (Ready arrival s) = (answers (hv_db s) (health_DatabaseTimeout (hv_cfg s)) \<and>
      answers (hv_redis s) (health_RedisTimeout (hv_cfg s))) \<and>
    hs_Status (fst (Ready arrival s)) = (if snd (Ready arrival s) then ''ready'' else ''not_ready'') \<and>
    fmdom (hs_Dependencies (fst (Ready arrival s))) = {|''database'', ''redis''|}"
proof -
  have "fmupd ''redis'' x (fmupd ''database'' y m) = fmupd ''database'' y (fmupd ''redis'' x m)" for x y and m :: "(string, Dependency) fmap"
    by (rule fmupd_reorder_neq) simp
  then have "Ready (\<lambda>xs. [checkRedis s, checkDatabase s]) s = Ready id s"
    by (auto simp: Ready_def collect_def Let_def)
  moreover have "arrival [checkDatabase s, checkRedis s] \<in> {[checkDatabase s, checkRedis s], [checkRedis s, checkDatabase s]}"
    using two_orders [of "arrival [checkDatabase s, checkRedis s]" "checkDatabase s" "checkRedis s"] assms by auto
  ultimately have "Ready arrival s = Ready id s" by (auto simp: Ready_def)
  then show ?thesis by (auto simp: Ready_def collect_def Let_def check_ready)
qed

definition demo_health :: health_Service where
  "demo_health = \<lparr>hv_db = None, hv_redis = Some (\<lambda>t. (Some ''dial tcp: refused'', ''2s'')),
     hv_cfg = \<lparr>health_DatabaseTimeout = 2000000000, health_RedisTimeout = 2000000000\<rparr>\<rparr>"

theorem readiness_exact_witness: "snd (Ready rev demo_health) = False"
proof -
  have "\<not> answers (hv_redis demo_health) (health_RedisTimeout (hv_cfg demo_health))"
    by (simp add: demo_health_def answers_def)
  then show ?thesis using readiness_exact [OF mset_rev, THEN conjunct2, THEN conjunct1, of demo_health] by blast
qed

end
