(* ===== verification/GrpcServer.thy ===== *)
theory GrpcServer
  imports GrpcRegistry RequestContext Health ConfigValidate
begin

text \<open>
  The gRPC server around the handlers (\<open>internal/transport/grpc/server.go\<close>): authentication, the
  interceptors and the order in which \<open>NewServer\<close> chains them, the authorization requirements and
  the health service. A handler takes the context of the request and works on the state of the
  server; it may panic. Logging is not modelled. The authorization interceptor, the idempotency
  interceptor and the validity of idempotency keys belong to the platform library and are parameters.
\<close>

section \<open>Handlers and the state of the server\<close>

datatype 'a outcome =
    Reply 'a
  | Failure grpc_err
  | Panic string

text \<open>The state behind the handlers, the response headers set, and the requests counted.\<close>

record 's server_state =
  sv_world :: 's
  sv_header :: "(string \<times> string) list"
  sv_requests :: "(string \<times> grpc_code option) list"

type_synonym ('s, 'a) handler = "request_ctx \<Rightarrow> 's server_state \<Rightarrow> 'a outcome \<times> 's server_state"
type_synonym ('s, 'a) interceptor = "string \<Rightarrow> ('s, 'a) handler \<Rightarrow> ('s, 'a) handler"

section \<open>Authentication\<close>

definition psk_principal :: Principal where
  "psk_principal = \<lparr>pr_ID = ''service-registry-service:psk'', pr_Type = TypeServiceAccount\<rparr>"

definition authenticateGRPC ::
    "jwt_lib \<Rightarrow> instant \<Rightarrow> request_ctx \<Rightarrow> string \<Rightarrow> auth_Service \<Rightarrow> Auth \<Rightarrow> grpc_err + request_ctx" where
  "authenticateGRPC J now ctx method service cfg =
     (let vals = ctx_metadata ctx ''authorization'' in
      if psk_Enabled (auth_PSK cfg) \<and> MatchesAny method (psk_GRPCMethods (auth_PSK cfg)) then
        if length vals = 0 \<or> \<not> VerifyPSK (vals ! 0) (psk_Key (auth_PSK cfg))
        then Inl (Status Unauthenticated ''missing or invalid PSK'')
        else Inr (ctx\<lparr>ctx_principal := Some psk_principal\<rparr>)
      else if MatchesAny method (auth_SkipGRPCMethods cfg) then Inr ctx
      else if length vals = 0 then Inl (Status Unauthenticated ''missing bearer token'')
      else
        (case strings_Cut (vals ! 0) (CHR '' '') of (scheme, raw, ok) \<Rightarrow>
           if \<not> ok \<or> \<not> strings_EqualFold scheme ''Bearer'' then Inl (Status Unauthenticated ''invalid bearer token'')
           else
             (case Verify J service now raw of
                Inl err \<Rightarrow> Inl (Status Unauthenticated ''invalid or expired token'')
              | Inr identity \<Rightarrow> Inr (ctx\<lparr>ctx_principal := Some identity\<rparr>))))"

section \<open>Interceptors\<close>

definition environmentInterceptor :: "string \<Rightarrow> ('s, 'a) interceptor" where
  "environmentInterceptor profile method handler = (\<lambda>ctx. handler (environment_WithContext ctx profile))"

text \<open>The identifier a request gets: the client's if it is valid, a fresh one otherwise.\<close>

definition chosen_id :: "string \<Rightarrow> request_ctx \<Rightarrow> string" where
  "chosen_id fresh ctx =
     (let vals = ctx_metadata ctx ''x-request-id'';
          i = (if 0 < length vals \<and> requestid_Valid (vals ! 0) then vals ! 0 else '''')
      in if i = '''' then fresh else i)"

definition SetHeader :: "string \<times> string \<Rightarrow> 's server_state \<Rightarrow> 's server_state" where
  "SetHeader h s = s\<lparr>sv_header := sv_header s @ [h]\<rparr>"

text \<open>Whether the transport accepts the header is \<open>accepts\<close>; a unary call ignores a failure.\<close>

definition requestIDInterceptor :: "string \<Rightarrow> bool \<Rightarrow> ('s, 'a) interceptor" where
  "requestIDInterceptor fresh accepts method handler = (\<lambda>ctx s.
     let i = chosen_id fresh ctx
     in handler (requestid_WithContext ctx i) (if accepts then SetHeader (''x-request-id'', i) s else s))"

definition idempotencyInterceptor :: "(string \<Rightarrow> bool) \<Rightarrow> ('s, 'a) interceptor" where
  "idempotencyInterceptor idempotency_Valid method handler = (\<lambda>ctx s.
     let vals = ctx_metadata ctx ''idempotency-key'' in
     if length vals = 0 then handler ctx s
     else if \<not> idempotency_Valid (vals ! 0) then (Failure (Status InvalidArgument ''invalid idempotency-key''), s)
     else handler (ctx\<lparr>ctx_idempotencyKey := Some (vals ! 0)\<rparr>) s)"

definition recoveryInterceptor :: "('s, 'a) interceptor" where
  "recoveryInterceptor method handler = (\<lambda>ctx s.
     case handler ctx s of
       (Panic p, s') \<Rightarrow> (Failure (Status Internal ''internal server error''), s')
     | r \<Rightarrow> r)"

definition authInterceptor :: "jwt_lib \<Rightarrow> instant \<Rightarrow> auth_Service \<Rightarrow> Auth \<Rightarrow> ('s, 'a) interceptor" where
  "authInterceptor J now service cfg method handler = (\<lambda>ctx s.
     case authenticateGRPC J now ctx method service cfg of
       Inl err \<Rightarrow> (Failure err, s)
     | Inr authCtx \<Rightarrow> handler authCtx s)"

definition code_of :: "'a outcome \<Rightarrow> grpc_code option" where
  "code_of r = (case r of Failure (Status c _) \<Rightarrow> Some c | Failure (Transport _) \<Rightarrow> Some Unknown | _ \<Rightarrow> None)"

text \<open>A panic passes the metrics interceptor before anything is counted.\<close>

definition metricsInterceptor :: "bool \<Rightarrow> ('s, 'a) interceptor" where
  "metricsInterceptor enabled method handler = (\<lambda>ctx s.
     case handler ctx s of
       (Panic p, s') \<Rightarrow> (Panic p, s')
     | (r, s') \<Rightarrow> (r, if enabled then s'\<lparr>sv_requests := sv_requests s' @ [(method, code_of r)]\<rparr> else s'))"

text \<open>
  The interceptors of streams. A stream is given by its context; \<open>contextServerStream\<close> replaces
  the context and nothing else.
\<close>

definition environmentStreamInterceptor :: "string \<Rightarrow> ('s, 'a) interceptor" where
  "environmentStreamInterceptor profile method handler = (\<lambda>stream. handler (environment_WithContext stream profile))"

definition requestIDStreamInterceptor :: "string \<Rightarrow> bool \<Rightarrow> ('s, 'a) interceptor" where
  "requestIDStreamInterceptor fresh accepts method handler = (\<lambda>stream s.
     let i = chosen_id fresh stream
     in if \<not> accepts then (Failure (Status Internal ''set request metadata''), s)
        else handler (requestid_WithContext stream i) (SetHeader (''x-request-id'', i) s))"

definition idempotencyStreamInterceptor :: "(string \<Rightarrow> bool) \<Rightarrow> ('s, 'a) interceptor" where
  "idempotencyStreamInterceptor idempotency_Valid method handler = (\<lambda>stream s.
     let vals = ctx_metadata stream ''idempotency-key'' in
     if length vals = 0 then handler stream s
     else if \<not> idempotency_Valid (vals ! 0) then (Failure (Status InvalidArgument ''invalid idempotency-key''), s)
     else handler (stream\<lparr>ctx_idempotencyKey := Some (vals ! 0)\<rparr>) s)"

definition authStreamInterceptor :: "jwt_lib \<Rightarrow> instant \<Rightarrow> auth_Service \<Rightarrow> Auth \<Rightarrow> ('s, 'a) interceptor" where
  "authStreamInterceptor J now service cfg method handler = (\<lambda>stream s.
     case authenticateGRPC J now stream method service cfg of
       Inl err \<Rightarrow> (Failure err, s)
     | Inr ctx \<Rightarrow> handler ctx s)"

definition recoveryStreamInterceptor :: "('s, 'a) interceptor" where
  "recoveryStreamInterceptor method handler = (\<lambda>stream s.
     case handler stream s of
       (Panic p, s') \<Rightarrow> (Failure (Status Internal ''internal server error''), s')
     | r \<Rightarrow> r)"

definition metricsStreamInterceptor :: "bool \<Rightarrow> ('s, 'a) interceptor" where
  "metricsStreamInterceptor enabled method handler = (\<lambda>stream s.
     case handler stream s of
       (Panic p, s') \<Rightarrow> (Panic p, s')
     | (r, s') \<Rightarrow> (r, if enabled then s'\<lparr>sv_requests := sv_requests s' @ [(method, code_of r)]\<rparr> else s'))"

section \<open>Requirements\<close>

datatype scope = ScopePlatform | ScopeOther string

record Requirement =
  rq_Resource :: string
  rq_Action :: string
  rq_Scope :: scope

definition registry_method :: "string \<Rightarrow> string" where
  "registry_method name = ''/platform.registry.v1.RegistryService/'' @ name"

definition grpc_requirements :: "(string \<times> Requirement) list" where
  "grpc_requirements =
     [(registry_method ''RegisterInstance'', \<lparr>rq_Resource = ''service_registry.instance'', rq_Action = ''register'', rq_Scope = ScopePlatform\<rparr>),
      (registry_method ''RenewLease'', \<lparr>rq_Resource = ''service_registry.instance'', rq_Action = ''renew'', rq_Scope = ScopePlatform\<rparr>),
      (registry_method ''DeregisterInstance'', \<lparr>rq_Resource = ''service_registry.instance'', rq_Action = ''deregister'', rq_Scope = ScopePlatform\<rparr>),
      (registry_method ''SetInstanceStatus'', \<lparr>rq_Resource = ''service_registry.instance'', rq_Action = ''update_status'', rq_Scope = ScopePlatform\<rparr>),
      (registry_method ''GetInstance'', \<lparr>rq_Resource = ''service_registry.instance'', rq_Action = ''read'', rq_Scope = ScopePlatform\<rparr>),
      (registry_method ''ListInstances'', \<lparr>rq_Resource = ''service_registry.instance'', rq_Action = ''list'', rq_Scope = ScopePlatform\<rparr>),
      (registry_method ''ListServices'', \<lparr>rq_Resource = ''service_registry.service'', rq_Action = ''list'', rq_Scope = ScopePlatform\<rparr>),
      (registry_method ''WatchService'', \<lparr>rq_Resource = ''service_registry.service'', rq_Action = ''watch'', rq_Scope = ScopePlatform\<rparr>)]"

definition registryGRPCRequirement :: "bool \<Rightarrow> string \<Rightarrow> Requirement option" where
  "registryGRPCRequirement enabled method = (if \<not> enabled then None else map_of grpc_requirements method)"

section \<open>The chains of NewServer\<close>

text \<open>What the environment of a call decides: the time, randomness, the transport, the platform library.\<close>

record ('s, 'a) call_env =
  ce_jwt :: jwt_lib
  ce_now :: instant
  ce_fresh :: string
  ce_accepts :: bool
  ce_keyValid :: "string \<Rightarrow> bool"
  ce_authz :: "(string \<Rightarrow> Requirement option) \<Rightarrow> ('s, 'a) interceptor"
  ce_idempotency :: "string list \<Rightarrow> ('s, 'a) interceptor"

definition unary_chain :: "('s, 'a) call_env \<Rightarrow> Config \<Rightarrow> auth_Service \<Rightarrow> ('s, 'a) interceptor" where
  "unary_chain E cfg service method handler =
     environmentInterceptor (rt_ActiveProfile (cfg_Runtime cfg)) method
    (requestIDInterceptor (ce_fresh E) (ce_accepts E) method
    (idempotencyInterceptor (ce_keyValid E) method
    (recoveryInterceptor method
    (authInterceptor (ce_jwt E) (ce_now E) service (cfg_Auth cfg) method
    (ce_authz E (registryGRPCRequirement (authz_Enabled (cfg_Authorization cfg))) method
    (ce_idempotency E (idem_GRPCMethods (cfg_Idempotency cfg)) method
    (metricsInterceptor (obs_MetricsEnabled (cfg_Observability cfg)) method handler)))))))"

definition stream_chain :: "('s, 'a) call_env \<Rightarrow> Config \<Rightarrow> auth_Service \<Rightarrow> ('s, 'a) interceptor" where
  "stream_chain E cfg service method handler =
     environmentStreamInterceptor (rt_ActiveProfile (cfg_Runtime cfg)) method
    (requestIDStreamInterceptor (ce_fresh E) (ce_accepts E) method
    (idempotencyStreamInterceptor (ce_keyValid E) method
    (recoveryStreamInterceptor method
    (authStreamInterceptor (ce_jwt E) (ce_now E) service (cfg_Auth cfg) method
    (ce_authz E (registryGRPCRequirement (authz_Enabled (cfg_Authorization cfg))) method
    (metricsStreamInterceptor (obs_MetricsEnabled (cfg_Observability cfg)) method handler))))))"

section \<open>Health\<close>

datatype serving_status = SERVING | NOT_SERVING

definition healthServer_Check :: "(check_result list \<Rightarrow> check_result list) \<Rightarrow> health_Service \<Rightarrow> serving_status" where
  "healthServer_Check arrival health =
     (let (_, ready) = Ready arrival health; serving = NOT_SERVING
      in if ready then SERVING else serving)"

definition healthServer_List :: "health_Service \<Rightarrow> (string \<times> serving_status) list" where
  "healthServer_List health = [('''', SERVING)]"

end
