(* ===== verification/GoTime.thy ===== *)
theory GoTime
  imports GoStd
begin

text \<open>
  More of Go's \<open>time\<close> package: rounding and printing durations, whole seconds of a duration
  through \<open>float64\<close>, and the RFC 3339 form of an instant in UTC; and what the service reports
  about its build (\<open>internal/buildinfo\<close>).
\<close>

section \<open>Durations\<close>

text \<open>\<open>Duration.Round\<close>: to the nearest multiple, halves away from zero, saturating.\<close>

definition duration_Round :: "duration \<Rightarrow> duration \<Rightarrow> duration" where
  "duration_Round d m =
     (if m \<le> 0 then d
      else let r = \<bar>d\<bar> mod m; a = (if 2 * r < m then \<bar>d\<bar> - r else \<bar>d\<bar> + m - r)
           in if d < 0 then max (- (2 ^ 63)) (- a) else min (2 ^ 63 - 1) a)"

text \<open>
  \<open>int(d.Seconds())\<close>. The seconds are the sum of the whole seconds and the fraction as doubles;
  from \<open>2\<^sup>24\<close> seconds on, a fraction close to one is rounded up to the next second.
\<close>

definition whole_Seconds :: "duration \<Rightarrow> int" where
  "whole_Seconds d =
     (let sec = \<bar>d\<bar> div time_Second; nsec = \<bar>d\<bar> mod time_Second;
          up = 0 < sec \<and> 2 ^ (54 - bit_length (nat sec)) * (time_Second - nsec) \<le> time_Second
      in sgn d * (if up then sec + 1 else sec))"

text \<open>A number of the given width with leading zeros, and the fraction of a duration without trailing ones.\<close>

definition pad_dec :: "nat \<Rightarrow> nat \<Rightarrow> string" where
  "pad_dec width n = replicate (width - length (dec n)) (CHR ''0'') @ dec n"

definition fmtFrac :: "nat \<Rightarrow> nat \<Rightarrow> string" where
  "fmtFrac prec v =
     (let ds = rev (dropWhile (\<lambda>c. c = CHR ''0'') (rev (pad_dec prec v)))
      in if ds = '''' then '''' else CHR ''.'' # ds)"

definition duration_String :: "duration \<Rightarrow> string" where
  "duration_String d =
     (let u = \<bar>d\<bar>; sign = (if d < 0 then ''-'' else '''') in
      if u = 0 then ''0s''
      else if u < 1000 then sign @ dec_int u @ ''ns''
      else if u < 1000000 then sign @ dec_int (u div 1000) @ fmtFrac 3 (nat (u mod 1000)) @ [CHR 0xC2, CHR 0xB5, CHR ''s'']
      else if u < 1000000000 then sign @ dec_int (u div 1000000) @ fmtFrac 6 (nat (u mod 1000000)) @ ''ms''
      else let secs = u div 1000000000; mins = secs div 60; hours = mins div 60
           in sign @ (if 0 < hours then dec_int hours @ ''h'' else '''') @
              (if 0 < mins then dec_int (mins mod 60) @ ''m'' else '''') @
              dec_int (secs mod 60) @ fmtFrac 9 (nat (u mod 1000000000)) @ ''s'')"

section \<open>Dates\<close>

text \<open>Year, month and day of a day counted from the epoch (Gregorian calendar, years from March on).\<close>

definition civil :: "int \<Rightarrow> int \<times> int \<times> int" where
  "civil days =
     (let z = days + 719468; era = z div 146097; doe = z mod 146097;
          yoe = (doe - doe div 1460 + doe div 36524 - doe div 146096) div 365;
          doy = doe - (365 * yoe + yoe div 4 - yoe div 100);
          mp = (5 * doy + 2) div 153; d = doy - (153 * mp + 2) div 5 + 1;
          m = (if mp < 10 then mp + 3 else mp - 9); y = yoe + era * 400
      in (if m \<le> 2 then y + 1 else y, m, d))"

definition pad_int :: "nat \<Rightarrow> int \<Rightarrow> string" where
  "pad_int width i = (if i < 0 then CHR ''-'' # pad_dec width (nat (- i)) else pad_dec width (nat i))"

text \<open>\<open>Format(time.RFC3339)\<close> of a time in UTC.\<close>

definition Format_RFC3339 :: "instant \<Rightarrow> string" where
  "Format_RFC3339 t =
     (let secs = t div 1000000000; (y, m, d) = civil (secs div 86400); s = secs mod 86400
      in pad_int 4 y @ ''-'' @ pad_int 2 m @ ''-'' @ pad_int 2 d @ ''T'' @
         pad_int 2 (s div 3600) @ '':'' @ pad_int 2 (s div 60 mod 60) @ '':'' @ pad_int 2 (s mod 60) @ ''Z'')"

section \<open>Build information\<close>

record Info =
  bi_Version :: string
  bi_Commit :: string
  bi_BuildTime :: string
  bi_StartedAt :: instant
  bi_Uptime :: string

text \<open>The variables of the package, which the linker may set, and the time of the start.\<close>

record build_vars =
  bv_Version :: string
  bv_Commit :: string
  bv_BuildTime :: string
  bv_startedAt :: instant

definition buildinfo_Current :: "build_vars \<Rightarrow> instant \<Rightarrow> Info" where
  "buildinfo_Current v now =
     \<lparr>bi_Version = bv_Version v, bi_Commit = bv_Commit v, bi_BuildTime = bv_BuildTime v, bi_StartedAt = bv_startedAt v,
      bi_Uptime = duration_String (duration_Round (time_Sub now (bv_startedAt v)) time_Second)\<rparr>"

end
