(* ===== verification/RateLimiter.thy ===== *)
theory RateLimiter
  imports ConfigTypes GoTime
begin

text \<open>
  The rate limiter (\<open>internal/ratelimit/limiter.go\<close>). The Redis-backed limiter it wraps is a
  parameter: for a key and a limit it changes the state it keeps and answers how many requests are
  allowed now, or fails.
\<close>

record rate_Result =
  rr_Allowed :: bool
  rr_Limit :: int
  rr_Remaining :: int
  rr_RetryAfter :: duration

record backend_result =
  br_Allowed :: int
  br_Remaining :: int
  br_RetryAfter :: duration

type_synonym 's rate_backend = "string \<Rightarrow> int \<Rightarrow> int \<Rightarrow> duration \<Rightarrow> 's \<Rightarrow> (string + backend_result) \<times> 's"

record 's Limiter =
  lim_enabled :: bool
  lim_failOpen :: bool
  lim_backend :: "'s rate_backend option"

text \<open>\<open>New\<close>; without a Redis client there is no backend.\<close>

definition limiter_New :: "'s rate_backend option \<Rightarrow> Config \<Rightarrow> 's Limiter" where
  "limiter_New client cfg =
     \<lparr>lim_enabled = rl_Enabled (cfg_RateLimit cfg), lim_failOpen = rl_FailOpen (cfg_RateLimit cfg), lim_backend = client\<rparr>"

definition Allow :: "'s Limiter \<Rightarrow> string \<Rightarrow> RateLimitRule \<Rightarrow> 's \<Rightarrow> (string + rate_Result) \<times> 's" where
  "Allow l key rule s =
     (if \<not> lim_enabled l
      then (Inr \<lparr>rr_Allowed = True, rr_Limit = 0, rr_Remaining = 0, rr_RetryAfter = 0\<rparr>, s)
      else
        (case lim_backend l of
           None \<Rightarrow> (Inl ''redis rate limiter is unavailable'', s)
         | Some backend \<Rightarrow>
             (case backend key (rule_Rate rule) (rule_Burst rule) (rule_Period rule) s of
                (Inl err, s') \<Rightarrow> (Inl (''check redis rate limit: '' @ err), s')
              | (Inr result, s') \<Rightarrow>
                  (Inr \<lparr>rr_Allowed = 0 < br_Allowed result, rr_Limit = rule_Burst rule,
                        rr_Remaining = br_Remaining result, rr_RetryAfter = br_RetryAfter result\<rparr>, s'))))"

text \<open>The seconds of the \<open>Retry-After\<close> header: \<open>max(1, int(d.Round(time.Second)/time.Second))\<close>.\<close>

definition retry_seconds :: "duration \<Rightarrow> int" where
  "retry_seconds d = max 1 (go_quot (duration_Round d time_Second) time_Second)"

lemma retry_seconds_ge: "1 \<le> retry_seconds d"
  by (simp add: retry_seconds_def)

end
