(* ===== verification/AppError.thy ===== *)
theory AppError
  imports GoStd
begin

text \<open>
  The application errors of the HTTP interface (\<open>internal/apperror/error.go\<close>): a stable numeric
  code, a message for the client, the HTTP status, and the technical error behind it (its text),
  which is meant for the log.
\<close>

record AppError =
  ae_Code :: int
  ae_Message :: string
  ae_HTTPStatus :: int
  ae_Err :: "string option"

definition apperror_Error :: "AppError \<Rightarrow> string" where
  "apperror_Error e = (case ae_Err e of Some err \<Rightarrow> err | None \<Rightarrow> ae_Message e)"

definition apperror_Unwrap :: "AppError \<Rightarrow> string option" where
  "apperror_Unwrap e = ae_Err e"

definition CodeOK :: int where "CodeOK = 0"
definition CodeInvalidArgument :: int where "CodeInvalidArgument = 10001"
definition CodeNotFound :: int where "CodeNotFound = 10004"
definition CodeRequestTimeout :: int where "CodeRequestTimeout = 10008"
definition CodeTooManyRequests :: int where "CodeTooManyRequests = 10029"
definition CodeUnauthorized :: int where "CodeUnauthorized = 20001"
definition CodeForbidden :: int where "CodeForbidden = 20003"
definition CodeConflict :: int where "CodeConflict = 30009"
definition CodeRequestInProgress :: int where "CodeRequestInProgress = 30010"
definition CodeInternal :: int where "CodeInternal = 50000"
definition CodeDependencyUnavailable :: int where "CodeDependencyUnavailable = 50003"

lemmas code_defs = CodeOK_def CodeInvalidArgument_def CodeNotFound_def CodeRequestTimeout_def CodeTooManyRequests_def
  CodeUnauthorized_def CodeForbidden_def CodeConflict_def CodeRequestInProgress_def CodeInternal_def
  CodeDependencyUnavailable_def

definition apperror_New :: "int \<Rightarrow> string \<Rightarrow> int \<Rightarrow> string option \<Rightarrow> AppError" where
  "apperror_New code message status err = \<lparr>ae_Code = code, ae_Message = message, ae_HTTPStatus = status, ae_Err = err\<rparr>"

definition apperror_Invalid :: "string \<Rightarrow> string option \<Rightarrow> AppError" where
  "apperror_Invalid message err = apperror_New CodeInvalidArgument message 400 err"

definition apperror_NotFound :: "string \<Rightarrow> AppError" where
  "apperror_NotFound message = apperror_New CodeNotFound message 404 None"

definition apperror_Conflict :: "string \<Rightarrow> string option \<Rightarrow> AppError" where
  "apperror_Conflict message err = apperror_New CodeConflict message 409 err"

definition apperror_RequestInProgress :: AppError where
  "apperror_RequestInProgress = apperror_New CodeRequestInProgress ''request is already processing'' 409 None"

definition apperror_Unauthorized :: "string \<Rightarrow> AppError" where
  "apperror_Unauthorized message = apperror_New CodeUnauthorized message 401 None"

definition apperror_Forbidden :: "string \<Rightarrow> AppError" where
  "apperror_Forbidden message = apperror_New CodeForbidden message 403 None"

definition apperror_TooManyRequests :: AppError where
  "apperror_TooManyRequests = apperror_New CodeTooManyRequests ''too many requests'' 429 None"

definition apperror_RequestTimeout :: AppError where
  "apperror_RequestTimeout = apperror_New CodeRequestTimeout ''request timeout'' 504 None"

definition apperror_Unavailable :: "string \<Rightarrow> string option \<Rightarrow> AppError" where
  "apperror_Unavailable message err = apperror_New CodeDependencyUnavailable message 503 err"

definition apperror_Internal :: "string \<Rightarrow> AppError" where
  "apperror_Internal err = apperror_New CodeInternal ''internal server error'' 500 (Some err)"

lemmas apperror_defs = apperror_New_def apperror_Invalid_def apperror_NotFound_def apperror_Conflict_def
  apperror_RequestInProgress_def apperror_Unauthorized_def apperror_Forbidden_def apperror_TooManyRequests_def
  apperror_RequestTimeout_def apperror_Unavailable_def apperror_Internal_def

end
