(* ===== verification/HttpServer.thy ===== *)
theory HttpServer
  imports GrpcServer RateLimiter AppError
begin

text \<open>
  The HTTP interface (\<open>internal/transport/http\<close>): the response envelope, the middleware and the
  way \<open>NewServer\<close> chains it, the handlers and the routes. A middleware takes the rest of the
  chain (what \<open>c.Next()\<close> runs) and works on the gin context. Not modelled: tracing, the
  duration histograms, log lines other than the access log, and the bodies of \<open>/metrics\<close>, \<open>/swagger\<close> and \<open>/debug/pprof\<close>.
\<close>

section \<open>Requests, responses and the gin context\<close>

record http_request =
  hq_Method :: string
  hq_Route :: string \<comment> \<open>\<open>c.FullPath()\<close>, empty when no route matches\<close>
  hq_Header :: "string \<Rightarrow> string"
  hq_Body :: string
  hq_BodyLimit :: "int option"
  hq_ContentLength :: int
  hq_ClientIP :: string
  hq_TLS :: bool

record InstanceBody =
  ib_InstanceID :: string
  ib_ServiceName :: string
  ib_Endpoint :: string
  ib_Protocol :: string
  ib_Status :: string
  ib_Weight :: nat
  ib_Version :: string
  ib_Metadata :: "(string, string) fmap"
  ib_LeaseExpiresAt :: string

record ListInstancesBody =
  lib_Instances :: "InstanceBody list"
  lib_Revision :: nat
  lib_Total :: nat
  lib_Page :: int
  lib_PageSize :: int

record ServiceSummaryBody =
  sb_ServiceName :: string
  sb_HealthyInstances :: nat
  sb_DrainingInstances :: nat

record ListServicesBody =
  lsb_Services :: "ServiceSummaryBody list"
  lsb_Revision :: nat
  lsb_Total :: nat
  lsb_Page :: int
  lsb_PageSize :: int

datatype body =
    NoBody
  | StatusBody health_Status
  | SubjectBody "string option"
  | VersionBody Info
  | InstancesBody ListInstancesBody
  | ServicesBody ListServicesBody

record Response =
  rs_Code :: int
  rs_Message :: string
  rs_Body :: body
  rs_RequestID :: string

text \<open>A line of the access log; the identifiers of the trace and the duration are left out.\<close>

record http_log =
  hl_RequestID :: string
  hl_Method :: string
  hl_Path :: string
  hl_Status :: int
  hl_ClientIP :: string

text \<open>
  The gin context: what was written so far (status, and the envelope if it is one of ours), the
  response headers, the keys set on the context, and whether the chain was aborted or is panicking.
\<close>

record 's gin =
  g_request :: http_request
  g_ctx :: request_ctx
  g_keys :: "string \<Rightarrow> string option"
  g_world :: 's
  g_headers :: "(string \<times> string) list"
  g_written :: "(int \<times> Response option) list"
  g_aborted :: bool
  g_panic :: "string option"
  g_counted :: "(string \<times> string \<times> int) list"
  g_logged :: "http_log list"

type_synonym 's step = "'s gin \<Rightarrow> 's gin"
type_synonym 's middleware = "'s step \<Rightarrow> 's step"

definition GetHeader :: "'s gin \<Rightarrow> string \<Rightarrow> string" where
  "GetHeader c name = hq_Header (g_request c) name"

text \<open>\<open>c.Header\<close>: sets a response header, or removes it when the value is empty.\<close>

definition set_Header :: "string \<Rightarrow> string \<Rightarrow> 's step" where
  "set_Header k v c =
     (let hs = filter (\<lambda>h. fst h \<noteq> k) (g_headers c) in c\<lparr>g_headers := (if v = '''' then hs else hs @ [(k, v)])\<rparr>)"

definition gin_Set :: "string \<Rightarrow> string \<Rightarrow> 's step" where
  "gin_Set k v c = c\<lparr>g_keys := (g_keys c)(k := Some v)\<rparr>"

definition gin_JSON :: "int \<Rightarrow> Response \<Rightarrow> 's step" where
  "gin_JSON status r c = c\<lparr>g_written := g_written c @ [(status, Some r)]\<rparr>"

definition AbortWithStatusJSON :: "int \<Rightarrow> Response \<Rightarrow> 's step" where
  "AbortWithStatusJSON status r c = gin_JSON status r (c\<lparr>g_aborted := True\<rparr>)"

definition AbortWithStatus :: "int \<Rightarrow> 's step" where
  "AbortWithStatus status c = c\<lparr>g_written := g_written c @ [(status, None)], g_aborted := True\<rparr>"

text \<open>
  The status of the response: the first that was written; before, the 404 gin starts with when no
  route matches, 200 otherwise.
\<close>

definition writer_Status :: "'s gin \<Rightarrow> int" where
  "writer_Status c =
     (case g_written c of
        [] \<Rightarrow> if hq_Route (g_request c) = '''' then 404 else 200
      | (status, _) # _ \<Rightarrow> status)"

text \<open>Code after \<open>c.Next()\<close> runs unless the rest of the chain panicked.\<close>

definition after_next :: "'s step \<Rightarrow> 's step \<Rightarrow> 's step" where
  "after_next nxt f c = (let c' = nxt c in if g_panic c' \<noteq> None then c' else f c')"

definition requestID :: "'s gin \<Rightarrow> string" where
  "requestID c = (case g_keys c ''request_id'' of Some i \<Rightarrow> i | None \<Rightarrow> '''')"

section \<open>The envelope\<close>

definition OK :: "body \<Rightarrow> 's step" where
  "OK b c = gin_JSON 200 \<lparr>rs_Code = CodeOK, rs_Message = ''success'', rs_Body = b, rs_RequestID = requestID c\<rparr> c"

text \<open>An error that reaches \<open>Fail\<close>: an application error, or any other error by its text.\<close>

datatype http_err = AppErr AppError | OtherErr string

definition Fail :: "http_err \<Rightarrow> 's step" where
  "Fail err c =
     (let appErr = (case err of AppErr e \<Rightarrow> e | OtherErr text \<Rightarrow> apperror_Internal text)
      in AbortWithStatusJSON (ae_HTTPStatus appErr)
           \<lparr>rs_Code = ae_Code appErr, rs_Message = ae_Message appErr, rs_Body = NoBody, rs_RequestID = requestID c\<rparr> c)"

section \<open>Middleware\<close>

definition RequestID :: "string \<Rightarrow> 's middleware" where
  "RequestID fresh nxt c =
     (let i = GetHeader c ''X-Request-ID''; i = (if \<not> requestid_Valid i then fresh else i);
          c = set_Header ''X-Request-ID'' i (gin_Set ''request_id'' i c)
      in nxt (c\<lparr>g_ctx := requestid_WithContext (g_ctx c) i\<rparr>))"

definition Environment :: "string \<Rightarrow> 's middleware" where
  "Environment profile nxt c =
     (let c = gin_Set ''environment'' profile c in nxt (c\<lparr>g_ctx := environment_WithContext (g_ctx c) profile\<rparr>))"

definition IdempotencyKey :: "(string \<Rightarrow> bool) \<Rightarrow> 's middleware" where
  "IdempotencyKey idempotency_Valid nxt c =
     (let key = GetHeader c ''Idempotency-Key'' in
      if key = '''' then nxt c
      else if \<not> idempotency_Valid key then Fail (AppErr (apperror_Invalid ''invalid Idempotency-Key'' None)) c
      else let c = set_Header ''Idempotency-Key'' key c in nxt (c\<lparr>g_ctx := (g_ctx c)\<lparr>ctx_idempotencyKey := Some key\<rparr>\<rparr>))"

definition HTTPMetrics :: "bool \<Rightarrow> 's middleware" where
  "HTTPMetrics enabled nxt =
     after_next nxt (\<lambda>c. if \<not> enabled then c
       else let route = hq_Route (g_request c); route = (if route = '''' then ''unmatched'' else route)
            in c\<lparr>g_counted := g_counted c @ [(hq_Method (g_request c), route, writer_Status c)]\<rparr>)"

definition access_line :: "'s gin \<Rightarrow> http_log" where
  "access_line c = \<lparr>hl_RequestID = requestID c, hl_Method = hq_Method (g_request c), hl_Path = hq_Route (g_request c),
     hl_Status = writer_Status c, hl_ClientIP = hq_ClientIP (g_request c)\<rparr>"

definition RequestLogger :: "'s middleware" where
  "RequestLogger nxt = after_next nxt (\<lambda>c. c\<lparr>g_logged := g_logged c @ [access_line c]\<rparr>)"

definition Recovery :: "'s middleware" where
  "Recovery nxt c =
     (let c' = nxt c in
      case g_panic c' of
        None \<Rightarrow> c'
      | Some p \<Rightarrow>
          AbortWithStatusJSON 500 \<lparr>rs_Code = CodeInternal, rs_Message = ''internal server error'', rs_Body = NoBody,
            rs_RequestID = requestID c'\<rparr> (c'\<lparr>g_panic := None\<rparr>))"

text \<open>\<open>expired\<close>: whether the deadline of the request had passed when the rest of the chain was done.\<close>

definition Timeout :: "bool \<Rightarrow> 's middleware" where
  "Timeout expired nxt =
     after_next nxt (\<lambda>c. if expired \<and> g_written c = [] then Fail (AppErr apperror_RequestTimeout) c else c)"

definition RequireJSON :: "(string \<Rightarrow> string option) \<Rightarrow> 's middleware" where
  "RequireJSON ParseMediaType nxt c =
     (if hq_Method (g_request c) = ''POST'' \<and> hq_ContentLength (g_request c) \<noteq> 0 \<and>
         ParseMediaType (GetHeader c ''Content-Type'') \<noteq> Some ''application/json''
      then AbortWithStatusJSON 415 \<lparr>rs_Code = CodeInvalidArgument, rs_Message = ''content type must be application/json'',
             rs_Body = NoBody, rs_RequestID = requestID c\<rparr> c
      else nxt c)"

definition SecurityHeaders :: "'s middleware" where
  "SecurityHeaders nxt c =
     (let c = set_Header ''X-Content-Type-Options'' ''nosniff'' c;
          c = set_Header ''X-Frame-Options'' ''DENY'' c;
          c = set_Header ''Referrer-Policy'' ''no-referrer'' c;
          c = set_Header ''Content-Security-Policy'' (''default-src 'none'; frame-ancestors 'none'' @ [CHR 0x27]) c;
          c = set_Header ''Cache-Control'' ''no-store'' c;
          c = (if hq_TLS (g_request c) then set_Header ''Strict-Transport-Security'' ''max-age=31536000; includeSubDomains'' c else c)
      in nxt c)"


text \<open>\<open>MaxBody\<close> replaces the body by a reader that fails past the limit; the decoders see the limit.\<close>

definition MaxBody :: "int \<Rightarrow> 's middleware" where
  "MaxBody limit nxt c = nxt (c\<lparr>g_request := (g_request c)\<lparr>hq_BodyLimit := Some limit\<rparr>\<rparr>)"

definition CORS :: "CORS \<Rightarrow> 's middleware" where
  "CORS cfg nxt c =
     (if \<not> cors_Enabled cfg then nxt c
      else let origin = GetHeader c ''Origin'' in
        if origin = '''' then nxt c
        else if origin \<notin> set (cors_AllowedOrigins cfg)
        then AbortWithStatusJSON 403 \<lparr>rs_Code = CodeForbidden, rs_Message = ''origin is not allowed'', rs_Body = NoBody,
               rs_RequestID = requestID c\<rparr> c
        else
          let c = set_Header ''Access-Control-Allow-Origin'' origin c;
              c = set_Header ''Vary'' ''Origin'' c;
              c = set_Header ''Access-Control-Allow-Methods'' ''POST, GET, OPTIONS'' c;
              c = set_Header ''Access-Control-Allow-Headers'' (strings_Join (cors_AllowedHeaders cfg) '', '') c;
              c = set_Header ''Access-Control-Expose-Headers'' (strings_Join (cors_ExposedHeaders cfg) '', '') c;
              c = set_Header ''Access-Control-Max-Age'' (dec_int (whole_Seconds (cors_MaxAge cfg))) c
          in if hq_Method (g_request c) = ''OPTIONS'' then AbortWithStatus 204 c else nxt c)"

definition RateLimit :: "'s Limiter \<Rightarrow> RateLimitRule \<Rightarrow> string \<Rightarrow> ('s gin \<Rightarrow> string) \<Rightarrow> 's middleware" where
  "RateLimit limiter rule dimension rateKey nxt c =
     (if \<not> lim_enabled limiter then nxt c
      else let key = rateKey c in
        if key = '''' then nxt c
        else
          (case Allow limiter (''rate:'' @ dimension @ '':'' @ key) rule (g_world c) of
             (Inl err, s) \<Rightarrow>
               let c = c\<lparr>g_world := s\<rparr> in
               if lim_failOpen limiter then nxt c
               else Fail (AppErr (apperror_Unavailable ''rate limiter unavailable'' (Some err))) c
           | (Inr result, s) \<Rightarrow>
               let c = c\<lparr>g_world := s\<rparr>;
                   c = set_Header ''X-RateLimit-Limit'' (dec_int (rr_Limit result)) c;
                   c = set_Header ''X-RateLimit-Remaining'' (dec_int (rr_Remaining result)) c
               in if \<not> rr_Allowed result
                  then Fail (AppErr apperror_TooManyRequests)
                         (set_Header ''Retry-After'' (dec_int (retry_seconds (rr_RetryAfter result))) c)
                  else nxt c))"

definition WithCallerCredential :: "request_ctx \<Rightarrow> string \<Rightarrow> request_ctx" where
  "WithCallerCredential ctx header = ctx\<lparr>ctx_credential := Some header\<rparr>"

definition WithPrincipal :: "request_ctx \<Rightarrow> Principal \<Rightarrow> request_ctx" where
  "WithPrincipal ctx p = ctx\<lparr>ctx_principal := Some p\<rparr>"

definition JWT :: "jwt_lib \<Rightarrow> instant \<Rightarrow> auth_Service \<Rightarrow> 's middleware" where
  "JWT J now service nxt c =
     (let header = GetHeader c ''Authorization'' in
      case strings_Cut header (CHR '' '') of (scheme, raw, ok) \<Rightarrow>
        if \<not> ok \<or> \<not> strings_EqualFold scheme ''Bearer'' \<or> raw = ''''
        then Fail (AppErr (apperror_Unauthorized ''missing bearer token'')) c
        else
          (case Verify J service now raw of
             Inl err \<Rightarrow> Fail (AppErr (apperror_Unauthorized ''invalid or expired token'')) c
           | Inr identity \<Rightarrow>
               let c = gin_Set ''subject'' (pr_ID identity) c; ctx = WithPrincipal (g_ctx c) identity
               in nxt (c\<lparr>g_ctx := WithCallerCredential ctx header\<rparr>)))"

definition http_requirements :: "(string \<times> Requirement) list" where
  "http_requirements =
     [(''/api/v1/registry/instances/list'', \<lparr>rq_Resource = ''service_registry.instance'', rq_Action = ''list'', rq_Scope = ScopePlatform\<rparr>),
      (''/api/v1/registry/services/list'', \<lparr>rq_Resource = ''service_registry.service'', rq_Action = ''list'', rq_Scope = ScopePlatform\<rparr>)]"

definition registryHTTPRequirement :: "string \<Rightarrow> Requirement option" where
  "registryHTTPRequirement route = map_of http_requirements route"

text \<open>
  \<open>platformauthz.Enforce\<close> on the context of the request is a parameter: no error, the error that
  there is no decision, or another one.
\<close>

datatype enforce_err = ErrDecisionUnavailable string | ErrDenied string

type_synonym enforcer = "request_ctx \<Rightarrow> Requirement \<Rightarrow> enforce_err option"

definition Authorization :: "enforcer \<Rightarrow> bool \<Rightarrow> 's middleware" where
  "Authorization Enforce enabled nxt c =
     (case registryHTTPRequirement (hq_Route (g_request c)) of
        None \<Rightarrow> nxt c
      | Some requirement \<Rightarrow>
          if \<not> enabled then nxt c
          else (case Enforce (g_ctx c) requirement of
                  Some (ErrDecisionUnavailable err) \<Rightarrow>
                    Fail (AppErr (apperror_Unavailable ''authorization decision is unavailable'' (Some err))) c
                | Some (ErrDenied err) \<Rightarrow> Fail (AppErr (apperror_Forbidden ''permission denied'')) c
                | None \<Rightarrow> nxt c))"

definition Authentication :: "jwt_lib \<Rightarrow> instant \<Rightarrow> auth_Service \<Rightarrow> Auth \<Rightarrow> 's middleware" where
  "Authentication J now service cfg nxt c =
     (let route = hq_Route (g_request c) in
      if psk_Enabled (auth_PSK cfg) \<and> MatchesAny route (psk_HTTPPaths (auth_PSK cfg)) then
        if \<not> VerifyPSK (GetHeader c ''Authorization'') (psk_Key (auth_PSK cfg))
        then Fail (AppErr (apperror_Unauthorized ''missing or invalid PSK'')) c
        else let c = gin_Set ''subject'' ''psk'' c; ctx = WithPrincipal (g_ctx c) psk_principal
             in nxt (c\<lparr>g_ctx := WithCallerCredential ctx (GetHeader c ''Authorization'')\<rparr>)
      else if MatchesAny route (auth_SkipHTTPPaths cfg) then nxt c
      else JWT J now service nxt c)"

definition pprofAuth :: "string \<Rightarrow> 's middleware" where
  "pprofAuth expected nxt c =
     (case strings_Cut (GetHeader c ''Authorization'') (CHR '' '') of (scheme, token, ok) \<Rightarrow>
        if \<not> ok \<or> \<not> strings_EqualFold scheme ''Bearer'' \<or> \<not> ConstantTimeCompare token expected
        then AbortWithStatus 401 c
        else nxt c)"

end
