(* ===== verification/HttpRoutes.thy ===== *)
theory HttpRoutes
  imports HttpServer
begin

text \<open>
  The handlers (\<open>handler.go\<close>) and the router (\<open>NewServer\<close> and \<open>pprofAuth\<close> in \<open>server.go\<close>):
  the chain every request passes, the group under \<open>/api/v1\<close>, and the routes. Swagger, the metrics
  page and the profiles are handlers of libraries and appear as parameters.
\<close>

section \<open>What a request depends on\<close>

record http_ListInstancesRequest =
  hli_ServiceName :: string
  hli_Metadata :: "(string, string) fmap"
  hli_IncludeDraining :: bool
  hli_Page :: int
  hli_PageSize :: int

record http_ListServicesRequest =
  hls_Prefix :: string
  hls_Page :: int
  hls_PageSize :: int

text \<open>
  The time, randomness, the services the handlers call, and the libraries: JWT, the validity of
  idempotency keys, media types, JSON decoding (of the body, under its limit), the names of statuses,
  the policy decision, and the handlers that are not the service's own.
\<close>

record 's http_env =
  he_jwt :: jwt_lib
  he_now :: instant
  he_fresh :: string
  he_expired :: bool
  he_keyValid :: "string \<Rightarrow> bool"
  he_ParseMediaType :: "string \<Rightarrow> string option"
  he_Enforce :: enforcer
  he_limiter :: "'s world Limiter"
  he_platform :: "'s platform"
  he_health :: health_Service
  he_arrival :: "check_result list \<Rightarrow> check_result list"
  he_build :: build_vars
  he_statusString :: "InstanceStatus \<Rightarrow> string"
  he_decodeInstances :: "int option \<Rightarrow> string \<Rightarrow> string + http_ListInstancesRequest"
  he_decodeServices :: "int option \<Rightarrow> string \<Rightarrow> string + http_ListServicesRequest"
  he_foreign :: "string \<Rightarrow> 's world step"

section \<open>Handlers\<close>

definition http_Live :: "'s http_env \<Rightarrow> 's world step" where
  "http_Live E c = OK (StatusBody (Live (he_health E))) c"

definition http_Ready :: "'s http_env \<Rightarrow> 's world step" where
  "http_Ready E c =
     (let (status, ready) = Ready (he_arrival E) (he_health E) in
      if \<not> ready
      then gin_JSON 503 \<lparr>rs_Code = CodeDependencyUnavailable, rs_Message = ''service is not ready'', rs_Body = StatusBody status,
             rs_RequestID = requestID c\<rparr> c
      else OK (StatusBody status) c)"

definition Me :: "'s world step" where
  "Me c = OK (SubjectBody (g_keys c ''subject'')) c"

definition http_Version :: "'s http_env \<Rightarrow> 's world step" where
  "http_Version E c = OK (VersionBody (buildinfo_Current (he_build E) (he_now E))) c"

text \<open>The binding tags: \<open>omitempty,min=1\<close> and \<open>omitempty,min=1,max=100\<close>.\<close>

definition valid_page :: "int \<Rightarrow> bool" where
  "valid_page p \<longleftrightarrow> p = 0 \<or> 1 \<le> p"

definition valid_page_size :: "int \<Rightarrow> bool" where
  "valid_page_size p \<longleftrightarrow> p = 0 \<or> 1 \<le> p \<and> p \<le> 100"

definition bindInstances :: "'s http_env \<Rightarrow> 's world gin \<Rightarrow> string + http_ListInstancesRequest" where
  "bindInstances E c =
     (case he_decodeInstances E (hq_BodyLimit (g_request c)) (hq_Body (g_request c)) of
        Inl err \<Rightarrow> Inl err
      | Inr r \<Rightarrow> if valid_page (hli_Page r) \<and> valid_page_size (hli_PageSize r) then Inr r else Inl ''validation failed'')"

definition bindServices :: "'s http_env \<Rightarrow> 's world gin \<Rightarrow> string + http_ListServicesRequest" where
  "bindServices E c =
     (case he_decodeServices E (hq_BodyLimit (g_request c)) (hq_Body (g_request c)) of
        Inl err \<Rightarrow> Inl err
      | Inr r \<Rightarrow> if valid_page (hls_Page r) \<and> valid_page_size (hls_PageSize r) then Inr r else Inl ''validation failed'')"

definition pagination :: "int \<Rightarrow> int \<Rightarrow> int \<times> int" where
  "pagination page pageSize =
     (let page = (if page = 0 then 1 else page); pageSize = (if pageSize = 0 then 20 else pageSize) in (page, pageSize))"

definition instance_body :: "'s http_env \<Rightarrow> ServiceInstance \<Rightarrow> InstanceBody" where
  "instance_body E v =
     \<lparr>ib_InstanceID = si_InstanceId v, ib_ServiceName = si_ServiceName v, ib_Endpoint = si_Endpoint v, ib_Protocol = si_Protocol v,
      ib_Status = he_statusString E (si_Status v), ib_Weight = si_Weight v, ib_Version = si_Version v, ib_Metadata = si_Metadata v,
      ib_LeaseExpiresAt = Format_RFC3339 (AsTime (si_LeaseExpiresAt v))\<rparr>"

definition http_ListInstances :: "'s http_env \<Rightarrow> 's world step" where
  "http_ListInstances E c =
     (case bindInstances E c of
        Inl err \<Rightarrow> Fail (AppErr (apperror_Invalid ''invalid request'' (Some err))) c
      | Inr request \<Rightarrow>
          let (page, pageSize) = pagination (hli_Page request) (hli_PageSize request) in
          (case Service_ListPage (he_platform E)
                  \<lparr>lir_ServiceName = hli_ServiceName request, lir_Selector = hli_Metadata request,
                   lir_IncludeDraining = hli_IncludeDraining request\<rparr> page pageSize (g_world c) of
             (Inl err, w) \<Rightarrow> Fail (AppErr (apperror_Invalid (Error err) (Some (Error err)))) (c\<lparr>g_world := w\<rparr>)
           | (Inr (response, tot), w) \<Rightarrow>
               OK (InstancesBody \<lparr>lib_Instances = map (instance_body E) (lis_Instances response),
                     lib_Revision = lis_Revision response, lib_Total = tot, lib_Page = page, lib_PageSize = pageSize\<rparr>)
                  (c\<lparr>g_world := w\<rparr>)))"

definition service_body :: "ServiceSummary \<Rightarrow> ServiceSummaryBody" where
  "service_body v = \<lparr>sb_ServiceName = ss_ServiceName v, sb_HealthyInstances = ss_HealthyInstances v,
     sb_DrainingInstances = ss_DrainingInstances v\<rparr>"

definition http_ListServices :: "'s http_env \<Rightarrow> 's world step" where
  "http_ListServices E c =
     (case bindServices E c of
        Inl err \<Rightarrow> Fail (AppErr (apperror_Invalid ''invalid request'' (Some err))) c
      | Inr request \<Rightarrow>
          let (page, pageSize) = pagination (hls_Page request) (hls_PageSize request) in
          (case Service_ListServicesPage (he_platform E) (hls_Prefix request) page pageSize (g_world c) of
             (Inl err, w) \<Rightarrow> Fail (OtherErr (Error err)) (c\<lparr>g_world := w\<rparr>)
           | (Inr (response, tot), w) \<Rightarrow>
               OK (ServicesBody \<lparr>lsb_Services = map service_body (lss_Services response),
                     lsb_Revision = lss_Revision response, lsb_Total = tot, lsb_Page = page, lsb_PageSize = pageSize\<rparr>)
                  (c\<lparr>g_world := w\<rparr>)))"

section \<open>The router\<close>

text \<open>\<open>router.Use\<close>; the middleware of the tracing library only observes.\<close>

definition global_chain :: "'s http_env \<Rightarrow> Config \<Rightarrow> 's world middleware" where
  "global_chain E cfg nxt =
     RequestID (he_fresh E)
    (IdempotencyKey (he_keyValid E)
    (Environment (rt_ActiveProfile (cfg_Runtime cfg))
    (RequestLogger
    (Recovery
    (HTTPMetrics (obs_MetricsEnabled (cfg_Observability cfg))
    (SecurityHeaders
    (CORS (http_CORS (cfg_HTTP cfg))
    (MaxBody (http_MaxBodyBytes (cfg_HTTP cfg))
    (Timeout (he_expired E)
    (RequireJSON (he_ParseMediaType E) nxt))))))))))"

definition subject_of :: "'s gin \<Rightarrow> string" where
  "subject_of c = (case g_keys c ''subject'' of Some v \<Rightarrow> v | None \<Rightarrow> '''')"

text \<open>\<open>router.Group("/api/v1", ...)\<close>\<close>

definition api_group :: "'s http_env \<Rightarrow> Config \<Rightarrow> auth_Service \<Rightarrow> 's world middleware" where
  "api_group E cfg service nxt =
     RateLimit (he_limiter E) (rl_IP (cfg_RateLimit cfg)) ''ip'' (\<lambda>c. hq_ClientIP (g_request c))
    (RateLimit (he_limiter E) (rl_API (cfg_RateLimit cfg)) ''api'' (\<lambda>c. hq_Route (g_request c))
    (Authentication (he_jwt E) (he_now E) service (cfg_Auth cfg)
    (Authorization (he_Enforce E) (authz_Enabled (cfg_Authorization cfg))
    (RateLimit (he_limiter E) (rl_User (cfg_RateLimit cfg)) ''user'' subject_of nxt))))"

definition api_routes :: "'s http_env \<Rightarrow> (string \<times> 's world step) list" where
  "api_routes E =
     [(''/api/v1/version'', http_Version E), (''/api/v1/me'', Me),
      (''/api/v1/registry/instances/list'', http_ListInstances E), (''/api/v1/registry/services/list'', http_ListServices E)]"

definition pprof_routes :: "(string \<times> string) list" where
  "pprof_routes =
     [(''GET'', ''/debug/pprof/''), (''GET'', ''/debug/pprof/cmdline''), (''GET'', ''/debug/pprof/profile''),
      (''POST'', ''/debug/pprof/symbol''), (''GET'', ''/debug/pprof/symbol''), (''GET'', ''/debug/pprof/trace'')] @
     map (\<lambda>profile. (''GET'', ''/debug/pprof/'' @ profile)) [''allocs'', ''block'', ''goroutine'', ''heap'', ''mutex'', ''threadcreate'']"

text \<open>The handlers behind the global chain for a method and a route pattern, if the router has them.\<close>

definition route_handlers :: "'s http_env \<Rightarrow> Config \<Rightarrow> auth_Service \<Rightarrow> string \<Rightarrow> string \<Rightarrow> 's world step option" where
  "route_handlers E cfg service method route =
     (if method \<in> {''GET'', ''POST''} \<and> route = ''/live'' then Some (http_Live E)
      else if method \<in> {''GET'', ''POST''} \<and> route = ''/ready'' then Some (http_Ready E)
      else if obs_MetricsEnabled (cfg_Observability cfg) \<and> method = ''GET'' \<and> route = ''/metrics'' then Some (he_foreign E route)
      else if obs_PprofEnabled (cfg_Observability cfg) \<and> (method, route) \<in> set pprof_routes
      then Some (pprofAuth (obs_PprofToken (cfg_Observability cfg)) (he_foreign E route))
      else if swagger_Enabled (cfg_Swagger cfg) \<and> method = ''GET'' \<and> route = ''/swagger/*any''
      then Some (if swagger_RequireAuth (cfg_Swagger cfg) then JWT (he_jwt E) (he_now E) service (he_foreign E route) else he_foreign E route)
      else if method = ''POST'' then map_option (api_group E cfg service) (map_of (api_routes E) route)
      else None)"

text \<open>
  A request: the chain of its route, or the global chain alone when no route matches, answered with
  gin's default 404 unless the chain answered.
\<close>

definition serve :: "'s http_env \<Rightarrow> Config \<Rightarrow> auth_Service \<Rightarrow> 's world step" where
  "serve E cfg service c =
     (case route_handlers E cfg service (hq_Method (g_request c)) (hq_Route (g_request c)) of
        Some handlers \<Rightarrow> global_chain E cfg handlers c
      | None \<Rightarrow>
          let c' = global_chain E cfg (\<lambda>c. c) (c\<lparr>g_request := (g_request c)\<lparr>hq_Route := ''''\<rparr>\<rparr>)
          in if g_written c' = [] then c'\<lparr>g_written := [(404, None)]\<rparr> else c')"

text \<open>A request as it arrives.\<close>

definition incoming :: "http_request \<Rightarrow> 's \<Rightarrow> 's gin" where
  "incoming r w = \<lparr>g_request = r\<lparr>hq_BodyLimit := None\<rparr>,
     g_ctx = \<lparr>ctx_metadata = (\<lambda>_. []), ctx_requestID = None, ctx_environment = None, ctx_idempotencyKey = None,
       ctx_principal = None, ctx_credential = None\<rparr>,
     g_keys = (\<lambda>_. None), g_world = w, g_headers = [], g_written = [], g_aborted = False, g_panic = None, g_counted = [], g_logged = []\<rparr>"

end
