(* ===== verification/ApiDocs.thy ===== *)
theory ApiDocs
  imports Swagger HttpRoutes
begin

text \<open>
  The API document (\<open>docs/docs.go\<close>, what \<open>/swagger\<close> shows), and the JSON of the bodies the HTTP
  interface reads and writes: the tags of the structs in \<open>handler.go\<close>, \<open>response.go\<close>, \<open>health.go\<close>
  and \<open>buildinfo.go\<close>. Strings, numbers and maps are those of \<open>encoding/json\<close>, as values; bytes that
  are not UTF-8, which it replaces, are left as they are.
\<close>

section \<open>Operations\<close>

definition doc_me :: operation where
  "doc_me =
     \<lparr>op_security = [''Bearer''], op_consumes = [], op_produces = [''application/json''], op_tags = [''authentication''],
      op_summary = ''Return the authenticated subject'',
      op_parameters = [],
      op_responses =
        [(200, \<lparr>dr_description = ''OK'',
         dr_schema = AllOf [Ref ''httptransport.Response'', TObject [(''body'', Ref ''httptransport.MeResponseBody'')]]\<rparr>),
         (401, \<lparr>dr_description = ''Code 20001: unauthorized'',
         dr_schema = Ref ''httptransport.Response''\<rparr>)]\<rparr>"

definition doc_registry_instances_list :: operation where
  "doc_registry_instances_list =
     \<lparr>op_security = [''Bearer''], op_consumes = [''application/json''], op_produces = [''application/json''], op_tags = [''registry''],
      op_summary = ''List live service instances'',
      op_parameters = [\<lparr>pm_description = ''Service name or metadata selector'', pm_name = ''request'', pm_in = ''body'', pm_required = True,
        pm_schema = Ref ''httptransport.ListInstancesRequest''\<rparr>],
      op_responses =
        [(200, \<lparr>dr_description = ''OK'',
         dr_schema = AllOf [Ref ''httptransport.Response'', TObject [(''body'', Ref ''httptransport.ListInstancesBody'')]]\<rparr>),
         (400, \<lparr>dr_description = ''Code 10001: invalid selector'',
         dr_schema = Ref ''httptransport.Response''\<rparr>)]\<rparr>"

definition doc_registry_services_list :: operation where
  "doc_registry_services_list =
     \<lparr>op_security = [''Bearer''], op_consumes = [''application/json''], op_produces = [''application/json''], op_tags = [''registry''],
      op_summary = ''List registered services'',
      op_parameters = [\<lparr>pm_description = ''Optional service prefix'', pm_name = ''request'', pm_in = ''body'', pm_required = True,
        pm_schema = Ref ''httptransport.ListServicesRequest''\<rparr>],
      op_responses =
        [(200, \<lparr>dr_description = ''OK'',
         dr_schema = AllOf [Ref ''httptransport.Response'', TObject [(''body'', Ref ''httptransport.ListServicesBody'')]]\<rparr>)]\<rparr>"

definition doc_version :: operation where
  "doc_version =
     \<lparr>op_security = [], op_consumes = [], op_produces = [''application/json''], op_tags = [''operations''],
      op_summary = ''Return build and runtime version information'',
      op_parameters = [],
      op_responses =
        [(200, \<lparr>dr_description = ''OK'',
         dr_schema = AllOf [Ref ''httptransport.Response'', TObject [(''body'', Ref ''buildinfo.Info'')]]\<rparr>)]\<rparr>"

definition doc_live :: operation where
  "doc_live =
     \<lparr>op_security = [], op_consumes = [], op_produces = [''application/json''], op_tags = [''operations''],
      op_summary = ''Check process liveness'',
      op_parameters = [],
      op_responses =
        [(200, \<lparr>dr_description = ''OK'',
         dr_schema = AllOf [Ref ''httptransport.Response'', TObject [(''body'', Ref ''health.Status'')]]\<rparr>)]\<rparr>"

definition doc_ready :: operation where
  "doc_ready =
     \<lparr>op_security = [], op_consumes = [], op_produces = [''application/json''], op_tags = [''operations''],
      op_summary = ''Check database and Redis readiness'',
      op_parameters = [],
      op_responses =
        [(200, \<lparr>dr_description = ''OK'',
         dr_schema = AllOf [Ref ''httptransport.Response'', TObject [(''body'', Ref ''health.Status'')]]\<rparr>),
         (503, \<lparr>dr_description = ''Code 50003: dependency unavailable'',
         dr_schema = AllOf [Ref ''httptransport.Response'', TObject [(''body'', Ref ''health.Status'')]]\<rparr>)]\<rparr>"

section \<open>Schemas\<close>

definition schema_Info :: schema where
  "schema_Info = TObject
     [(''build_time'', TString),
      (''commit'', TString),
      (''started_at'', TString),
      (''uptime'', TString),
      (''version'', TString)]"

definition schema_Dependency :: schema where
  "schema_Dependency = TObject
     [(''latency'', TString),
      (''status'', TString)]"

definition schema_Status :: schema where
  "schema_Status = TObject
     [(''dependencies'', TMap (Ref ''health.Dependency'')),
      (''status'', TString)]"

definition schema_InstanceBody :: schema where
  "schema_InstanceBody = TObject
     [(''endpoint'', TString),
      (''instance_id'', TString),
      (''lease_expires_at'', TString),
      (''metadata'', TMap TString),
      (''protocol'', TString),
      (''service_name'', TString),
      (''status'', TString),
      (''version'', TString),
      (''weight'', TInteger None None)]"

definition schema_ListInstancesBody :: schema where
  "schema_ListInstancesBody = TObject
     [(''instances'', TArray (Ref ''httptransport.InstanceBody'')),
      (''page'', TInteger None None),
      (''page_size'', TInteger None None),
      (''revision'', TInteger None None),
      (''total'', TInteger None None)]"

definition schema_ListInstancesRequest :: schema where
  "schema_ListInstancesRequest = TObject
     [(''include_draining'', TBoolean),
      (''metadata'', TMap TString),
      (''page'', TInteger (Some 1) None),
      (''page_size'', TInteger (Some 1) (Some 100)),
      (''service_name'', TString)]"

definition schema_ListServicesBody :: schema where
  "schema_ListServicesBody = TObject
     [(''page'', TInteger None None),
      (''page_size'', TInteger None None),
      (''revision'', TInteger None None),
      (''services'', TArray (Ref ''httptransport.ServiceSummaryBody'')),
      (''total'', TInteger None None)]"

definition schema_ListServicesRequest :: schema where
  "schema_ListServicesRequest = TObject
     [(''page'', TInteger (Some 1) None),
      (''page_size'', TInteger (Some 1) (Some 100)),
      (''prefix'', TString)]"

definition schema_MeResponseBody :: schema where
  "schema_MeResponseBody = TObject
     [(''subject'', TString)]"

definition schema_Response :: schema where
  "schema_Response = TObject
     [(''body'', AnyValue),
      (''code'', TInteger None None),
      (''message'', TString),
      (''request_id'', TString)]"

definition schema_ServiceSummaryBody :: schema where
  "schema_ServiceSummaryBody = TObject
     [(''draining_instances'', TInteger None None),
      (''healthy_instances'', TInteger None None),
      (''service_name'', TString)]"

section \<open>The document\<close>

text \<open>The exported variables of a document; \<open>docTemplate\<close> is filled in with them.\<close>

record swag_Spec =
  sw_Version :: string
  sw_Host :: string
  sw_BasePath :: string
  sw_Schemes :: "string list"
  sw_Title :: string
  sw_Description :: string
  sw_InfoInstanceName :: string

definition doc_paths :: "(string \<times> (string \<times> operation) list) list" where
  "doc_paths =
     [(''/api/v1/me'', [(''post'', doc_me)]),
      (''/api/v1/registry/instances/list'', [(''post'', doc_registry_instances_list)]),
      (''/api/v1/registry/services/list'', [(''post'', doc_registry_services_list)]),
      (''/api/v1/version'', [(''post'', doc_version)]),
      (''/live'', [(''post'', doc_live)]),
      (''/ready'', [(''post'', doc_ready)])]"

definition doc_definitions :: "(string \<times> schema) list" where
  "doc_definitions =
     [(''buildinfo.Info'', schema_Info),
      (''health.Dependency'', schema_Dependency),
      (''health.Status'', schema_Status),
      (''httptransport.InstanceBody'', schema_InstanceBody),
      (''httptransport.ListInstancesBody'', schema_ListInstancesBody),
      (''httptransport.ListInstancesRequest'', schema_ListInstancesRequest),
      (''httptransport.ListServicesBody'', schema_ListServicesBody),
      (''httptransport.ListServicesRequest'', schema_ListServicesRequest),
      (''httptransport.MeResponseBody'', schema_MeResponseBody),
      (''httptransport.Response'', schema_Response),
      (''httptransport.ServiceSummaryBody'', schema_ServiceSummaryBody)]"

definition doc_security :: "(string \<times> security_definition) list" where
  "doc_security =
     [(''Bearer'', \<lparr>sec_description = ''Enter '' @ [CHR 0x22] @ ''Bearer {JWT}'' @ [CHR 0x22] @ ''.'', sec_type = ''apiKey'',
        sec_name = ''Authorization'', sec_in = ''header''\<rparr>),
      (''PSK'', \<lparr>sec_description = ''Enter '' @ [CHR 0x22] @ ''PSK {shared-key}'' @ [CHR 0x22] @
          '' for routes configured with PSK authentication.'', sec_type = ''apiKey'',
        sec_name = ''Authorization'', sec_in = ''header''\<rparr>)]"

definition docTemplate :: "swag_Spec \<Rightarrow> swagger_doc" where
  "docTemplate spec =
     \<lparr>sd_schemes = sw_Schemes spec, sd_swagger = ''2.0'', sd_description = sw_Description spec, sd_title = sw_Title spec,
      sd_version = sw_Version spec, sd_host = sw_Host spec, sd_basePath = sw_BasePath spec,
      sd_paths = doc_paths, sd_definitions = doc_definitions, sd_securityDefinitions = doc_security\<rparr>"

definition SwaggerInfo :: swag_Spec where
  "SwaggerInfo =
     \<lparr>sw_Version = ''1.0'', sw_Host = [], sw_BasePath = ''/'', sw_Schemes = [''http'', ''https''], sw_Title = ''Go API Template'',
      sw_Description = ''Production-oriented Go Web API scaffold. Application error codes: 0 success; 10000-19999 common/input; 20000-29999 authentication/authorization; 30000-39999 business; 50000-59999 infrastructure.'',
      sw_InfoInstanceName = ''swagger''\<rparr>"

text \<open>\<open>init\<close> registers the document with the library under its instance name.\<close>

definition docs_init :: "(string \<Rightarrow> swag_Spec \<Rightarrow> 'r \<Rightarrow> 'r) \<Rightarrow> 'r \<Rightarrow> 'r" where
  "docs_init Register = Register (sw_InfoInstanceName SwaggerInfo) SwaggerInfo"

text \<open>\<open>NewServer\<close> puts the version of the build into the document before it serves it.\<close>

definition served_doc :: "'s http_env \<Rightarrow> Config \<Rightarrow> swagger_doc option" where
  "served_doc E cfg =
     (if swagger_Enabled (cfg_Swagger cfg) then Some (docTemplate (SwaggerInfo\<lparr>sw_Version := bv_Version (he_build E)\<rparr>)) else None)"

section \<open>The JSON of responses\<close>

text \<open>
  How \<open>encoding/json\<close> prints a time (in the zone of the process), and whether the empty metadata of
  an instance is the nil map, which is printed as \<open>null\<close>.
\<close>

record json_env =
  je_time :: "instant \<Rightarrow> string"
  je_nil :: "InstanceBody \<Rightarrow> bool"

definition map_json :: "('a \<Rightarrow> json) \<Rightarrow> (string, 'a) fmap \<Rightarrow> json" where
  "map_json f m = JObj (map (\<lambda>k. (k, f (the (fmlookup m k)))) (sorted_list_of_fset (fmdom m)))"

definition omitempty :: "string \<Rightarrow> string \<Rightarrow> (string \<times> json) list" where
  "omitempty name v = (if v = [] then [] else [(name, JStr v)])"

definition Dependency_json :: "Dependency \<Rightarrow> json" where
  "Dependency_json d = JObj ([(''status'', JStr (dep_Status d))] @ omitempty ''latency'' (dep_Latency d))"

definition Status_json :: "health_Status \<Rightarrow> json" where
  "Status_json s =
     JObj ([(''status'', JStr (hs_Status s))] @
       (if hs_Dependencies s = fmempty then [] else [(''dependencies'', map_json Dependency_json (hs_Dependencies s))]))"

definition Info_json :: "json_env \<Rightarrow> Info \<Rightarrow> json" where
  "Info_json J i =
     JObj [(''version'', JStr (bi_Version i)), (''commit'', JStr (bi_Commit i)), (''build_time'', JStr (bi_BuildTime i)),
       (''started_at'', JStr (je_time J (bi_StartedAt i))), (''uptime'', JStr (bi_Uptime i))]"

definition InstanceBody_json :: "json_env \<Rightarrow> InstanceBody \<Rightarrow> json" where
  "InstanceBody_json J i =
     JObj [(''instance_id'', JStr (ib_InstanceID i)), (''service_name'', JStr (ib_ServiceName i)), (''endpoint'', JStr (ib_Endpoint i)),
       (''protocol'', JStr (ib_Protocol i)), (''status'', JStr (ib_Status i)), (''weight'', JNum (int (ib_Weight i))),
       (''version'', JStr (ib_Version i)),
       (''metadata'', if ib_Metadata i = fmempty \<and> je_nil J i then JNull else map_json JStr (ib_Metadata i)),
       (''lease_expires_at'', JStr (ib_LeaseExpiresAt i))]"

definition ListInstancesBody_json :: "json_env \<Rightarrow> ListInstancesBody \<Rightarrow> json" where
  "ListInstancesBody_json J b =
     JObj [(''instances'', JArr (map (InstanceBody_json J) (lib_Instances b))), (''revision'', JNum (int (lib_Revision b))),
       (''total'', JNum (int (lib_Total b))), (''page'', JNum (lib_Page b)), (''page_size'', JNum (lib_PageSize b))]"

definition ServiceSummaryBody_json :: "ServiceSummaryBody \<Rightarrow> json" where
  "ServiceSummaryBody_json b =
     JObj [(''service_name'', JStr (sb_ServiceName b)), (''healthy_instances'', JNum (int (sb_HealthyInstances b))),
       (''draining_instances'', JNum (int (sb_DrainingInstances b)))]"

definition ListServicesBody_json :: "ListServicesBody \<Rightarrow> json" where
  "ListServicesBody_json b =
     JObj [(''services'', JArr (map ServiceSummaryBody_json (lsb_Services b))), (''revision'', JNum (int (lsb_Revision b))),
       (''total'', JNum (int (lsb_Total b))), (''page'', JNum (lsb_Page b)), (''page_size'', JNum (lsb_PageSize b))]"

text \<open>The subject of \<open>/me\<close> is printed from a map: \<open>null\<close> when nothing set it.\<close>

primrec body_json :: "json_env \<Rightarrow> body \<Rightarrow> json" where
  "body_json J NoBody = JNull"
| "body_json J (StatusBody s) = Status_json s"
| "body_json J (SubjectBody s) = JObj [(''subject'', case s of Some v \<Rightarrow> JStr v | None \<Rightarrow> JNull)]"
| "body_json J (VersionBody i) = Info_json J i"
| "body_json J (InstancesBody b) = ListInstancesBody_json J b"
| "body_json J (ServicesBody b) = ListServicesBody_json b"

definition Response_json :: "json_env \<Rightarrow> Response \<Rightarrow> json" where
  "Response_json J r =
     JObj ([(''code'', JNum (rs_Code r)), (''message'', JStr (rs_Message r)), (''body'', body_json J (rs_Body r))] @
       omitempty ''request_id'' (rs_RequestID r))"

section \<open>The JSON of requests\<close>

text \<open>
  \<open>json.Unmarshal\<close> into the fields of a struct: a key is matched without regard to case, unknown
  keys are skipped, \<open>null\<close> leaves a field as it is (and makes a map nil), a later value of a field
  replaces an earlier one (and is merged into a map). \<open>None\<close> is the error of a value of the wrong type.
\<close>

definition json_string :: "json \<Rightarrow> string \<Rightarrow> string option" where
  "json_string v old = (case v of JStr s \<Rightarrow> Some s | JNull \<Rightarrow> Some old | _ \<Rightarrow> None)"

definition json_bool :: "json \<Rightarrow> bool \<Rightarrow> bool option" where
  "json_bool v old = (case v of JBool b \<Rightarrow> Some b | JNull \<Rightarrow> Some old | _ \<Rightarrow> None)"

definition json_int :: "json \<Rightarrow> int \<Rightarrow> int option" where
  "json_int v old =
     (case v of JNum i \<Rightarrow> if - (2 ^ 63) \<le> i \<and> i < 2 ^ 63 then Some i else None | JNull \<Rightarrow> Some old | _ \<Rightarrow> None)"

fun json_entries :: "(string \<times> json) list \<Rightarrow> (string, string) fmap \<Rightarrow> (string, string) fmap option" where
  "json_entries [] m = Some m"
| "json_entries ((k, v) # fs) m = Option.bind (json_string v []) (\<lambda>s. json_entries fs (fmupd k s m))"

definition json_map :: "json \<Rightarrow> (string, string) fmap \<Rightarrow> (string, string) fmap option" where
  "json_map v old = (case v of JObj fs \<Rightarrow> json_entries fs old | JNull \<Rightarrow> Some fmempty | _ \<Rightarrow> None)"

fun json_fields :: "(string \<Rightarrow> json \<Rightarrow> 'r \<Rightarrow> 'r option) \<Rightarrow> (string \<times> json) list \<Rightarrow> 'r \<Rightarrow> 'r option" where
  "json_fields field [] r = Some r"
| "json_fields field ((k, v) # fs) r = Option.bind (field k v r) (json_fields field fs)"

definition json_struct :: "(string \<Rightarrow> json \<Rightarrow> 'r \<Rightarrow> 'r option) \<Rightarrow> 'r \<Rightarrow> json \<Rightarrow> 'r option" where
  "json_struct field zero j = (case j of JObj fs \<Rightarrow> json_fields field fs zero | JNull \<Rightarrow> Some zero | _ \<Rightarrow> None)"

definition ListInstancesRequest_field :: "string \<Rightarrow> json \<Rightarrow> http_ListInstancesRequest \<Rightarrow> http_ListInstancesRequest option" where
  "ListInstancesRequest_field k v r =
     (if strings_EqualFold k ''service_name'' then map_option (\<lambda>x. r\<lparr>hli_ServiceName := x\<rparr>) (json_string v (hli_ServiceName r))
      else if strings_EqualFold k ''metadata'' then map_option (\<lambda>x. r\<lparr>hli_Metadata := x\<rparr>) (json_map v (hli_Metadata r))
      else if strings_EqualFold k ''include_draining''
      then map_option (\<lambda>x. r\<lparr>hli_IncludeDraining := x\<rparr>) (json_bool v (hli_IncludeDraining r))
      else if strings_EqualFold k ''page'' then map_option (\<lambda>x. r\<lparr>hli_Page := x\<rparr>) (json_int v (hli_Page r))
      else if strings_EqualFold k ''page_size'' then map_option (\<lambda>x. r\<lparr>hli_PageSize := x\<rparr>) (json_int v (hli_PageSize r))
      else Some r)"

definition ListInstancesRequest_read :: "json \<Rightarrow> http_ListInstancesRequest option" where
  "ListInstancesRequest_read =
     json_struct ListInstancesRequest_field
       \<lparr>hli_ServiceName = [], hli_Metadata = fmempty, hli_IncludeDraining = False, hli_Page = 0, hli_PageSize = 0\<rparr>"

definition ListServicesRequest_field :: "string \<Rightarrow> json \<Rightarrow> http_ListServicesRequest \<Rightarrow> http_ListServicesRequest option" where
  "ListServicesRequest_field k v r =
     (if strings_EqualFold k ''prefix'' then map_option (\<lambda>x. r\<lparr>hls_Prefix := x\<rparr>) (json_string v (hls_Prefix r))
      else if strings_EqualFold k ''page'' then map_option (\<lambda>x. r\<lparr>hls_Page := x\<rparr>) (json_int v (hls_Page r))
      else if strings_EqualFold k ''page_size'' then map_option (\<lambda>x. r\<lparr>hls_PageSize := x\<rparr>) (json_int v (hls_PageSize r))
      else Some r)"

definition ListServicesRequest_read :: "json \<Rightarrow> http_ListServicesRequest option" where
  "ListServicesRequest_read =
     json_struct ListServicesRequest_field \<lparr>hls_Prefix = [], hls_Page = 0, hls_PageSize = 0\<rparr>"

end
