(* ===== verification/HttpPipeline.thy ===== *)
theory HttpPipeline
  imports HttpRoutes
begin

text \<open>
  What every middleware of the HTTP interface respects, stated once. A pipeline is a condition on
  the context on the way in (\<open>Pre\<close>) and one on the way out (\<open>Post\<close>); the locale says which
  changes must keep them, and proves that every middleware and every handler of the service takes
  steps that lead from one to the other to such steps again. The instances are the facts about
  responses: security headers, request identifiers, exactly one answer, allowed origins, refusals.
\<close>

section \<open>Refusals and answers\<close>

text \<open>
  The statuses of error answers with the application code each carries: those the chain in front of
  every route gives, and all of them.
\<close>

definition chain_codes :: "(int \<times> int) set" where
  "chain_codes = {(400, CodeInvalidArgument), (403, CodeForbidden), (415, CodeInvalidArgument), (500, CodeInternal),
     (504, CodeRequestTimeout)}"

definition error_codes :: "(int \<times> int) set" where
  "error_codes = chain_codes \<union> {(401, CodeUnauthorized), (429, CodeTooManyRequests), (503, CodeDependencyUnavailable)}"

text \<open>What a middleware may answer instead of passing a request on: never a success and never data.\<close>

definition refusal_in :: "(int \<times> int) set \<Rightarrow> int \<times> Response option \<Rightarrow> bool" where
  "refusal_in S x \<longleftrightarrow>
     (case x of
        (status, None) \<Rightarrow> status = 204 \<or> status = 401
      | (status, Some r) \<Rightarrow> (status, rs_Code r) \<in> S \<and> rs_Body r = NoBody)"

definition refusal :: "int \<times> Response option \<Rightarrow> bool" where
  "refusal = refusal_in error_codes"

definition names_request :: "'s gin \<Rightarrow> int \<times> Response option \<Rightarrow> bool" where
  "names_request c x \<longleftrightarrow> (case snd x of None \<Rightarrow> True | Some r \<Rightarrow> rs_RequestID r = requestID c)"

definition answered :: "int \<times> Response option \<Rightarrow> 's step" where
  "answered x c = c\<lparr>g_written := g_written c @ [x], g_aborted := True\<rparr>"

definition fail_response :: "http_err \<Rightarrow> 's gin \<Rightarrow> int \<times> Response option" where
  "fail_response err c =
     (let e = (case err of AppErr e \<Rightarrow> e | OtherErr text \<Rightarrow> apperror_Internal text)
      in (ae_HTTPStatus e, Some \<lparr>rs_Code = ae_Code e, rs_Message = ae_Message e, rs_Body = NoBody, rs_RequestID = requestID c\<rparr>))"

lemma Fail_answered: "Fail err c = answered (fail_response err c) c"
  by (simp add: Fail_def fail_response_def answered_def AbortWithStatusJSON_def gin_JSON_def Let_def)

lemma Abort_answered:
  "AbortWithStatusJSON status r c = answered (status, Some r) c" "AbortWithStatus status c = answered (status, None) c"
  by (simp_all add: answered_def AbortWithStatusJSON_def AbortWithStatus_def gin_JSON_def)

lemma refusal_simps [simp]:
  "refusal_in S (st, None) \<longleftrightarrow> st = 204 \<or> st = 401"
  "refusal_in S (st, Some r) \<longleftrightarrow> (st, rs_Code r) \<in> S \<and> rs_Body r = NoBody"
  by (simp_all add: refusal_in_def)

lemma chain_codes_error [simp]: "chain_codes \<subseteq> error_codes" "x \<in> chain_codes \<Longrightarrow> x \<in> error_codes"
  by (auto simp: error_codes_def)

text \<open>No error answer has the status or the code of a success.\<close>

lemma error_codes_fail: "(st, code) \<in> error_codes \<Longrightarrow> 400 \<le> st \<and> code \<noteq> CodeOK"
  by (auto simp: error_codes_def chain_codes_def code_defs)

lemma names_request_simps [simp]:
  "names_request c (st, None)" "names_request c (st, Some r) \<longleftrightarrow> rs_RequestID r = requestID c"
  by (simp_all add: names_request_def)

lemma fail_names [simp]: "names_request c (fail_response err c)"
  by (simp add: fail_response_def Let_def)

text \<open>An application error with an expected status and code.\<close>

definition proper :: "(int \<times> int) set \<Rightarrow> http_err \<Rightarrow> bool" where
  "proper S err \<longleftrightarrow> (case err of AppErr e \<Rightarrow> (ae_HTTPStatus e, ae_Code e) \<in> S | OtherErr _ \<Rightarrow> (500, CodeInternal) \<in> S)"

lemma proper_refusal: "proper S err \<Longrightarrow> refusal_in S (fail_response err c)"
  by (cases err) (simp_all add: proper_def fail_response_def Let_def apperror_defs)

lemma proper_chain:
  assumes "chain_codes \<subseteq> S"
  shows "proper S (AppErr (apperror_Invalid m e))" "proper S (AppErr (apperror_Forbidden m))"
    "proper S (AppErr apperror_RequestTimeout)" "proper S (OtherErr t)"
  using assms by (auto simp: proper_def apperror_defs chain_codes_def)

lemma proper_all:
  assumes "error_codes \<subseteq> S"
  shows "proper S (AppErr (apperror_Unauthorized m))" "proper S (AppErr apperror_TooManyRequests)"
    "proper S (AppErr (apperror_Unavailable m e))"
  using assms by (auto simp: proper_def apperror_defs error_codes_def)

section \<open>Pipelines\<close>

text \<open>
  \<open>H\<close> is the set of response headers that may be set on the way, \<open>S\<close> the statuses and codes of
  error answers. A late answer is one that is written after the rest of the chain: on a timeout when
  nothing was written, or after a panic.
\<close>

locale pipeline =
  fixes Pre Post :: "'s gin \<Rightarrow> bool" and H :: "string set" and S :: "(int \<times> int) set"
  assumes pre_header: "Pre c \<Longrightarrow> k \<in> H \<Longrightarrow> Pre (set_Header k v c)"
    and pre_world: "Pre c \<Longrightarrow> Pre (c\<lparr>g_world := w\<rparr>)"
    and pre_ctx: "Pre c \<Longrightarrow> Pre (c\<lparr>g_ctx := x\<rparr>)"
    and pre_key: "Pre c \<Longrightarrow> k \<noteq> ''request_id'' \<Longrightarrow> Pre (gin_Set k t c)"
    and pre_limit: "Pre c \<Longrightarrow> Pre (c\<lparr>g_request := (g_request c)\<lparr>hq_BodyLimit := l\<rparr>\<rparr>)"
    and chain_S: "chain_codes \<subseteq> S"
    and refuse: "Pre c \<Longrightarrow> refusal_in S a \<Longrightarrow> names_request c a \<Longrightarrow> Post (answered a c)"
    and post_counted: "Post c \<Longrightarrow> Post (c\<lparr>g_counted := n\<rparr>)"
    and post_late: "Post c \<Longrightarrow> g_written c = [] \<Longrightarrow> refusal_in S a \<Longrightarrow> names_request c a \<Longrightarrow> Post (answered a c)"
    and post_panic: "Post c \<Longrightarrow> g_panic c \<noteq> None \<Longrightarrow> refusal_in S a \<Longrightarrow> names_request c a \<Longrightarrow> Post (answered a (c\<lparr>g_panic := None\<rparr>))"
begin

definition good :: "('s gin \<Rightarrow> 's gin) \<Rightarrow> bool" where
  "good f \<longleftrightarrow> (\<forall>c. Pre c \<longrightarrow> Post (f c))"

lemma goodI: "(\<And>c. Pre c \<Longrightarrow> Post (f c)) \<Longrightarrow> good f"
  by (simp add: good_def)

lemma goodD: "good f \<Longrightarrow> Pre c \<Longrightarrow> Post (f c)"
  by (simp add: good_def)

lemmas proper_own [simp] = proper_chain [OF chain_S]

lemma own_codes [simp]: "(403, CodeForbidden) \<in> S" "(415, CodeInvalidArgument) \<in> S" "(500, CodeInternal) \<in> S"
  using chain_S by (auto simp: chain_codes_def)

lemma good_Fail: "proper S err \<Longrightarrow> good (Fail err)"
  by (rule goodI) (simp add: Fail_answered refuse proper_refusal)

lemma fail_ok: "Pre c \<Longrightarrow> proper S err \<Longrightarrow> Post (Fail err c)"
  by (rule goodD [OF good_Fail])

lemma good_IdempotencyKey: "''Idempotency-Key'' \<in> H \<Longrightarrow> good nxt \<Longrightarrow> good (IdempotencyKey valid nxt)"
  by (rule goodI) (simp add: IdempotencyKey_def Let_def fail_ok goodD pre_ctx pre_header)

lemma good_Environment: "good nxt \<Longrightarrow> good (Environment profile nxt)"
  by (rule goodI) (simp add: Environment_def Let_def goodD pre_ctx pre_key)

lemma good_HTTPMetrics: "good nxt \<Longrightarrow> good (HTTPMetrics enabled nxt)"
  by (rule goodI) (simp add: HTTPMetrics_def after_next_def Let_def goodD post_counted)

lemma good_RequestLogger:
  assumes "\<And>c l. Post c \<Longrightarrow> Post (c\<lparr>g_logged := l\<rparr>)" and "good nxt"
  shows "good (RequestLogger nxt)"
  using assms by (intro goodI) (simp add: RequestLogger_def after_next_def Let_def goodD)

lemma good_Recovery: "good nxt \<Longrightarrow> good (Recovery nxt)"
  by (rule goodI) (auto simp: Recovery_def Let_def Abort_answered goodD post_panic requestID_def split: option.splits)

lemma good_Timeout: "good nxt \<Longrightarrow> good (Timeout expired nxt)"
  by (rule goodI) (simp add: Timeout_def after_next_def Let_def goodD Fail_answered post_late proper_refusal)

lemma good_RequireJSON: "good nxt \<Longrightarrow> good (RequireJSON parse nxt)"
  by (rule goodI) (simp add: RequireJSON_def Abort_answered refuse goodD)

lemma good_MaxBody: "good nxt \<Longrightarrow> good (MaxBody limit nxt)"
  by (rule goodI) (simp add: MaxBody_def goodD pre_limit)

lemma good_SecurityHeaders:
  assumes "{''X-Content-Type-Options'', ''X-Frame-Options'', ''Referrer-Policy'', ''Content-Security-Policy'', ''Cache-Control'',
      ''Strict-Transport-Security''} \<subseteq> H" and "good nxt"
  shows "good (SecurityHeaders nxt)"
  using assms by (intro goodI) (simp add: SecurityHeaders_def Let_def goodD pre_header)

lemma good_CORS:
  assumes "{''Vary'', ''Access-Control-Allow-Methods'', ''Access-Control-Allow-Headers'', ''Access-Control-Expose-Headers'',
      ''Access-Control-Max-Age''} \<subseteq> H"
    and "\<And>c. Pre c \<Longrightarrow> cors_Enabled cfg \<Longrightarrow> GetHeader c ''Origin'' \<in> set (cors_AllowedOrigins cfg) \<Longrightarrow>
      Pre (set_Header ''Access-Control-Allow-Origin'' (GetHeader c ''Origin'') c)"
    and "good nxt"
  shows "good (CORS cfg nxt)"
proof (rule goodI)
  fix c assume p: "Pre c"
  show "Post (CORS cfg nxt c)"
  proof (cases "cors_Enabled cfg \<and> GetHeader c ''Origin'' \<noteq> '''' \<and> GetHeader c ''Origin'' \<in> set (cors_AllowedOrigins cfg)")
    case True
    then have "Pre (set_Header ''Access-Control-Allow-Origin'' (GetHeader c ''Origin'') c)" using p assms(2) by blast
    then show ?thesis using True assms(1,3) by (simp add: CORS_def Let_def Abort_answered refuse goodD pre_header)
  next
    case False
    then show ?thesis using p assms(3) by (auto simp: CORS_def Let_def Abort_answered refuse goodD)
  qed
qed

lemma good_RateLimit:
  assumes "error_codes \<subseteq> S" and "{''X-RateLimit-Limit'', ''X-RateLimit-Remaining'', ''Retry-After''} \<subseteq> H" and "good nxt"
  shows "good (RateLimit limiter rule dimension rateKey nxt)"
  using assms(2,3) proper_all [OF assms(1)]
  by (intro goodI) (auto simp: RateLimit_def Let_def goodD pre_header pre_world fail_ok split: prod.splits sum.splits)

lemma good_JWT: "error_codes \<subseteq> S \<Longrightarrow> good nxt \<Longrightarrow> good (JWT J now service nxt)"
  by (rule goodI) (auto simp: JWT_def Let_def goodD pre_key pre_ctx fail_ok proper_all split: prod.splits sum.splits)

lemma good_Authentication: "error_codes \<subseteq> S \<Longrightarrow> good nxt \<Longrightarrow> good (Authentication J now service cfg nxt)"
  by (rule goodI) (auto simp: Authentication_def Let_def goodD pre_key pre_ctx fail_ok proper_all intro: goodD [OF good_JWT])

lemma good_Authorization: "error_codes \<subseteq> S \<Longrightarrow> good nxt \<Longrightarrow> good (Authorization enforce enabled nxt)"
  by (rule goodI) (auto simp: Authorization_def goodD fail_ok proper_all split: option.splits enforce_err.splits)

lemma good_pprofAuth: "good nxt \<Longrightarrow> good (pprofAuth expected nxt)"
  by (rule goodI) (auto simp: pprofAuth_def goodD Abort_answered refuse split: prod.splits)

end


section \<open>The chains\<close>

definition rate_headers :: "string set" where
  "rate_headers = {''X-RateLimit-Limit'', ''X-RateLimit-Remaining'', ''Retry-After''}"

definition cors_headers :: "string set" where
  "cors_headers = {''Vary'', ''Access-Control-Allow-Methods'', ''Access-Control-Allow-Headers'', ''Access-Control-Expose-Headers'',
     ''Access-Control-Max-Age''}"

definition security_headers :: "(string \<times> string) list" where
  "security_headers =
     [(''X-Content-Type-Options'', ''nosniff''), (''X-Frame-Options'', ''DENY''), (''Referrer-Policy'', ''no-referrer''),
      (''Content-Security-Policy'', ''default-src 'none'; frame-ancestors 'none'' @ [CHR 0x27]), (''Cache-Control'', ''no-store'')]"

text \<open>The chain from CORS inwards, behind the security headers.\<close>

definition inner_chain :: "'s http_env \<Rightarrow> Config \<Rightarrow> 's world middleware" where
  "inner_chain E cfg nxt =
     CORS (http_CORS (cfg_HTTP cfg))
    (MaxBody (http_MaxBodyBytes (cfg_HTTP cfg))
    (Timeout (he_expired E)
    (RequireJSON (he_ParseMediaType E) nxt)))"

text \<open>Everything behind the access log, and everything behind the request identifier.\<close>

definition behind_log :: "'s http_env \<Rightarrow> Config \<Rightarrow> 's world middleware" where
  "behind_log E cfg nxt =
     Recovery (HTTPMetrics (obs_MetricsEnabled (cfg_Observability cfg)) (SecurityHeaders (inner_chain E cfg nxt)))"

definition behind_id :: "'s http_env \<Rightarrow> Config \<Rightarrow> 's world middleware" where
  "behind_id E cfg nxt =
     IdempotencyKey (he_keyValid E) (Environment (rt_ActiveProfile (cfg_Runtime cfg)) (RequestLogger (behind_log E cfg nxt)))"

definition http_id :: "string \<Rightarrow> 's gin \<Rightarrow> string" where
  "http_id fresh c = (let i = GetHeader c ''X-Request-ID'' in if \<not> requestid_Valid i then fresh else i)"

definition tagged :: "string \<Rightarrow> 's step" where
  "tagged i c =
     (let c = set_Header ''X-Request-ID'' i (gin_Set ''request_id'' i c) in c\<lparr>g_ctx := requestid_WithContext (g_ctx c) i\<rparr>)"

lemma global_chain_inner: "global_chain E cfg nxt c = behind_id E cfg nxt (tagged (http_id (he_fresh E) c) c)"
  by (simp add: global_chain_def behind_id_def behind_log_def inner_chain_def RequestID_def http_id_def tagged_def Let_def)

locale request_pipeline = pipeline Pre Post H S
  for Pre Post :: "'s world gin \<Rightarrow> bool" and H S +
  fixes cfg :: Config
  assumes rate_H: "rate_headers \<subseteq> H" and cors_H: "cors_headers \<subseteq> H"
    and pre_origin: "Pre c \<Longrightarrow> cors_Enabled (http_CORS (cfg_HTTP cfg)) \<Longrightarrow> GetHeader c ''Origin'' \<in> set (cors_AllowedOrigins (http_CORS (cfg_HTTP cfg))) \<Longrightarrow>
      Pre (set_Header ''Access-Control-Allow-Origin'' (GetHeader c ''Origin'') c)"
begin

lemma good_inner: "good nxt \<Longrightarrow> good (inner_chain E cfg nxt)"
  using cors_H pre_origin unfolding inner_chain_def cors_headers_def
  by (intro good_CORS good_MaxBody good_Timeout good_RequireJSON) auto

lemma good_behind_log:
  assumes "insert ''Strict-Transport-Security'' (fst ` set security_headers) \<subseteq> H" and "good nxt"
  shows "good (behind_log E cfg nxt)"
  using assms unfolding behind_log_def security_headers_def
  by (intro good_Recovery good_HTTPMetrics good_SecurityHeaders good_inner) auto

lemma good_behind:
  assumes "insert ''Idempotency-Key'' (insert ''Strict-Transport-Security'' (fst ` set security_headers)) \<subseteq> H" and "good nxt"
    and "\<And>c l. Post c \<Longrightarrow> Post (c\<lparr>g_logged := l\<rparr>)"
  shows "good (behind_id E cfg nxt)"
  using assms unfolding behind_id_def
  by (intro good_IdempotencyKey good_Environment good_RequestLogger good_behind_log) auto

lemma good_api: "error_codes \<subseteq> S \<Longrightarrow> good nxt \<Longrightarrow> good (api_group E cfg service nxt)"
  using rate_H unfolding api_group_def rate_headers_def
  by (intro good_RateLimit good_Authentication good_Authorization)

end

text \<open>With success answers allowed as well, the handlers of the service are steps of the pipeline.\<close>

locale service_pipeline = request_pipeline +
  assumes answer: "Pre c \<Longrightarrow> names_request c a \<Longrightarrow> Post (c\<lparr>g_written := g_written c @ [a]\<rparr>)"
begin

lemma ok_answer: "Pre c \<Longrightarrow> Post (OK b c)"
  by (simp add: OK_def gin_JSON_def answer)

lemma good_own:
  "good (http_Live E)" "good (http_Ready E)" "good Me" "good (http_Version E)" "good (http_ListInstances E)" "good (http_ListServices E)"
proof -
  show "good (http_Live E)" "good Me" "good (http_Version E)"
    by (rule goodI, simp add: http_Live_def Me_def http_Version_def ok_answer)+
  show "good (http_Ready E)"
    by (rule goodI) (simp add: http_Ready_def ok_answer gin_JSON_def answer split: prod.splits)
  show "good (http_ListInstances E)"
    by (rule goodI) (auto simp: http_ListInstances_def ok_answer fail_ok pre_world split: sum.splits prod.splits)
  show "good (http_ListServices E)"
    by (rule goodI) (auto simp: http_ListServices_def ok_answer fail_ok pre_world split: sum.splits prod.splits)
qed

lemma good_routes:
  assumes "\<And>route. good (he_foreign E route)" and "route_handlers E cfg service method route = Some handlers"
    and "error_codes \<subseteq> S"
  shows "good handlers"
proof -
  have api: "good h" if "map_of (api_routes E) route = Some h" for h
    using that good_own by (auto simp: api_routes_def split: if_splits)
  show ?thesis
    using assms(2) good_own good_pprofAuth [OF assms(1)] good_JWT [OF assms(3,1)] assms(1) good_api [OF assms(3) api]
    by (auto simp: route_handlers_def split: if_splits)
qed

end

end
