(* ===== verification/GrpcServerProperties.thy ===== *)
theory GrpcServerProperties
  imports GrpcServer MemPlatform
begin

text \<open>
  Theorems about the gRPC server and authentication, with a small JWT library (tokens are the framed
  texts of their claims and key) that shows the laws of the library can hold.
\<close>

section \<open>A JWT library\<close>

definition date_text :: "instant option \<Rightarrow> string" where
  "date_text d = (case d of None \<Rightarrow> '''' | Some t \<Rightarrow> dec_int t)"

definition date_of_text :: "string \<Rightarrow> instant option" where
  "date_of_text s = (if s = '''' then None else Some (int_of_text s))"

definition claims_texts :: "Claims \<Rightarrow> string list" where
  "claims_texts c = [cl_Issuer c, cl_Subject c, cl_ID c, date_text (cl_IssuedAt c), date_text (cl_NotBefore c), date_text (cl_ExpiresAt c)]"

definition claims_of_texts :: "string list \<Rightarrow> Claims" where
  "claims_of_texts xs = \<lparr>cl_Issuer = xs ! 0, cl_Subject = xs ! 1, cl_ID = xs ! 2,
     cl_IssuedAt = date_of_text (xs ! 3), cl_NotBefore = date_of_text (xs ! 4), cl_ExpiresAt = date_of_text (xs ! 5)\<rparr>"

definition mem_parse :: "string \<Rightarrow> (signing_method \<Rightarrow> string + string) \<Rightarrow> string \<Rightarrow> instant \<Rightarrow> string + (Claims \<times> bool)" where
  "mem_parse raw kf issuer now =
     (let xs = unframe (length raw) raw; c = claims_of_texts xs in
      case kf SigningMethodHS256 of
        Inl e \<Rightarrow> Inl e
      | Inr k \<Rightarrow>
          if length xs \<noteq> 7 \<or> xs ! 6 \<noteq> k then Inl ''token signature is invalid''
          else if cl_Issuer c \<noteq> issuer then Inl ''token has invalid issuer''
          else if \<not> in_period c now then Inl ''token is expired'' else Inr (c, True))"

definition mem_jwt :: jwt_lib where
  "mem_jwt = \<lparr>jwt_NewNumericDate = (\<lambda>t. t div 1000000000 * 1000000000),
     jwt_SignedString = (\<lambda>c k. Inr (frames (claims_texts c @ [k]))),
     jwt_ParseWithClaims = mem_parse\<rparr>"

lemma date_of_date_text [simp]: "date_of_text (date_text d) = d"
  by (cases d) (simp_all add: date_text_def date_of_text_def dec_int_texts)

lemma claims_of_claims_texts [simp]: "claims_of_texts (claims_texts c @ ys) = c"
  by (simp add: claims_of_texts_def claims_texts_def)

lemma mem_jwt_sound: "jwt_sound mem_jwt"
proof -
  have "unframe (length (frames (claims_texts c @ [k]))) (frames (claims_texts c @ [k])) = claims_texts c @ [k]" for c k
    by (rule unframe_frames) (rule length_frames)
  moreover have "length (claims_texts c @ [k]) = 7" "(claims_texts c @ [k]) ! 6 = k" for c k
    by (simp_all add: claims_texts_def)
  ultimately have "mem_parse (frames (claims_texts c @ [k])) kf (cl_Issuer c) now =
      (if in_period c now then Inr (c, True) else Inl ''token is expired'')" if "kf SigningMethodHS256 = Inr k" for c k kf now
    using that by (simp add: mem_parse_def Let_def del: append.simps)
  then show ?thesis by (simp add: jwt_sound_def mem_jwt_def)
qed

definition demo_secret :: string where
  "demo_secret = ''01234567890123456789012345678901''"

definition demo_auth_service :: auth_Service where
  "demo_auth_service = \<lparr>svc_issuer = ''registry'', svc_secret = demo_secret, svc_ttl = 7200000000000,
     svc_clientID = ''client'', svc_clientSecret = ''secret'', svc_verifier = None\<rparr>"

definition demo_auth :: Auth where
  "demo_auth = \<lparr>auth_ClientID = ''client'', auth_ClientSecret = ''secret'', auth_JWKSURL = '''', auth_Issuer = '''', auth_Audience = '''',
     auth_SkipHTTPPaths = [], auth_SkipGRPCMethods = [''/grpc.health.v1.Health/*''],
     auth_PSK = \<lparr>psk_Enabled = True, psk_Key = demo_secret, psk_HTTPPaths = [],
       psk_GRPCMethods = [registry_method ''*'']\<rparr>\<rparr>"

definition no_metadata :: request_ctx where
  "no_metadata = \<lparr>ctx_metadata = (\<lambda>_. []), ctx_requestID = None, ctx_environment = None, ctx_idempotencyKey = None, ctx_principal = None,
     ctx_credential = None\<rparr>"

section \<open>Tokens and keys\<close>

text \<open>
  A token the service issues is accepted as its subject from then on until its life time, cut
  to whole seconds, is over, and refused afterwards. The JWT library is assumed to follow its
  documentation (\<open>jwt_sound\<close>).
\<close>

lemma token_lifetime:
  assumes "jwt_sound J" and "auth_Enabled s" and "svc_verifier s = None" and "now \<le> t"
  shows "\<exists>raw. Issue J s now (Inr b) subject = Inr raw \<and>
    (if t < (now + svc_ttl s) div 1000000000 * 1000000000
     then Verify J s t raw = Inr \<lparr>pr_ID = subject, pr_Type = TypeServiceAccount\<rparr>
     else \<exists>e. Verify J s t raw = Inl e)"
  by (rule issued_token [OF assms, of b subject]) auto

lemma token_lifetime_example:
  "\<exists>raw. Issue mem_jwt demo_auth_service 5 (Inr ''0123456789abcdef'') ''client'' = Inr raw \<and>
     Verify mem_jwt demo_auth_service 3600000000000 raw = Inr \<lparr>pr_ID = ''client'', pr_Type = TypeServiceAccount\<rparr>"
  using token_lifetime [OF mem_jwt_sound, of demo_auth_service 5 3600000000000 "''0123456789abcdef''" "''client''"]
  by (simp add: demo_auth_service_def auth_Enabled_def demo_secret_def)

text \<open>
  The pre-shared key is accepted exactly from a header that is the scheme PSK, in any case, one
  blank and the whole key; an empty key is never accepted.
\<close>

lemma psk_exact:
  "VerifyPSK header key \<longleftrightarrow>
     key \<noteq> '''' \<and> (\<exists>scheme. header = scheme @ CHR '' '' # key \<and> CHR '' '' \<notin> set scheme \<and> strings_EqualFold scheme ''PSK'')"
  by (rule VerifyPSK_iff)

section \<open>Who gets in\<close>

text \<open>The credentials of a request that is not on the list of open methods.\<close>

definition bearer_identity :: "jwt_lib \<Rightarrow> instant \<Rightarrow> auth_Service \<Rightarrow> string list \<Rightarrow> Principal \<Rightarrow> bool" where
  "bearer_identity J now service vals identity \<longleftrightarrow>
     (\<exists>scheme raw rest. vals = (scheme @ CHR '' '' # raw) # rest \<and> CHR '' '' \<notin> set scheme \<and>
        strings_EqualFold scheme ''Bearer'' \<and> Verify J service now raw = Inr identity)"

definition psk_given :: "PSK \<Rightarrow> string list \<Rightarrow> bool" where
  "psk_given psk vals \<longleftrightarrow> (\<exists>header rest. vals = header # rest \<and> VerifyPSK header (psk_Key psk))"

lemma bearer_cut:
  "(case strings_Cut h (CHR '' '') of (scheme, raw, ok) \<Rightarrow>
      if ok \<longrightarrow> \<not> strings_EqualFold scheme ''Bearer'' then Inl e
      else (case Verify J service now raw of Inl err \<Rightarrow> Inl e' | Inr identity \<Rightarrow> Inr (f identity))) = Inr x \<longleftrightarrow>
   (\<exists>identity. bearer_identity J now service (h # rest) identity \<and> x = f identity)"
proof -
  obtain scheme raw ok where c: "strings_Cut h (CHR '' '') = (scheme, raw, ok)" by (cases "strings_Cut h (CHR '' '')") auto
  have cut: "h = scheme' @ CHR '' '' # raw' \<and> CHR '' '' \<notin> set scheme' \<longleftrightarrow> ok \<and> scheme' = scheme \<and> raw' = raw" for scheme' raw'
    using strings_Cut_found [of "CHR '' ''" scheme' raw'] strings_Cut_sound [of h "CHR '' ''" scheme raw] c by auto
  have "bearer_identity J now service (h # rest) identity \<longleftrightarrow>
      (\<exists>scheme' raw'. (h = scheme' @ CHR '' '' # raw' \<and> CHR '' '' \<notin> set scheme') \<and>
        strings_EqualFold scheme' ''Bearer'' \<and> Verify J service now raw' = Inr identity)" for identity
    by (auto simp: bearer_identity_def)
  then have "bearer_identity J now service (h # rest) identity \<longleftrightarrow>
      ok \<and> strings_EqualFold scheme ''Bearer'' \<and> Verify J service now raw = Inr identity" for identity
    by (simp only: cut) blast
  then show ?thesis using c by (auto split: sum.splits)
qed

text \<open>
  C29. Authentication lets a call through in exactly three ways: on a method under the pre-shared
  key, with the key; on an open method, as it is; otherwise with a bearer token the service verifies.
  The principal in the new context is the one that was proved.
\<close>

theorem grpc_authentication_exact:
  "authenticateGRPC J now ctx method service cfg = Inr ctx' \<longleftrightarrow>
     (if psk_Enabled (auth_PSK cfg) \<and> MatchesAny method (psk_GRPCMethods (auth_PSK cfg))
      then psk_given (auth_PSK cfg) (ctx_metadata ctx ''authorization'') \<and> ctx' = ctx\<lparr>ctx_principal := Some psk_principal\<rparr>
      else if MatchesAny method (auth_SkipGRPCMethods cfg) then ctx' = ctx
      else \<exists>identity. bearer_identity J now service (ctx_metadata ctx ''authorization'') identity \<and>
        ctx' = ctx\<lparr>ctx_principal := Some identity\<rparr>)"
proof (cases "ctx_metadata ctx ''authorization''")
  case Nil
  then show ?thesis by (auto simp: authenticateGRPC_def psk_given_def bearer_identity_def)
next
  case (Cons h rest)
  then show ?thesis
    by (auto simp: authenticateGRPC_def Let_def psk_given_def bearer_cut [where rest = rest])
qed

lemma authenticate_same_header:
  assumes "ctx_metadata ctx' = ctx_metadata ctx" and "authenticateGRPC J now ctx method service cfg = Inl e"
  shows "authenticateGRPC J now ctx' method service cfg = Inl e"
  using assms by (auto simp: authenticateGRPC_def Let_def split: if_splits prod.splits sum.splits)

section \<open>The chains\<close>

lemmas interceptor_defs = environmentInterceptor_def requestIDInterceptor_def idempotencyInterceptor_def
  recoveryInterceptor_def authInterceptor_def environmentStreamInterceptor_def requestIDStreamInterceptor_def
  idempotencyStreamInterceptor_def recoveryStreamInterceptor_def authStreamInterceptor_def
  environment_WithContext_def requestid_WithContext_def SetHeader_def Let_def

text \<open>
  C30. A call that authentication refuses stops there, whatever the handler, the authorization and
  the idempotency interceptors would do: it fails, nothing behind the handlers changes and nothing is
  counted. The same holds for streams.
\<close>

theorem refused_call_has_no_effect:
  assumes "authenticateGRPC (ce_jwt E) (ce_now E) ctx method service (cfg_Auth cfg) = Inl e"
    and "chain = unary_chain \<or> chain = stream_chain"
  shows "\<exists>err s'. (\<forall>handler. chain E cfg service method handler ctx s = (Failure err, s')) \<and>
    sv_world s' = sv_world s \<and> sv_requests s' = sv_requests s"
proof -
  have auth: "authenticateGRPC (ce_jwt E) (ce_now E) ctx' method service (cfg_Auth cfg) = Inl e"
    if "ctx_metadata ctx' = ctx_metadata ctx" for ctx'
    using authenticate_same_header [OF that assms(1)] .
  show ?thesis
    using assms(2)
  proof
    assume c: "chain = unary_chain"
    show ?thesis unfolding c unary_chain_def interceptor_defs
      by (cases "ce_accepts E"; cases "ctx_metadata ctx ''idempotency-key'' = []";
          cases "ce_keyValid E (ctx_metadata ctx ''idempotency-key'' ! 0)"; simp add: auth)
  next
    assume c: "chain = stream_chain"
    show ?thesis unfolding c stream_chain_def interceptor_defs
      by (cases "ce_accepts E"; cases "ctx_metadata ctx ''idempotency-key'' = []";
          cases "ce_keyValid E (ctx_metadata ctx ''idempotency-key'' ! 0)"; simp add: auth)
  qed
qed

definition demo_env :: "(unit, nat) call_env" where
  "demo_env = \<lparr>ce_jwt = mem_jwt, ce_now = 0, ce_fresh = ''fresh'', ce_accepts = True, ce_keyValid = (\<lambda>k. True),
     ce_authz = (\<lambda>r m h. h), ce_idempotency = (\<lambda>ps m h. h)\<rparr>"

theorem refused_call_has_no_effect_witness:
  "\<exists>cfg err s'. cfg_Auth cfg = demo_auth \<and>
     (\<forall>handler. unary_chain demo_env cfg demo_auth_service (registry_method ''RegisterInstance'') handler no_metadata
        \<lparr>sv_world = (), sv_header = [], sv_requests = []\<rparr> = (Failure err, s'))"
proof -
  obtain cfg :: Config where c: "cfg_Auth cfg = demo_auth"
    by (metis Config.select_convs(13))
  have "MatchesAny (registry_method ''RegisterInstance'') [registry_method ''*'']"
    using path_Match_wildcard [of "registry_method ''''" "registry_method ''RegisterInstance''"]
    by (simp add: registry_method_def literal_def)
  then have "authenticateGRPC mem_jwt 0 no_metadata (registry_method ''RegisterInstance'') demo_auth_service (cfg_Auth cfg) =
      Inl (Status Unauthenticated ''missing or invalid PSK'')"
    unfolding authenticateGRPC_def c by (simp add: demo_auth_def no_metadata_def del: MatchesAny.simps)
  then show ?thesis
    using refused_call_has_no_effect [of demo_env no_metadata "registry_method ''RegisterInstance''" demo_auth_service cfg
        "Status Unauthenticated ''missing or invalid PSK''" unary_chain "\<lparr>sv_world = (), sv_header = [], sv_requests = []\<rparr>"] c
    by (auto simp: demo_env_def)
qed

lemma recovery_no_panic:
  "fst (recoveryInterceptor m h c t) \<noteq> Panic p" "fst (recoveryStreamInterceptor m h c t) \<noteq> Panic p"
  by (auto simp: recoveryInterceptor_def recoveryStreamInterceptor_def split: prod.splits outcome.splits)

text \<open>
  No call ends in a panic: whatever the handler, authorization and idempotency do, a panic is
  answered as an internal error without its text.
\<close>

lemma panics_contained:
  "fst (unary_chain E cfg service method handler ctx s) \<noteq> Panic p \<and>
   fst (stream_chain E cfg service method handler ctx s) \<noteq> Panic p"
  by (simp add: unary_chain_def stream_chain_def environmentInterceptor_def requestIDInterceptor_def
      idempotencyInterceptor_def environmentStreamInterceptor_def requestIDStreamInterceptor_def
      idempotencyStreamInterceptor_def recovery_no_panic Let_def)

text \<open>
  Every request gets a valid identifier of at most 128 letters, digits, dashes, underscores and
  dots: the client's own when it is valid, a fresh one otherwise. The handler sees it and, when the
  transport takes headers, so does the client.
\<close>

lemma request_id_valid:
  assumes "\<And>v. rnd = Some v \<Longrightarrow> length v = 16" and "\<bar>nanos\<bar> < 2 ^ 63"
  shows "\<exists>i. requestid_Valid i \<and> list_all id_char i \<and> length i \<le> 128 \<and>
    (\<forall>v rest. ctx_metadata ctx ''x-request-id'' = v # rest \<and> requestid_Valid v \<longrightarrow> i = v) \<and>
    requestIDInterceptor (requestid_Generate rnd nanos) True method handler ctx s =
      handler (ctx\<lparr>ctx_requestID := Some i\<rparr>) (s\<lparr>sv_header := sv_header s @ [(''x-request-id'', i)]\<rparr>)"
proof -
  let ?i = "chosen_id (requestid_Generate rnd nanos) ctx"
  have "requestid_Valid (requestid_Generate rnd nanos)" using assms by (intro Generate_valid) simp_all
  then have "requestid_Valid ?i" by (simp add: chosen_id_def Let_def)
  moreover have "ctx_metadata ctx ''x-request-id'' = v # rest \<and> requestid_Valid v \<longrightarrow> ?i = v" for v rest
    by (auto simp: chosen_id_def Let_def requestid_Valid_def)
  ultimately show ?thesis
    by (intro exI [of _ ?i]) (simp add: Valid_iff requestIDInterceptor_def requestid_WithContext_def SetHeader_def Let_def)
qed

lemma request_id_valid_example:
  "\<exists>i. requestid_Valid i \<and>
     requestIDInterceptor (requestid_Generate None 7) True '''' (\<lambda>ctx s. (Reply (ctx_requestID ctx), s)) no_metadata
       \<lparr>sv_world = (), sv_header = [], sv_requests = []\<rparr> =
     (Reply (Some i), \<lparr>sv_world = (), sv_header = [(''x-request-id'', i)], sv_requests = []\<rparr>)"
  using request_id_valid [of None 7 no_metadata "''''" "\<lambda>ctx s. (Reply (ctx_requestID ctx), s)"
      "\<lparr>sv_world = (), sv_header = [], sv_requests = []\<rparr>"] by auto

text \<open>
  With authorization enabled every method of the registry needs a permission of its own, no
  two methods share one, and no other method needs one.
\<close>

lemma registry_requirements:
  "dom (registryGRPCRequirement True) = registry_method ` {''RegisterInstance'', ''RenewLease'', ''DeregisterInstance'',
     ''SetInstanceStatus'', ''GetInstance'', ''ListInstances'', ''ListServices'', ''WatchService''} \<and>
   inj_on (registryGRPCRequirement True) (dom (registryGRPCRequirement True)) \<and>
   registryGRPCRequirement False method = None"
proof -
  have r: "registryGRPCRequirement True = map_of grpc_requirements" by (simp add: registryGRPCRequirement_def fun_eq_iff)
  have d: "dom (map_of grpc_requirements) = fst ` set grpc_requirements" by (rule dom_map_of_conv_image_fst)
  have keys: "distinct (map fst grpc_requirements)" by (simp add: grpc_requirements_def registry_method_def)
  have vals: "distinct (map snd grpc_requirements)" by (simp add: grpc_requirements_def)
  have "inj_on (map_of grpc_requirements) (fst ` set grpc_requirements)"
  proof (rule inj_onI, clarsimp)
    fix m v m' v'
    assume a: "(m, v) \<in> set grpc_requirements" "(m', v') \<in> set grpc_requirements"
      "map_of grpc_requirements m = map_of grpc_requirements m'"
    then have "v = v'" using keys by (metis map_of_is_SomeI option.inject)
    then show "m = m'" using a(1,2) vals by (metis distinct_map inj_onD prod.sel(1) prod.sel(2))
  qed
  then show ?thesis
    by (simp add: r d registryGRPCRequirement_def) (simp add: grpc_requirements_def)
qed

end
