(* ===== verification/ConfigProperties.thy ===== *)
theory ConfigProperties
  imports ConfigLoad
begin

text \<open>
  Theorems about the configuration. The defaults are decoded by the \<open>mapstructure\<close> tags of the
  structs (\<open>decode_Config\<close>), with durations written as whole numbers and a unit, to show that they
  are accepted; an in-memory configuration library, which keeps the settings as a list, shows that
  the hypotheses about the library can hold.
\<close>

section \<open>Decoding by tags\<close>

type_synonym settings = "string \<Rightarrow> setting option"

definition unit_ns :: "string \<Rightarrow> int option" where
  "unit_ns u = map_of [(''ns'', 1), (''us'', 1000), (''ms'', 1000000), (''s'', 1000000000), (''m'', 60000000000), (''h'', 3600000000000)] u"

text \<open>\<open>time.ParseDuration\<close> on one whole number with a unit.\<close>

definition ParseDuration :: "string \<Rightarrow> duration option" where
  "ParseDuration s =
     (case (dec_val (takeWhile is_digit s), unit_ns (dropWhile is_digit s)) of
        (Some n, Some u) \<Rightarrow> if takeWhile is_digit s = '''' \<or> 2 ^ 63 \<le> int n * u then None else Some (int n * u)
      | _ \<Rightarrow> None)"

definition str_at :: "settings \<Rightarrow> string \<Rightarrow> string" where
  "str_at m k = (case m k of Some (VStr s) \<Rightarrow> s | _ \<Rightarrow> '''')"

definition bool_at :: "settings \<Rightarrow> string \<Rightarrow> bool" where
  "bool_at m k = (case m k of Some (VBool b) \<Rightarrow> b | _ \<Rightarrow> False)"

definition int_at :: "settings \<Rightarrow> string \<Rightarrow> int" where
  "int_at m k = (case m k of Some (VInt i) \<Rightarrow> i | _ \<Rightarrow> 0)"

definition float_at :: "settings \<Rightarrow> string \<Rightarrow> float64" where
  "float_at m k = (case m k of Some (VFloat f) \<Rightarrow> f | _ \<Rightarrow> Finite 0)"

definition strs_at :: "settings \<Rightarrow> string \<Rightarrow> string list" where
  "strs_at m k = (case m k of Some (VStrs ss) \<Rightarrow> ss | Some (VStr s) \<Rightarrow> stringToStringSlice s | _ \<Rightarrow> [])"

definition dur_at :: "settings \<Rightarrow> string \<Rightarrow> duration" where
  "dur_at m k = (case m k of
       Some (VStr s) \<Rightarrow> (case ParseDuration s of Some d \<Rightarrow> d | None \<Rightarrow> 0)
     | Some (VInt i) \<Rightarrow> i | _ \<Rightarrow> 0)"

definition decode_App :: "settings \<Rightarrow> string \<Rightarrow> App" where
  "decode_App m p = \<lparr>
     app_Name = str_at m (p @ ''.name''),
     app_Schema = str_at m (p @ ''.schema''),
     app_Env = str_at m (p @ ''.env''),
     app_ShutdownTimeout = dur_at m (p @ ''.shutdown_timeout'')\<rparr>"

definition decode_CORS :: "settings \<Rightarrow> string \<Rightarrow> CORS" where
  "decode_CORS m p = \<lparr>
     cors_Enabled = bool_at m (p @ ''.enabled''),
     cors_AllowedOrigins = strs_at m (p @ ''.allowed_origins''),
     cors_AllowedHeaders = strs_at m (p @ ''.allowed_headers''),
     cors_ExposedHeaders = strs_at m (p @ ''.exposed_headers''),
     cors_MaxAge = dur_at m (p @ ''.max_age'')\<rparr>"

definition decode_HTTP :: "settings \<Rightarrow> string \<Rightarrow> HTTP" where
  "decode_HTTP m p = \<lparr>
     http_Address = str_at m (p @ ''.address''),
     http_ReadTimeout = dur_at m (p @ ''.read_timeout''),
     http_WriteTimeout = dur_at m (p @ ''.write_timeout''),
     http_IdleTimeout = dur_at m (p @ ''.idle_timeout''),
     http_RequestTimeout = dur_at m (p @ ''.request_timeout''),
     http_MaxBodyBytes = int_at m (p @ ''.max_body_bytes''),
     http_TrustedProxies = strs_at m (p @ ''.trusted_proxies''),
     http_CORS = decode_CORS m (p @ ''.cors'')\<rparr>"

definition decode_GRPCTLS :: "settings \<Rightarrow> string \<Rightarrow> GRPCTLS" where
  "decode_GRPCTLS m p = \<lparr>
     gtls_Enabled = bool_at m (p @ ''.enabled''),
     gtls_CertFile = str_at m (p @ ''.cert_file''),
     gtls_KeyFile = str_at m (p @ ''.key_file''),
     gtls_ClientCAFile = str_at m (p @ ''.client_ca_file'')\<rparr>"

definition decode_GRPC :: "settings \<Rightarrow> string \<Rightarrow> GRPC" where
  "decode_GRPC m p = \<lparr>
     grpc_Enabled = bool_at m (p @ ''.enabled''),
     grpc_Address = str_at m (p @ ''.address''),
     grpc_ReflectionEnabled = bool_at m (p @ ''.reflection_enabled''),
     grpc_MaxReceiveBytes = int_at m (p @ ''.max_receive_bytes''),
     grpc_TLS = decode_GRPCTLS m (p @ ''.tls'')\<rparr>"

definition decode_Log :: "settings \<Rightarrow> string \<Rightarrow> Log" where
  "decode_Log m p = \<lparr>
     log_Level = str_at m (p @ ''.level''),
     log_Format = str_at m (p @ ''.format''),
     log_File = str_at m (p @ ''.file''),
     log_MaxSizeMB = int_at m (p @ ''.max_size_mb''),
     log_MaxBackups = int_at m (p @ ''.max_backups''),
     log_MaxAgeDays = int_at m (p @ ''.max_age_days''),
     log_Compress = bool_at m (p @ ''.compress'')\<rparr>"

definition decode_Database :: "settings \<Rightarrow> string \<Rightarrow> Database" where
  "decode_Database m p = \<lparr>
     db_Enabled = bool_at m (p @ ''.enabled''),
     db_Name = str_at m (p @ ''.name''),
     db_Schema = str_at m (p @ ''.schema''),
     db_Type = str_at m (p @ ''.type''),
     db_DSN = str_at m (p @ ''.dsn''),
     db_MaxOpenConns = int_at m (p @ ''.max_open_conns''),
     db_MaxIdleConns = int_at m (p @ ''.max_idle_conns''),
     db_ConnMaxLifetime = dur_at m (p @ ''.conn_max_lifetime''),
     db_ConnMaxIdleTime = dur_at m (p @ ''.conn_max_idle_time''),
     db_PingTimeout = dur_at m (p @ ''.ping_timeout'')\<rparr>"

definition decode_Redis :: "settings \<Rightarrow> string \<Rightarrow> RedisConfig" where
  "decode_Redis m p = \<lparr>
     redis_Enabled = bool_at m (p @ ''.enabled''),
     redis_Address = str_at m (p @ ''.address''),
     redis_Username = str_at m (p @ ''.username''),
     redis_Password = str_at m (p @ ''.password''),
     redis_DB = int_at m (p @ ''.db''),
     redis_DialTimeout = dur_at m (p @ ''.dial_timeout''),
     redis_ReadTimeout = dur_at m (p @ ''.read_timeout''),
     redis_WriteTimeout = dur_at m (p @ ''.write_timeout'')\<rparr>"

definition decode_Health :: "settings \<Rightarrow> string \<Rightarrow> Health" where
  "decode_Health m p = \<lparr>
     health_DatabaseTimeout = dur_at m (p @ ''.database_timeout''),
     health_RedisTimeout = dur_at m (p @ ''.redis_timeout'')\<rparr>"

definition decode_RateLimitRule :: "settings \<Rightarrow> string \<Rightarrow> RateLimitRule" where
  "decode_RateLimitRule m p = \<lparr>
     rule_Rate = int_at m (p @ ''.rate''),
     rule_Burst = int_at m (p @ ''.burst''),
     rule_Period = dur_at m (p @ ''.period'')\<rparr>"

definition decode_RateLimit :: "settings \<Rightarrow> string \<Rightarrow> RateLimit" where
  "decode_RateLimit m p = \<lparr>
     rl_Enabled = bool_at m (p @ ''.enabled''),
     rl_FailOpen = bool_at m (p @ ''.fail_open''),
     rl_IP = decode_RateLimitRule m (p @ ''.ip''),
     rl_API = decode_RateLimitRule m (p @ ''.api''),
     rl_User = decode_RateLimitRule m (p @ ''.user''),
     rl_Login = decode_RateLimitRule m (p @ ''.login'')\<rparr>"

definition decode_Observability :: "settings \<Rightarrow> string \<Rightarrow> Observability" where
  "decode_Observability m p = \<lparr>
     obs_MetricsEnabled = bool_at m (p @ ''.metrics_enabled''),
     obs_TracingEnabled = bool_at m (p @ ''.tracing_enabled''),
     obs_TracingEndpoint = str_at m (p @ ''.tracing_endpoint''),
     obs_TracingSampleRatio = float_at m (p @ ''.tracing_sample_ratio''),
     obs_PprofEnabled = bool_at m (p @ ''.pprof_enabled''),
     obs_PprofToken = str_at m (p @ ''.pprof_token'')\<rparr>"

definition decode_Swagger :: "settings \<Rightarrow> string \<Rightarrow> Swagger" where
  "decode_Swagger m p = \<lparr>
     swagger_Enabled = bool_at m (p @ ''.enabled''),
     swagger_RequireAuth = bool_at m (p @ ''.require_auth'')\<rparr>"

definition decode_JWT :: "settings \<Rightarrow> string \<Rightarrow> JWT" where
  "decode_JWT m p = \<lparr>
     jwt_Issuer = str_at m (p @ ''.issuer''),
     jwt_Secret = str_at m (p @ ''.secret''),
     jwt_TTL = dur_at m (p @ ''.ttl'')\<rparr>"

definition decode_PSK :: "settings \<Rightarrow> string \<Rightarrow> PSK" where
  "decode_PSK m p = \<lparr>
     psk_Enabled = bool_at m (p @ ''.enabled''),
     psk_Key = str_at m (p @ ''.key''),
     psk_HTTPPaths = strs_at m (p @ ''.http_paths''),
     psk_GRPCMethods = strs_at m (p @ ''.grpc_methods'')\<rparr>"

definition decode_Auth :: "settings \<Rightarrow> string \<Rightarrow> Auth" where
  "decode_Auth m p = \<lparr>
     auth_ClientID = str_at m (p @ ''.client_id''),
     auth_ClientSecret = str_at m (p @ ''.client_secret''),
     auth_JWKSURL = str_at m (p @ ''.jwks_url''),
     auth_Issuer = str_at m (p @ ''.issuer''),
     auth_Audience = str_at m (p @ ''.audience''),
     auth_SkipHTTPPaths = strs_at m (p @ ''.skip_http_paths''),
     auth_SkipGRPCMethods = strs_at m (p @ ''.skip_grpc_methods''),
     auth_PSK = decode_PSK m (p @ ''.psk'')\<rparr>"

definition decode_Authorization :: "settings \<Rightarrow> string \<Rightarrow> Authorization" where
  "decode_Authorization m p = \<lparr>
     authz_Enabled = bool_at m (p @ ''.enabled'')\<rparr>"

definition decode_Cron :: "settings \<Rightarrow> string \<Rightarrow> Cron" where
  "decode_Cron m p = \<lparr>
     cron_Enabled = bool_at m (p @ ''.enabled''),
     cron_Timezone = str_at m (p @ ''.timezone''),
     cron_SampleSpec = str_at m (p @ ''.sample_spec'')\<rparr>"

definition decode_Migration :: "settings \<Rightarrow> string \<Rightarrow> Migration" where
  "decode_Migration m p = \<lparr>
     mig_AutoUp = bool_at m (p @ ''.auto_up''),
     mig_CreateSchema = bool_at m (p @ ''.create_schema''),
     mig_Path = str_at m (p @ ''.path''),
     mig_DatabaseURL = str_at m (p @ ''.database_url''),
     mig_Table = str_at m (p @ ''.table''),
     mig_Schema = '''',
     mig_DatabaseName = ''''\<rparr>"

definition decode_User :: "settings \<Rightarrow> string \<Rightarrow> User" where
  "decode_User m p = \<lparr>
     user_CacheTTL = dur_at m (p @ ''.cache_ttl''),
     user_LockTTL = dur_at m (p @ ''.lock_ttl''),
     user_LockRetryDelay = dur_at m (p @ ''.lock_retry_delay'')\<rparr>"

definition decode_Idempotency :: "settings \<Rightarrow> string \<Rightarrow> Idempotency" where
  "decode_Idempotency m p = \<lparr>
     idem_Enabled = bool_at m (p @ ''.enabled''),
     idem_HTTPPaths = strs_at m (p @ ''.http_paths''),
     idem_GRPCMethods = strs_at m (p @ ''.grpc_methods''),
     idem_ProcessingTTL = dur_at m (p @ ''.processing_ttl''),
     idem_ResultTTL = dur_at m (p @ ''.result_ttl''),
     idem_FailureTTL = dur_at m (p @ ''.failure_ttl'')\<rparr>"

definition decode_EventBus :: "settings \<Rightarrow> string \<Rightarrow> EventBus" where
  "decode_EventBus m p = \<lparr>
     bus_Enabled = bool_at m (p @ ''.enabled''),
     bus_URLs = strs_at m (p @ ''.urls''),
     bus_StreamName = str_at m (p @ ''.stream_name''),
     bus_Subjects = strs_at m (p @ ''.subjects''),
     bus_Storage = str_at m (p @ ''.storage''),
     bus_MaxAge = dur_at m (p @ ''.max_age''),
     bus_DuplicateWindow = dur_at m (p @ ''.duplicate_window''),
     bus_ConnectTimeout = dur_at m (p @ ''.connect_timeout''),
     bus_ReconnectWait = dur_at m (p @ ''.reconnect_wait''),
     bus_PublishTimeout = dur_at m (p @ ''.publish_timeout''),
     bus_ConsumerAckWait = dur_at m (p @ ''.consumer_ack_wait''),
     bus_ConsumerMaxDeliver = int_at m (p @ ''.consumer_max_deliver'')\<rparr>"

definition decode_Config :: "Outbound \<Rightarrow> settings \<Rightarrow> Config" where
  "decode_Config outbound m = \<lparr>
     cfg_Runtime = \<lparr>rt_ActiveProfile = '''', rt_ConfigFiles = []\<rparr>,
     cfg_App = decode_App m ''app'',
     cfg_HTTP = decode_HTTP m ''http'',
     cfg_GRPC = decode_GRPC m ''grpc'',
     cfg_Log = decode_Log m ''log'',
     cfg_Database = decode_Database m ''database'',
     cfg_Redis = decode_Redis m ''redis'',
     cfg_Health = decode_Health m ''health'',
     cfg_RateLimit = decode_RateLimit m ''rate_limit'',
     cfg_Observability = decode_Observability m ''observability'',
     cfg_Swagger = decode_Swagger m ''swagger'',
     cfg_JWT = decode_JWT m ''jwt'',
     cfg_Auth = decode_Auth m ''auth'',
     cfg_Authorization = decode_Authorization m ''authorization'',
     cfg_Cron = decode_Cron m ''cron'',
     cfg_Migration = decode_Migration m ''migration'',
     cfg_User = decode_User m ''user'',
     cfg_Idempotency = decode_Idempotency m ''idempotency'',
     cfg_Outbound = outbound,
     cfg_EventBus = decode_EventBus m ''event_bus''\<rparr>"

definition no_outbound :: Outbound where
  "no_outbound = \<lparr>out_HTTP = fmempty, out_GRPC = fmempty\<rparr>"

definition default_config :: Config where
  "default_config = decode_Config no_outbound (map_of defaults)"

lemma distinct_defaults: "distinct (map fst defaults)"
  by (simp add: defaults_def setRateLimitDefaults_def)

section \<open>The defaults\<close>

lemma default_at: "list_all (\<lambda>(key, v). map_of defaults key = Some v) defaults"
  unfolding list_all_iff using distinct_defaults by (auto intro: map_of_is_SomeI)

lemma default_unset: "map_of defaults ''idempotency.http_paths'' = None" "map_of defaults ''idempotency.grpc_methods'' = None"
  by (simp_all add: map_of_eq_None_iff defaults_def setRateLimitDefaults_def)

lemma default_durations:
  "ParseDuration ''10s'' = Some 10000000000" "ParseDuration ''2s'' = Some 2000000000"
  "ParseDuration ''5m'' = Some 300000000000" "ParseDuration ''100ms'' = Some 100000000"
  "ParseDuration ''30s'' = Some 30000000000" "ParseDuration ''24h'' = Some 86400000000000"
  by code_simp+

lemma default_names:
  "re_match validMigrationTable ''platform''" "re_match validMigrationTable ''service_registry''"
  by code_simp+

lemma default_patterns:
  "http_patterns_ok [''/api/v1/version'']" "method_patterns_ok [''/grpc.health.v1.Health/*'']"
  "http_patterns_ok []" "method_patterns_ok []"
  by code_simp+

lemmas decode_defs = decode_Config_def decode_App_def decode_HTTP_def decode_CORS_def decode_GRPC_def decode_GRPCTLS_def
  decode_Database_def decode_Redis_def decode_Health_def decode_RateLimit_def decode_RateLimitRule_def
  decode_Observability_def decode_Swagger_def decode_JWT_def decode_Auth_def decode_PSK_def decode_Authorization_def
  decode_Migration_def decode_User_def decode_Idempotency_def decode_EventBus_def
  str_at_def bool_at_def int_at_def float_at_def strs_at_def dur_at_def

lemma default_config_ok: "config_ok default_config"
  and default_config_production: "\<not> config_ok (default_config\<lparr>cfg_App := (cfg_App default_config)\<lparr>app_Env := ''production''\<rparr>\<rparr>)"
proof -
  define m where "m = map_of defaults"
  have "list_all (\<lambda>(key, v). m key = Some v) defaults" using default_at by (simp add: m_def)
  note at = this [unfolded defaults_def setRateLimitDefaults_def, simplified] default_unset [folded m_def]
  let ?c = "decode_Config no_outbound m"
  have "listeners_ok ?c" by (simp add: listeners_ok_def decode_defs at default_durations)
  moreover have "storage_ok ?c" by (simp add: storage_ok_def decode_defs at default_durations default_names del: re_match.simps)
  moreover have "dependents_ok ?c"
    by (simp add: dependents_ok_def decode_defs at float_less_def float_greater_def)
  moreover have "bus_ok (cfg_EventBus ?c)" by (simp add: bus_ok_def decode_defs at)
  moreover have "protection_ok ?c" by (simp add: protection_ok_def decode_defs at default_patterns)
  moreover have "clients_ok (cfg_Outbound ?c)" by (simp add: clients_ok_def decode_defs no_outbound_def)
  moreover have "app_Env (cfg_App ?c) \<noteq> ''production''" by (simp add: decode_defs at)
  ultimately show "config_ok default_config" by (simp add: config_ok_def default_config_def m_def)
  have "\<not> production_ok (?c\<lparr>cfg_App := (cfg_App ?c)\<lparr>app_Env := ''production''\<rparr>\<rparr>)"
    by (simp add: production_ok_def decode_defs at)
  then show "\<not> config_ok (default_config\<lparr>cfg_App := (cfg_App default_config)\<lparr>app_Env := ''production''\<rparr>\<rparr>)"
    by (simp add: config_ok_def default_config_def m_def)
qed

section \<open>Theorems\<close>

text \<open>
  C21. Validation accepts exactly the configurations that satisfy \<open>config_ok\<close>, a predicate
  stated by concern. In particular the answer does not depend on the order in which Go visits the
  maps of rate limits and upstreams.
\<close>

theorem config_accepted_iff:
  assumes "\<And>ks. set (visit ks) = set ks"
  shows "Validate visit c = None \<longleftrightarrow> config_ok c"
  using Validate_None [OF assms] .

theorem config_accepted_iff_witness: "Validate rev default_config = None"
  using config_accepted_iff [of rev default_config] default_config_ok by simp



text \<open>
  The defaults alone, without a configuration file or environment variables, are an accepted
  configuration; under the production profile they are refused.
\<close>

lemma defaults_accepted:
  assumes "\<And>ks. set (visit ks) = set ks"
  shows "Validate visit default_config = None \<and>
    Validate visit (default_config\<lparr>cfg_App := (cfg_App default_config)\<lparr>app_Env := ''production''\<rparr>\<rparr>) \<noteq> None"
  using default_config_ok default_config_production Validate_None [OF assms] by blast

lemma defaults_accepted_example: "Validate id default_config = None"
  using defaults_accepted [of id] by simp

section \<open>Loading\<close>

lemma config_ok_app: "config_ok c \<Longrightarrow> app_Env a \<noteq> ''production'' \<Longrightarrow> config_ok (c\<lparr>cfg_App := a\<rparr>)"
  by (simp add: config_ok_def listeners_ok_def storage_ok_def dependents_ok_def protection_ok_def)

lemma config_ok_migration [simp]:
  "config_ok (c\<lparr>cfg_Migration := (cfg_Migration c)\<lparr>mig_Schema := s, mig_DatabaseName := n\<rparr>\<rparr>) \<longleftrightarrow> config_ok c"
  by (simp add: config_ok_def listeners_ok_def storage_ok_def dependents_ok_def protection_ok_def production_ok_def)

text \<open>
  Whatever the files and the environment hold, a configuration that is returned has passed
  validation, its profile is a well-formed lower-case name that is also the value of \<open>app.env\<close>,
  and at most the profile's own file was merged. Blanks and capitals in the requested profile do not
  matter: asking for production always enforces the rules for production. The configuration library
  is assumed to let an explicit value of \<open>app.env\<close> win.
\<close>

lemma load_is_validated:
  assumes "\<And>ks. set (visit ks) = set ks"
    and "\<And>p v c. vp_Unmarshal V stringToStringSlice (vp_Set V ''app.env'' (VStr p) v) = Inr c \<Longrightarrow> app_Env (cfg_App c) = p"
    and "LoadWithProfile visit V path explicitProfile = Inr cfg"
  shows "config_ok cfg \<and> re_match validProfile (rt_ActiveProfile (cfg_Runtime cfg)) \<and>
    app_Env (cfg_App cfg) = rt_ActiveProfile (cfg_Runtime cfg) \<and>
    rt_ConfigFiles (cfg_Runtime cfg) \<in> {[path], [path, profileConfigPath path (rt_ActiveProfile (cfg_Runtime cfg))]} \<and>
    (normalProfile explicitProfile = ''production'' \<longrightarrow> production_ok cfg)"
proof -
  obtain profile files v where l: "finish_load visit V profile files v = Inr cfg" "re_match validProfile profile"
      "normalProfile explicitProfile \<noteq> '''' \<Longrightarrow> profile = normalProfile explicitProfile"
      "files = [path] \<or> files = [path, profileConfigPath path profile]"
    by (rule LoadWithProfileE [OF assms(3)]) blast
  obtain c where f: "vp_Unmarshal V stringToStringSlice (vp_Set V ''app.env'' (VStr profile) v) = Inr c"
      "config_ok cfg" "cfg_App cfg = cfg_App c" "cfg_Runtime cfg = \<lparr>rt_ActiveProfile = profile, rt_ConfigFiles = files\<rparr>"
    by (rule finish_loadE [OF l(1) assms(1)]) blast
  have "app_Env (cfg_App cfg) = profile" using assms(2) [OF f(1)] f(3) by simp
  moreover from this have "production_ok cfg" if "normalProfile explicitProfile = ''production''"
    using f(2) l(3) that by (simp add: config_ok_def)
  ultimately show ?thesis using f l by auto
qed

text \<open>A configuration library whose only source of settings are explicit values over the defaults.\<close>

definition mem_viper :: "(string \<times> setting) list viper" where
  "mem_viper = \<lparr>
     vp_New = [],
     vp_SetConfigFile = (\<lambda>_ v. v),
     vp_SetEnvPrefix = (\<lambda>_ v. v),
     vp_SetEnvKeyReplacer = (\<lambda>_ _ v. v),
     vp_AutomaticEnv = (\<lambda>v. v),
     vp_BindEnv = (\<lambda>_ v. (None, v)),
     vp_SetDefault = (\<lambda>_ _ v. v),
     vp_ReadInConfig = (\<lambda>v. (None, v)),
     vp_GetString = (\<lambda>k v. ''''),
     vp_MergeInConfig = (\<lambda>v. (None, v)),
     vp_Set = (\<lambda>k x v. (k, x) # v),
     vp_Unmarshal = (\<lambda>_ v. Inr (default_config\<lparr>cfg_App := (cfg_App default_config)\<lparr>app_Env := str_at (map_of v) ''app.env''\<rparr>\<rparr>)),
     os_Stat = (\<lambda>_. Absent)\<rparr>"

lemma mem_viper_sel [simp]:
  "vp_New mem_viper = []" "vp_SetConfigFile mem_viper f v = v" "vp_SetEnvPrefix mem_viper f v = v"
  "vp_SetEnvKeyReplacer mem_viper f g v = v" "vp_AutomaticEnv mem_viper v = v" "vp_BindEnv mem_viper ks v = (None, v)"
  "vp_SetDefault mem_viper k x v = v" "vp_ReadInConfig mem_viper v = (None, v)"
  "vp_Set mem_viper k x v = (k, x) # v" "os_Stat mem_viper f = Absent"
  "vp_Unmarshal mem_viper h v = Inr (default_config\<lparr>cfg_App := (cfg_App default_config)\<lparr>app_Env := str_at (map_of v) ''app.env''\<rparr>\<rparr>)"
  by (simp_all add: mem_viper_def)

lemma mem_viper_defaults: "setDefaults mem_viper v = v"
  by (simp add: setDefaults_def fold_invariant [where P = "\<lambda>w. w = v" and Q = "\<lambda>_. True"] split_def)

lemma mem_viper_load: "\<exists>cfg. LoadWithProfile id mem_viper ''config.yaml'' ''Test '' = Inr cfg"
proof -
  let ?c = "default_config\<lparr>cfg_App := (cfg_App default_config)\<lparr>app_Env := ''test''\<rparr>\<rparr>"
  have p: "normalProfile ''Test '' = ''test''" "re_match validProfile ''test''" by code_simp+
  have "Validate id (?c\<lparr>cfg_Migration := (cfg_Migration ?c)\<lparr>mig_Schema := db_Schema (cfg_Database ?c),
      mig_DatabaseName := db_Name (cfg_Database ?c)\<rparr>\<rparr>) = None"
    using Validate_None [of id] config_ok_app [OF default_config_ok]
    by (subst Validate_None) (simp_all only: config_ok_migration id_apply, simp)
  then have "\<exists>cfg. finish_load id mem_viper ''test'' [''config.yaml''] [] = Inr cfg"
    by (simp add: finish_load_def str_at_def Let_def)
  then show ?thesis using p
    by (simp add: LoadWithProfile_def Let_def mem_viper_defaults merge_profile_def del: re_match.simps)
qed

lemma load_is_validated_example:
  "\<exists>cfg. LoadWithProfile id mem_viper ''config.yaml'' ''Test '' = Inr cfg \<and> config_ok cfg \<and>
     app_Env (cfg_App cfg) = rt_ActiveProfile (cfg_Runtime cfg)"
proof -
  obtain cfg where c: "LoadWithProfile id mem_viper ''config.yaml'' ''Test '' = Inr cfg" using mem_viper_load by blast
  show ?thesis using load_is_validated [OF _ _ c] c by (auto simp: str_at_def)
qed

end
