(* ===== verification/HttpProperties.thy ===== *)
theory HttpProperties
  imports HttpPipeline GrpcServerProperties ConfigProperties RegistryServices
begin

text \<open>
  Theorems about the HTTP interface: the instances of the pipeline contract, who gets to the
  handlers under \<open>/api/v1\<close>, and what the listing answers.
\<close>

section \<open>Instances of the pipeline\<close>

definition header_of :: "'s gin \<Rightarrow> string \<Rightarrow> string option" where
  "header_of c k = map_of (g_headers c) k"

lemma map_of_filter_other: "map_of (filter (\<lambda>h. fst h \<noteq> k) hs) k' = (if k' = k then None else map_of hs k')"
  by (induction hs) auto

lemma header_set_Header:
  "header_of (set_Header k v c) k' = (if k' = k then if v = '''' then None else Some v else header_of c k')"
proof -
  have "map_of (filter (\<lambda>h. fst h \<noteq> k) hs) k' = (if k' = k then None else map_of hs k')" for hs :: "(string \<times> string) list"
    by (rule map_of_filter_other)
  then show ?thesis by (auto simp: header_of_def set_Header_def Let_def map_add_def split: option.splits)
qed

lemma header_frame [simp]:
  "header_of (c\<lparr>g_world := w\<rparr>) k = header_of c k" "header_of (c\<lparr>g_ctx := x\<rparr>) k = header_of c k"
  "header_of (c\<lparr>g_request := r\<rparr>) k = header_of c k" "header_of (gin_Set key t c) k = header_of c k"
  "header_of (answered a c) k = header_of c k" "header_of (c\<lparr>g_counted := n\<rparr>) k = header_of c k"
  "header_of (c\<lparr>g_panic := p\<rparr>) k = header_of c k" "header_of (c\<lparr>g_written := ws\<rparr>) k = header_of c k"
  "header_of (c\<lparr>g_logged := l\<rparr>) k = header_of c k"
  by (simp_all add: header_of_def gin_Set_def answered_def)

lemma set_Header_frame [simp]:
  "g_written (set_Header k v c) = g_written c" "g_panic (set_Header k v c) = g_panic c" "g_keys (set_Header k v c) = g_keys c"
  "g_request (set_Header k v c) = g_request c" "g_world (set_Header k v c) = g_world c" "g_logged (set_Header k v c) = g_logged c"
  by (simp_all add: set_Header_def Let_def)

text \<open>Security headers stay.\<close>

definition secured :: "'s gin \<Rightarrow> bool" where
  "secured c \<longleftrightarrow> (\<forall>(k, v) \<in> set security_headers. header_of c k = Some v)"


text \<open>The identifier of the request stays and every envelope names it.\<close>

definition identified :: "string \<Rightarrow> 's gin \<Rightarrow> bool" where
  "identified i c \<longleftrightarrow> g_keys c ''request_id'' = Some i \<and> header_of c ''X-Request-ID'' = Some i \<and>
     (\<forall>(st, r) \<in> set (g_written c). \<forall>e. r = Some e \<longrightarrow> rs_RequestID e = i)"


lemma frames [simp]:
  "g_written (answered a c) = g_written c @ [a]" "g_panic (answered a c) = g_panic c" "g_keys (answered a c) = g_keys c"
  "g_written (gin_Set k v c) = g_written c" "g_panic (gin_Set k v c) = g_panic c" "g_keys (gin_Set k v c) = (g_keys c)(k \<mapsto> v)"
  "g_request (gin_Set k v c) = g_request c" "g_request (answered a c) = g_request c"
  "g_world (gin_Set k v c) = g_world c" "g_world (answered a c) = g_world c"
  "g_logged (gin_Set k v c) = g_logged c" "g_logged (answered a c) = g_logged c"
  by (simp_all add: answered_def gin_Set_def)




definition answered_once :: "'s gin \<Rightarrow> bool" where
  "answered_once c \<longleftrightarrow> length (g_written c) = 1 \<and> g_panic c = None"


text \<open>A request that is not passed on gets exactly one answer, a refusal.\<close>

definition refused_once :: "'s gin \<Rightarrow> bool" where
  "refused_once c \<longleftrightarrow> (\<exists>a. g_written c = [a] \<and> refusal a) \<and> g_panic c = None"


text \<open>Only allowed origins are granted access.\<close>

definition origins_ok :: "CORS \<Rightarrow> string \<Rightarrow> 's gin \<Rightarrow> bool" where
  "origins_ok cors origin c \<longleftrightarrow> GetHeader c ''Origin'' = origin \<and>
     (\<forall>granted. header_of c ''Access-Control-Allow-Origin'' = Some granted \<longrightarrow>
        cors_Enabled cors \<and> granted = origin \<and> origin \<in> set (cors_AllowedOrigins cors))"

lemma GetHeader_frame [simp]:
  "GetHeader (set_Header k v c) n = GetHeader c n" "GetHeader (gin_Set k v c) n = GetHeader c n"
  "GetHeader (answered a c) n = GetHeader c n" "GetHeader (c\<lparr>g_ctx := x\<rparr>) n = GetHeader c n"
  "GetHeader (c\<lparr>g_world := w\<rparr>) n = GetHeader c n" "GetHeader (c\<lparr>g_counted := m\<rparr>) n = GetHeader c n"
  "GetHeader (c\<lparr>g_panic := p\<rparr>) n = GetHeader c n" "GetHeader (c\<lparr>g_written := ws\<rparr>) n = GetHeader c n"
  "GetHeader (c\<lparr>g_logged := ls\<rparr>) n = GetHeader c n"
  "GetHeader (c\<lparr>g_request := (g_request c)\<lparr>hq_BodyLimit := l\<rparr>\<rparr>) n = GetHeader c n"
  "GetHeader (c\<lparr>g_request := (g_request c)\<lparr>hq_Route := t\<rparr>\<rparr>) n = GetHeader c n"
  by (simp_all add: GetHeader_def set_Header_def Let_def gin_Set_def answered_def)


interpretation org: service_pipeline "origins_ok (http_CORS (cfg_HTTP cfg)) origin" "origins_ok (http_CORS (cfg_HTTP cfg)) origin"
    "- {''Access-Control-Allow-Origin''}" error_codes cfg for cfg origin
  by unfold_locales (auto simp: origins_ok_def header_set_Header rate_headers_def cors_headers_def)

lemma log_frame [simp]:
  "secured (c\<lparr>g_logged := ls\<rparr>) = secured c" "identified i (c\<lparr>g_logged := ls\<rparr>) = identified i c"
  "answered_once (c\<lparr>g_logged := ls\<rparr>) = answered_once c" "refused_once (c\<lparr>g_logged := ls\<rparr>) = refused_once c"
  "origins_ok cors origin (c\<lparr>g_logged := ls\<rparr>) = origins_ok cors origin c"
  by (simp_all add: secured_def identified_def answered_once_def refused_once_def origins_ok_def)

section \<open>Responses\<close>

text \<open>The outer part of the chain, seen from the part behind the security headers.\<close>

lemma serve_cases:
  obtains (own) handlers where "route_handlers E cfg service (hq_Method (g_request c)) (hq_Route (g_request c)) = Some handlers"
      "serve E cfg service c = global_chain E cfg handlers c"
  | (none) c' where "c' = global_chain E cfg (\<lambda>c. c) (c\<lparr>g_request := (g_request c)\<lparr>hq_Route := ''''\<rparr>\<rparr>)"
      "serve E cfg service c = (if g_written c' = [] then c'\<lparr>g_written := [(404, None)]\<rparr> else c')"
  by (cases "route_handlers E cfg service (hq_Method (g_request c)) (hq_Route (g_request c))") (auto simp: serve_def Let_def)








definition plain_page :: "'s world step" where
  "plain_page c = answered (200, None) c"


text \<open>A request to a route, without headers, and the libraries of a small server.\<close>

definition demo_http_request :: "string \<Rightarrow> string \<Rightarrow> http_request" where
  "demo_http_request method route = \<lparr>hq_Method = method, hq_Route = route, hq_Header = (\<lambda>_. ''''), hq_Body = ''{}'', hq_BodyLimit = None,
     hq_ContentLength = 0, hq_ClientIP = ''10.0.0.1'', hq_TLS = False\<rparr>"

definition demo_http :: "'s platform \<Rightarrow> 's http_env" where
  "demo_http D = \<lparr>he_jwt = mem_jwt, he_now = 0, he_fresh = ''fresh'', he_expired = False, he_keyValid = (\<lambda>k. length k \<le> 128),
     he_ParseMediaType = Some, he_Enforce = (\<lambda>ctx rq. None),
     he_limiter = \<lparr>lim_enabled = False, lim_failOpen = False, lim_backend = None\<rparr>, he_platform = D, he_health = demo_health, he_arrival = rev,
     he_build = \<lparr>bv_Version = ''dev'', bv_Commit = ''unknown'', bv_BuildTime = ''unknown'', bv_startedAt = 0\<rparr>,
     he_statusString = (\<lambda>st. if st = STATUS_HEALTHY then ''INSTANCE_STATUS_HEALTHY'' else ''INSTANCE_STATUS_DRAINING''),
     he_decodeInstances = (\<lambda>limit body. Inr \<lparr>hli_ServiceName = body, hli_Metadata = fmempty, hli_IncludeDraining = True, hli_Page = 0, hli_PageSize = 0\<rparr>),
     he_decodeServices = (\<lambda>limit body. Inr \<lparr>hls_Prefix = body, hls_Page = 0, hls_PageSize = 0\<rparr>),
     he_foreign = (\<lambda>route. plain_page)\<rparr>"


















text \<open>A foreign origin is turned away before anything else runs.\<close>

lemma CORS_turns_away:
  assumes "cors_Enabled cfg" and "GetHeader c ''Origin'' \<noteq> ''''" and "GetHeader c ''Origin'' \<notin> set (cors_AllowedOrigins cfg)"
  shows "CORS cfg nxt c = answered (403, Some \<lparr>rs_Code = CodeForbidden, rs_Message = ''origin is not allowed'', rs_Body = NoBody,
    rs_RequestID = requestID c\<rparr>) c"
  using assms by (simp add: CORS_def Abort_answered Let_def)

lemma SecurityHeaders_passes:
  "\<exists>c'. SecurityHeaders nxt c = nxt c' \<and> g_written c' = g_written c \<and> g_panic c' = g_panic c \<and> g_world c' = g_world c \<and>
    g_request c' = g_request c"
  unfolding SecurityHeaders_def Let_def by (rule exI, rule conjI, rule refl) simp

lemma global_turns_away:
  assumes "cors_Enabled (http_CORS (cfg_HTTP cfg))" and "GetHeader c ''Origin'' \<noteq> ''''"
    and "GetHeader c ''Origin'' \<notin> set (cors_AllowedOrigins (http_CORS (cfg_HTTP cfg)))"
    and "GetHeader c ''Idempotency-Key'' = '''' \<or> he_keyValid E (GetHeader c ''Idempotency-Key'')"
    and "g_written c = []" and "g_panic c = None"
  shows "map fst (g_written (global_chain E cfg nxt c)) = [403] \<and> g_world (global_chain E cfg nxt c) = g_world c"
proof -
  have inner: "\<exists>e c1. SecurityHeaders (inner_chain E cfg nxt) c' = answered (403, Some e) c1 \<and> g_written c1 = [] \<and> g_panic c1 = None \<and>
      g_world c1 = g_world c" if h: "g_request c' = g_request c" "g_written c' = []" "g_panic c' = None" "g_world c' = g_world c" for c'
  proof -
    obtain c1 where c1: "SecurityHeaders (inner_chain E cfg nxt) c' = inner_chain E cfg nxt c1" "g_written c1 = []" "g_panic c1 = None"
        "g_world c1 = g_world c" "g_request c1 = g_request c"
      using SecurityHeaders_passes [of "inner_chain E cfg nxt" c'] unfolding h by blast
    then have "GetHeader c1 ''Origin'' = GetHeader c ''Origin''" by (simp add: GetHeader_def)
    then show ?thesis using c1 assms(1-3) by (simp add: inner_chain_def CORS_turns_away) blast
  qed
  have rec: "map fst (g_written (Recovery (HTTPMetrics m (SecurityHeaders (inner_chain E cfg nxt))) c')) = [403] \<and>
      g_world (Recovery (HTTPMetrics m (SecurityHeaders (inner_chain E cfg nxt))) c') = g_world c"
    if c': "g_request c' = g_request c" "g_written c' = []" "g_panic c' = None" "g_world c' = g_world c" for m c'
    using inner [OF c'] by (auto simp: Recovery_def HTTPMetrics_def after_next_def Let_def)
  have log: "map fst (g_written (RequestLogger (behind_log E cfg nxt) c')) = [403] \<and> g_world (RequestLogger (behind_log E cfg nxt) c') = g_world c"
    if c': "g_request c' = g_request c" "g_written c' = []" "g_panic c' = None" "g_world c' = g_world c" for c'
    using rec [OF c'] by (simp add: RequestLogger_def behind_log_def after_next_def Let_def)
  have "g_request (tagged i c) = g_request c" "g_written (tagged i c) = []" "g_panic (tagged i c) = None" "g_world (tagged i c) = g_world c" for i
    using assms(5,6) by (simp_all add: tagged_def Let_def)
  then show ?thesis
    using assms(4) unfolding global_chain_inner behind_id_def IdempotencyKey_def Environment_def Let_def
    by (auto simp: GetHeader_def intro!: log [THEN conjunct1] log [THEN conjunct2])
qed


lemma global_origins:
  assumes "org.good cfg origin nxt" and "header_of c ''Access-Control-Allow-Origin'' = None" and "GetHeader c ''Origin'' = origin"
  shows "origins_ok (http_CORS (cfg_HTTP cfg)) origin (global_chain E cfg nxt c)"
proof -
  have "origins_ok (http_CORS (cfg_HTTP cfg)) origin (tagged i c)" for i
    using assms(2,3) by (simp add: origins_ok_def tagged_def Let_def header_set_Header)
  then show ?thesis
    unfolding global_chain_inner by (intro org.goodD [OF org.good_behind [OF _ assms(1)]]) (auto simp: security_headers_def)
qed

text \<open>
  C37. Cross-origin access is granted to the listed origins only: a response carries
  Access-Control-Allow-Origin only when CORS is enabled, and then it is the Origin of the request,
  which is on the list. A request from an origin that is not listed is answered with 403 and nothing
  behind the chain changes. Handlers of libraries are assumed not to grant origins.
\<close>

theorem cors_exact:
  assumes "\<And>origin route c. origins_ok (http_CORS (cfg_HTTP cfg)) origin c \<Longrightarrow> origins_ok (http_CORS (cfg_HTTP cfg)) origin (he_foreign E route c)"
    and "hq_Header r ''Idempotency-Key'' = '''' \<or> he_keyValid E (hq_Header r ''Idempotency-Key'')"
  shows "origins_ok (http_CORS (cfg_HTTP cfg)) (hq_Header r ''Origin'') (serve E cfg service (incoming r w)) \<and>
    (cors_Enabled (http_CORS (cfg_HTTP cfg)) \<and> hq_Header r ''Origin'' \<notin> set ('''' # cors_AllowedOrigins (http_CORS (cfg_HTTP cfg))) \<longrightarrow>
      map fst (g_written (serve E cfg service (incoming r w))) = [403] \<and> g_world (serve E cfg service (incoming r w)) = w)"
proof -
  let ?c = "incoming r w" and ?d = "(incoming r w)\<lparr>g_request := (g_request (incoming r w))\<lparr>hq_Route := ''''\<rparr>\<rparr>"
  have start: "header_of x ''Access-Control-Allow-Origin'' = None" "g_written x = []" "g_panic x = None" "g_world x = w"
      "GetHeader x n = hq_Header r n" if "x = ?c \<or> x = ?d" for x n
    using that by (auto simp: header_of_def incoming_def GetHeader_def)
  let ?away = "cors_Enabled (http_CORS (cfg_HTTP cfg)) \<and> hq_Header r ''Origin'' \<notin> set ('''' # cors_AllowedOrigins (http_CORS (cfg_HTTP cfg)))"
  have away: "?away \<longrightarrow> map fst (g_written (global_chain E cfg nxt x)) = [403] \<and> g_world (global_chain E cfg nxt x) = w"
    if "x = ?c \<or> x = ?d" for x nxt
    using global_turns_away [of cfg x E nxt] start [OF that] assms(2) by simp
  show ?thesis
  proof (cases rule: serve_cases [of E cfg service ?c])
    case (own handlers)
    have g: "org.good cfg origin handlers" for origin by (rule org.good_routes [OF _ own(1) subset_refl]) (simp add: assms(1) org.good_def)
    have "origins_ok (http_CORS (cfg_HTTP cfg)) (hq_Header r ''Origin'') (global_chain E cfg handlers ?c)"
      by (rule global_origins [OF g]) (simp_all add: start)
    then show ?thesis unfolding own(2) using away [of ?c handlers] by simp
  next
    case (none c')
    have g: "org.good cfg origin (\<lambda>c. c)" for origin by (simp add: org.good_def)
    have "origins_ok (http_CORS (cfg_HTTP cfg)) (hq_Header r ''Origin'') c'"
      unfolding none(1) by (rule global_origins [OF g]) (simp_all add: start)
    moreover have "?away \<longrightarrow> map fst (g_written c') = [403] \<and> g_world c' = w" unfolding none(1) by (rule away) simp
    ultimately show ?thesis using none(2) by (auto simp: origins_ok_def)
  qed
qed


theorem cors_exact_witness:
  "\<exists>cfg r. cors_Enabled (http_CORS (cfg_HTTP cfg)) \<and>
     map fst (g_written (serve (demo_http mem_platform) cfg (auth_New cfg) (incoming r (quiet mem_empty)))) = [403]"
proof -
  let ?cors = "\<lparr>cors_Enabled = True, cors_AllowedOrigins = [''https://console.example''], cors_AllowedHeaders = [], cors_ExposedHeaders = [], cors_MaxAge = 0\<rparr>"
  let ?cfg = "default_config\<lparr>cfg_HTTP := (cfg_HTTP default_config)\<lparr>http_CORS := ?cors\<rparr>\<rparr>"
  let ?r = "(demo_http_request ''GET'' ''/live'')\<lparr>hq_Header := (\<lambda>h. if h = ''Origin'' then ''https://evil.example'' else '''')\<rparr>"
  have "origins_ok (http_CORS (cfg_HTTP ?cfg)) origin (he_foreign (demo_http mem_platform) route c)"
    if "origins_ok (http_CORS (cfg_HTTP ?cfg)) origin c" for origin route and c :: "mem world gin"
    using that by (auto simp: demo_http_def plain_page_def origins_ok_def)
  then have "map fst (g_written (serve (demo_http mem_platform) ?cfg (auth_New ?cfg) (incoming ?r (quiet mem_empty)))) = [403]"
    using cors_exact [of ?cfg "demo_http mem_platform" ?r "auth_New ?cfg" "quiet mem_empty"] by simp
  then show ?thesis by (intro exI [of _ ?cfg] exI [of _ ?r]) simp
qed

section \<open>Access to the interface\<close>


text \<open>Contexts of the same request, as far as its route and headers go.\<close>

definition like :: "http_request \<Rightarrow> 's gin \<Rightarrow> bool" where
  "like r c \<longleftrightarrow> hq_Route (g_request c) = hq_Route r \<and> hq_Header (g_request c) = hq_Header r"

lemma like_frame [simp]:
  "like r (set_Header k v c) = like r c" "like r (gin_Set k v c) = like r c" "like r (c\<lparr>g_ctx := x\<rparr>) = like r c"
  "like r (c\<lparr>g_world := w\<rparr>) = like r c" "like r (c\<lparr>g_request := (g_request c)\<lparr>hq_BodyLimit := l\<rparr>\<rparr>) = like r c"
  by (simp_all add: like_def)











section \<open>Listing over HTTP\<close>

definition listing_request :: "http_ListInstancesRequest \<Rightarrow> ListInstancesRequest" where
  "listing_request q = \<lparr>lir_ServiceName = hli_ServiceName q, lir_Selector = hli_Metadata q, lir_IncludeDraining = hli_IncludeDraining q\<rparr>"

definition page_or :: "int \<Rightarrow> int \<Rightarrow> int" where
  "page_or d p = (if p = 0 then d else p)"

lemma bound_request:
  assumes "bindInstances E c = Inr q"
  shows "1 \<le> page_or 1 (hli_Page q)" "1 \<le> page_or 20 (hli_PageSize q)" "page_or 20 (hli_PageSize q) \<le> 100"
    "pagination (hli_Page q) (hli_PageSize q) = (page_or 1 (hli_Page q), page_or 20 (hli_PageSize q))"
  using assms
  by (auto simp: bindInstances_def valid_page_def valid_page_size_def page_or_def pagination_def Let_def split: sum.splits if_splits)

text \<open>
  C39. A well-formed listing request is answered with 200 and exactly the page asked for (page 1 and
  20 entries when the client leaves them out, never more than 100 entries) of the live instances that
  match it, ordered by their identifiers, each shown with its own data, with their total number and
  the current revision. The registry is read only. The JSON decoder is a parameter; the page number
  is an int of 64 bits.
\<close>

theorem http_listing_exact:
  assumes "registry_deps (he_platform E) view advance" and "sound (he_platform E) (view s)"
    and "bindInstances E c = Inr q" and "request_ok (listing_request q)" and "hli_Page q < 2 ^ 63" and "g_world c = quiet s"
  defines "p \<equiv> page_or 1 (hli_Page q)" and "n \<equiv> page_or 20 (hli_PageSize q)"
  shows "\<exists>vals s'. distinct (map (\<lambda>i. (si_ServiceName i, si_InstanceId i)) vals) \<and>
    set vals = wanted (listing_request q) (abs_reg (he_platform E) (view s)) \<and> sorted (map si_InstanceId vals) \<and>
    abs_reg (he_platform E) (view s') = abs_reg (he_platform E) (view s) \<and> 1 \<le> n \<and> n \<le> 100 \<and>
    (length vals < 2 ^ 62 \<longrightarrow>
      http_ListInstances E c = OK (InstancesBody
        \<lparr>lib_Instances = map (instance_body E) (take (nat n) (drop (nat ((p - 1) * n)) vals)),
         lib_Revision = revision_of (view s), lib_Total = length vals, lib_Page = p, lib_PageSize = n\<rparr>) (c\<lparr>g_world := quiet s'\<rparr>))"
proof -
  have b: "1 \<le> p" "p < 2 ^ 63" "1 \<le> n" "n \<le> 100" "pagination (hli_Page q) (hli_PageSize q) = (p, n)"
    using bound_request [OF assms(3)] assms(5) by (simp_all add: p_def n_def) (simp add: page_or_def)
  obtain vals s' where v: "distinct (map (\<lambda>i. (si_ServiceName i, si_InstanceId i)) vals)"
    "set vals = wanted (listing_request q) (abs_reg (he_platform E) (view s))" "sorted (map si_InstanceId vals)"
    "tidied (he_platform E) (view s) (view s')"
    "p < 2 ^ 63 \<longrightarrow> n < 2 ^ 63 \<longrightarrow> length vals < 2 ^ 62 \<longrightarrow>
      Service_list (he_platform E) (listing_request q) p n (quiet s) =
        (Inr (\<lparr>lis_Instances = the (pageValues vals p n), lis_Revision = revision_of (view s)\<rparr>, length vals), quiet s')"
    using registry_deps.Service_list_quiet [OF assms(1,2,4), of p n] by blast
  have "http_ListInstances E c = OK (InstancesBody
        \<lparr>lib_Instances = map (instance_body E) (take (nat n) (drop (nat ((p - 1) * n)) vals)),
         lib_Revision = revision_of (view s), lib_Total = length vals, lib_Page = p, lib_PageSize = n\<rparr>) (c\<lparr>g_world := quiet s'\<rparr>)"
    if "length vals < 2 ^ 62"
    using v(5) b that assms(3,6) pageValues_spec [of p n vals]
    by (simp add: http_ListInstances_def Service_ListPage_def listing_request_def)
  then show ?thesis using v(1-4) b unfolding tidied_def by blast
qed


theorem http_listing_exact_witness:
  "\<exists>vals. set vals = wanted \<lparr>lir_ServiceName = ''billing'', lir_Selector = fmempty, lir_IncludeDraining = True\<rparr>
       (abs_reg mem_platform (mem_view demo_leased)) \<and> sorted (map si_InstanceId vals)"
proof -
  let ?c = "incoming ((demo_http_request ''POST'' ''/api/v1/registry/instances/list'')\<lparr>hq_Body := ''billing''\<rparr>) (quiet demo_leased)"
  let ?q = "\<lparr>hli_ServiceName = ''billing'', hli_Metadata = fmempty, hli_IncludeDraining = True, hli_Page = 0, hli_PageSize = 0\<rparr>"
  have "bindInstances (demo_http mem_platform) ?c = Inr ?q"
    by (simp add: bindInstances_def demo_http_def incoming_def demo_http_request_def valid_page_def valid_page_size_def)
  moreover have "request_ok (listing_request ?q)" using demo_name by (simp add: request_ok_def listing_request_def)
  moreover have "he_platform (demo_http mem_platform) = mem_platform" "g_world ?c = quiet demo_leased"
    by (simp_all add: demo_http_def incoming_def)
  ultimately show ?thesis
    using http_listing_exact [of "demo_http mem_platform" mem_view mem_advance demo_leased ?c ?q] mem_deps sound_leased
    by (auto simp: page_or_def listing_request_def incoming_def)
qed

text \<open>The listing of services, likewise.\<close>

lemma bound_services:
  assumes "bindServices E c = Inr q"
  shows "1 \<le> page_or 1 (hls_Page q)" "1 \<le> page_or 20 (hls_PageSize q)" "page_or 20 (hls_PageSize q) \<le> 100"
    "pagination (hls_Page q) (hls_PageSize q) = (page_or 1 (hls_Page q), page_or 20 (hls_PageSize q))"
  using assms
  by (auto simp: bindServices_def valid_page_def valid_page_size_def page_or_def pagination_def Let_def split: sum.splits if_splits)

lemma http_services_exact:
  assumes "registry_deps (he_platform E) view advance" and "sound (he_platform E) (view s)"
    and "\<And>svc. card (active (abs_reg (he_platform E) (view s)) svc) < 2 ^ 32"
    and "bindServices E c = Inr q" and "hls_Page q < 2 ^ 63" and "g_world c = quiet s"
    and "card (listed_services (hls_Prefix q) (abs_reg (he_platform E) (view s))) < 2 ^ 62"
  defines "p \<equiv> page_or 1 (hls_Page q)" and "n \<equiv> page_or 20 (hls_PageSize q)"
    and "summaries \<equiv> map (summary_of (abs_reg (he_platform E) (view s)))
      (sorted_list_of_set (listed_services (hls_Prefix q) (abs_reg (he_platform E) (view s))))"
  shows "\<exists>s'. abs_reg (he_platform E) (view s') = abs_reg (he_platform E) (view s) \<and>
    http_ListServices E c = OK (ServicesBody
      \<lparr>lsb_Services = map service_body (take (nat n) (drop (nat ((p - 1) * n)) summaries)),
       lsb_Revision = revision_of (view s), lsb_Total = length summaries, lsb_Page = p, lsb_PageSize = n\<rparr>) (c\<lparr>g_world := quiet s'\<rparr>)"
proof -
  have b: "1 \<le> p" "p < 2 ^ 63" "1 \<le> n" "n \<le> 100" "n < 2 ^ 63" "pagination (hls_Page q) (hls_PageSize q) = (p, n)"
    using bound_services [OF assms(4)] assms(5) by (simp_all add: p_def n_def) (simp add: page_or_def)
  have len: "length summaries < 2 ^ 62" using assms(7) by (simp add: summaries_def)
  obtain s' where s': "tidied (he_platform E) (view s) (view s')" "Service_listServices (he_platform E) (hls_Prefix q) p n (quiet s) =
      (Inr (\<lparr>lss_Services = the (pageValues summaries p n), lss_Revision = revision_of (view s)\<rparr>, length summaries), quiet s')"
    using registry_deps.Service_listServices_quiet [OF assms(1-3) b(2,5) assms(7)] by (auto simp: summaries_def Let_def)
  then show ?thesis
    using b pageValues_spec [OF b(1,2,3,5) len] assms(4,6)
    by (intro exI [of _ s']) (simp add: http_ListServices_def Service_ListServicesPage_def tidied_def)
qed

text \<open>
  What a failure of the registry shows to the client of the listing: \<open>ListInstances\<close>
  answers 400 with the text of the error as it is, also when the error is one of Redis; \<open>ListServices\<close>
  answers 500 with a fixed text.
\<close>

lemma listing_error_text:
  shows "bindInstances E c = Inr q \<Longrightarrow>
      Service_ListPage (he_platform E) (listing_request q) (page_or 1 (hli_Page q)) (page_or 20 (hli_PageSize q)) (g_world c) = (Inl err, w) \<Longrightarrow>
      g_written (http_ListInstances E c) = g_written c @ [(400, Some \<lparr>rs_Code = CodeInvalidArgument, rs_Message = Error err, rs_Body = NoBody,
        rs_RequestID = requestID c\<rparr>)]"
    and "bindServices E c = Inr q' \<Longrightarrow>
      Service_ListServicesPage (he_platform E) (hls_Prefix q') (page_or 1 (hls_Page q')) (page_or 20 (hls_PageSize q')) (g_world c) = (Inl err', w') \<Longrightarrow>
      g_written (http_ListServices E c) = g_written c @ [(500, Some \<lparr>rs_Code = CodeInternal, rs_Message = ''internal server error'', rs_Body = NoBody,
        rs_RequestID = requestID c\<rparr>)]"
  by (simp_all add: http_ListInstances_def http_ListServices_def bound_request listing_request_def Fail_answered fail_response_def
      apperror_defs requestID_def pagination_def page_or_def Let_def)

end
