(* ===== verification/ApiDocsProperties.thy ===== *)
theory ApiDocsProperties
  imports ApiDocs HttpProperties
begin

text \<open>
  The HTTP interface is the one the API document describes: the routes and their protection, the
  answers field by field, the codes of the errors, and the requests it reads.
\<close>

section \<open>What the document says of a route\<close>

definition doc_operation :: "string \<Rightarrow> operation option" where
  "doc_operation route = Option.bind (map_of doc_paths route) (\<lambda>ms. map_of ms ''post'')"

definition doc_responses :: "string \<Rightarrow> (int \<times> doc_response) list" where
  "doc_responses route = (case doc_operation route of Some op \<Rightarrow> op_responses op | None \<Rightarrow> [])"




lemma doc_operation_simps [simp]:
  "doc_operation ''/api/v1/me'' = Some doc_me"
  "doc_operation ''/api/v1/registry/instances/list'' = Some doc_registry_instances_list"
  "doc_operation ''/api/v1/registry/services/list'' = Some doc_registry_services_list"
  "doc_operation ''/api/v1/version'' = Some doc_version"
  "doc_operation ''/live'' = Some doc_live" "doc_operation ''/ready'' = Some doc_ready"
  by (simp_all add: doc_operation_def doc_paths_def)











section \<open>Bodies\<close>

text \<open>What keeps a body from being described: a value that is printed as \<open>null\<close>.\<close>

definition has_null :: "json_env \<Rightarrow> body \<Rightarrow> bool" where
  "has_null J b \<longleftrightarrow>
     (case b of
        SubjectBody s \<Rightarrow> s = None
      | InstancesBody l \<Rightarrow> list_ex (\<lambda>i. ib_Metadata i = fmempty \<and> je_nil J i) (lib_Instances l)
      | _ \<Rightarrow> False)"







section \<open>Answers\<close>

text \<open>The description of a response names the application code, or is \<open>OK\<close>.\<close>

definition documented_code :: "doc_response \<Rightarrow> int \<Rightarrow> bool" where
  "documented_code d code \<longleftrightarrow>
     (if dr_description d = ''OK'' then code = CodeOK else prefix (''Code '' @ dec_int code @ '': '') (dr_description d))"

text \<open>The error answers that are possible on a route.\<close>

definition route_codes :: "string \<Rightarrow> (int \<times> int) set" where
  "route_codes route = (if prefix ''/api/v1/'' route then error_codes else chain_codes)"

text \<open>
  An answer is explained: it is the documented response of its status, with the documented code and
  fields, or an error answer of its route without data.
\<close>

definition explained :: "json_env \<Rightarrow> string \<Rightarrow> int \<times> Response option \<Rightarrow> bool" where
  "explained J route a \<longleftrightarrow>
     (case a of
        (st, None) \<Rightarrow> st = 204 \<or> st = 401
      | (st, Some r) \<Rightarrow>
          described doc_definitions (Ref ''httptransport.Response'') (Response_json J r) \<and>
          (case map_of (doc_responses route) st of
             Some d \<Rightarrow> documented_code d (rs_Code r) \<and>
               (described doc_definitions (dr_schema d) (Response_json J r) \<longleftrightarrow> \<not> has_null J (rs_Body r))
           | None \<Rightarrow> (st, rs_Code r) \<in> route_codes route \<and> rs_Body r = NoBody))"



text \<open>Every answer on the way through the chain is explained.\<close>

definition all_explained :: "json_env \<Rightarrow> string \<Rightarrow> 's gin \<Rightarrow> bool" where
  "all_explained J route c \<longleftrightarrow> (\<forall>a \<in> set (g_written c). explained J route a)"

lemma all_explained_frame [simp]:
  "all_explained J route (c\<lparr>g_world := w\<rparr>) = all_explained J route c" "all_explained J route (c\<lparr>g_logged := ls\<rparr>) = all_explained J route c"
  "all_explained J route (set_Header k v c) = all_explained J route c" "all_explained J route (c\<lparr>g_request := q\<rparr>) = all_explained J route c"
  "all_explained J route (gin_Set k v c) = all_explained J route c" "all_explained J route (c\<lparr>g_ctx := x\<rparr>) = all_explained J route c"
  "all_explained J route (c\<lparr>g_counted := n\<rparr>) = all_explained J route c" "all_explained J route (c\<lparr>g_panic := p\<rparr>) = all_explained J route c"
  "all_explained J route (answered a c) \<longleftrightarrow> all_explained J route c \<and> explained J route a"
  by (auto simp: all_explained_def)









section \<open>Routes\<close>






section \<open>Requests\<close>

text \<open>
  One field of a struct that is read from JSON: its key sets it as \<open>val\<close> says, and no other of the
  \<open>names\<close> touches it. Reading an object with distinct keys then gives the field its own value.
\<close>

locale struct_field =
  fixes field :: "string \<Rightarrow> json \<Rightarrow> 'r \<Rightarrow> 'r option" and names :: "string set"
    and key :: string and get :: "'r \<Rightarrow> 'a" and val :: "json \<Rightarrow> 'a \<Rightarrow> 'a option"
  assumes own: "field key v r = Some r' \<Longrightarrow> val v (get r) = Some (get r')"
    and other: "k \<in> names \<Longrightarrow> k \<noteq> key \<Longrightarrow> field k v r = Some r' \<Longrightarrow> get r' = get r"
begin

lemma untouched:
  "json_fields field fs r = Some r' \<Longrightarrow> fst ` set fs \<subseteq> names \<Longrightarrow> key \<notin> fst ` set fs \<Longrightarrow> get r' = get r"
proof (induction fs arbitrary: r)
  case (Cons f fs)
  obtain r1 where "field (fst f) (snd f) r = Some r1" "json_fields field fs r1 = Some r'"
    using Cons.prems(1) by (cases f) (auto simp: bind_eq_Some_conv)
  then show ?case using Cons.IH [of r1] Cons.prems(2,3) other [of "fst f" "snd f" r r1] by auto
qed simp

lemma read_field:
  "json_fields field fs r = Some r' \<Longrightarrow> fst ` set fs \<subseteq> names \<Longrightarrow> distinct (map fst fs) \<Longrightarrow>
    (case map_of fs key of None \<Rightarrow> get r' = get r | Some v \<Rightarrow> val v (get r) = Some (get r'))"
proof (induction fs arbitrary: r)
  case (Cons f fs)
  obtain r1 where r1: "field (fst f) (snd f) r = Some r1" "json_fields field fs r1 = Some r'"
    using Cons.prems(1) by (cases f) (auto simp: bind_eq_Some_conv)
  show ?case
  proof (cases "fst f = key")
    case True
    then have "get r' = get r1" using untouched [OF r1(2)] Cons.prems(2,3) by force
    then show ?thesis using True own r1(1) by (cases f) auto
  next
    case False
    then have "get r1 = get r" using other [OF _ False r1(1)] Cons.prems(2) by simp
    moreover have "case map_of fs key of None \<Rightarrow> get r' = get r1 | Some v \<Rightarrow> val v (get r1) = Some (get r')"
      using Cons.IH [OF r1(2)] Cons.prems(2,3) by simp
    ultimately show ?thesis using False by (cases f) (simp split: option.splits)
  qed
qed simp

end


definition instances_names :: "string set" where
  "instances_names = fst ` set (properties schema_ListInstancesRequest)"

definition services_names :: "string set" where
  "services_names = fst ` set (properties schema_ListServicesRequest)"

text \<open>Among names in lower case the match of keys is exact.\<close>

definition lower_name :: "string \<Rightarrow> bool" where
  "lower_name s \<longleftrightarrow> (\<forall>c \<in> set s. byte c < 128 \<and> \<not> (65 \<le> byte c \<and> byte c \<le> 90))"

lemma EqualFold_lower:
  assumes "lower_name s" and "lower_name t"
  shows "strings_EqualFold s t \<longleftrightarrow> s = t"
proof -
  have id: "map fold_rune (runes u) = map byte u" if "lower_name u" for u
    using that runes_ascii [of u] by (auto simp: lower_name_def fold_rune_def)
  have "inj byte" by (simp add: inj_def byte_def)
  then show ?thesis using id [OF assms(1)] id [OF assms(2)] by (simp add: strings_EqualFold_def inj_map_eq_map)
qed

lemma lower_names [simp]:
  "lower_name ''service_name''" "lower_name ''metadata''" "lower_name ''include_draining''" "lower_name ''page''"
  "lower_name ''page_size''" "lower_name ''prefix''"
  by (simp_all add: lower_name_def byte_def)

lemma request_names:
  "k \<in> instances_names \<longleftrightarrow> k = ''service_name'' \<or> k = ''metadata'' \<or> k = ''include_draining'' \<or> k = ''page'' \<or> k = ''page_size''"
  "k \<in> services_names \<longleftrightarrow> k = ''prefix'' \<or> k = ''page'' \<or> k = ''page_size''"
  by (auto simp: instances_names_def services_names_def schema_ListInstancesRequest_def schema_ListServicesRequest_def)

lemma request_fields:
  "ListInstancesRequest_field ''service_name'' v r = map_option (\<lambda>x. r\<lparr>hli_ServiceName := x\<rparr>) (json_string v (hli_ServiceName r))"
  "ListInstancesRequest_field ''metadata'' v r = map_option (\<lambda>x. r\<lparr>hli_Metadata := x\<rparr>) (json_map v (hli_Metadata r))"
  "ListInstancesRequest_field ''include_draining'' v r = map_option (\<lambda>x. r\<lparr>hli_IncludeDraining := x\<rparr>) (json_bool v (hli_IncludeDraining r))"
  "ListInstancesRequest_field ''page'' v r = map_option (\<lambda>x. r\<lparr>hli_Page := x\<rparr>) (json_int v (hli_Page r))"
  "ListInstancesRequest_field ''page_size'' v r = map_option (\<lambda>x. r\<lparr>hli_PageSize := x\<rparr>) (json_int v (hli_PageSize r))"
  "ListServicesRequest_field ''prefix'' v q = map_option (\<lambda>x. q\<lparr>hls_Prefix := x\<rparr>) (json_string v (hls_Prefix q))"
  "ListServicesRequest_field ''page'' v q = map_option (\<lambda>x. q\<lparr>hls_Page := x\<rparr>) (json_int v (hls_Page q))"
  "ListServicesRequest_field ''page_size'' v q = map_option (\<lambda>x. q\<lparr>hls_PageSize := x\<rparr>) (json_int v (hls_PageSize q))"
  by (simp_all add: ListInstancesRequest_field_def ListServicesRequest_field_def EqualFold_lower)






interpretation ls_prefix: struct_field ListServicesRequest_field services_names "''prefix''" hls_Prefix json_string
  by unfold_locales (auto simp: request_fields request_names)

interpretation ls_page: struct_field ListServicesRequest_field services_names "''page''" hls_Page json_int
  by unfold_locales (auto simp: request_fields request_names)

interpretation ls_size: struct_field ListServicesRequest_field services_names "''page_size''" hls_PageSize json_int
  by unfold_locales (auto simp: request_fields request_names)

text \<open>What the document says of the fields of a request.\<close>

definition the_default :: "'a \<Rightarrow> 'a option \<Rightarrow> 'a" where
  "the_default d x = (case x of Some v \<Rightarrow> v | None \<Rightarrow> d)"

lemma the_default_simps [simp]: "the_default d None = d" "the_default d (Some v) = v"
  by (simp_all add: the_default_def)












end
