(* ===== verification/GoUrl.thy ===== *)
theory GoUrl
  imports GoBytes GoRunes
begin

text \<open>
  The query half of Go's \<open>net/url\<close>: escaping and unescaping a query component, the ordered
  multimap \<open>url.Values\<close> with \<open>ParseQuery\<close>, \<open>Set\<close>, \<open>Del\<close>, \<open>Get\<close> and \<open>Encode\<close>, and the proof
  that what \<open>Encode\<close> writes \<open>ParseQuery\<close> reads back.
\<close>

section \<open>Positions in a string\<close>

text \<open>\<open>strings.IndexByte\<close> and \<open>strings.LastIndex\<close> of a one-byte string; \<open>-1\<close> when it does not occur.\<close>

definition strings_IndexByte :: "string \<Rightarrow> char \<Rightarrow> int" where
  "strings_IndexByte s c = (if c \<in> set s then int (length (takeWhile (\<lambda>x. x \<noteq> c) s)) else - 1)"

definition strings_LastIndexByte :: "string \<Rightarrow> char \<Rightarrow> int" where
  "strings_LastIndexByte s c =
     (if c \<in> set s then int (length s) - 1 - int (length (takeWhile (\<lambda>x. x \<noteq> c) (rev s))) else - 1)"

lemma IndexByte_append: "c \<notin> set a \<Longrightarrow> strings_IndexByte (a @ c # b) c = int (length a)"
  by (simp add: strings_IndexByte_def takeWhile_append)

lemma IndexByte_absent: "c \<notin> set a \<Longrightarrow> strings_IndexByte a c = - 1"
  by (simp add: strings_IndexByte_def)

lemma LastIndexByte_append: "c \<notin> set b \<Longrightarrow> strings_LastIndexByte (a @ c # b) c = int (length a)"
  by (simp add: strings_LastIndexByte_def takeWhile_append)

lemma LastIndexByte_nonneg: "c \<in> set s \<Longrightarrow> 0 \<le> strings_LastIndexByte s c"
  by (auto dest!: split_list_last simp: LastIndexByte_append)

section \<open>Escaping a query component\<close>

definition upperhex :: "nat \<Rightarrow> char" where
  "upperhex d = ''0123456789ABCDEF'' ! d"

text \<open>The bytes a query component keeps as they are; a space becomes a plus sign.\<close>

definition unreserved :: "char \<Rightarrow> bool" where
  "unreserved c \<longleftrightarrow>
     (let b = byte c in (97 \<le> b \<and> b \<le> 122) \<or> (65 \<le> b \<and> b \<le> 90) \<or> (48 \<le> b \<and> b \<le> 57)) \<or>
     c \<in> set ''-_.~''"

definition escape_byte :: "char \<Rightarrow> string" where
  "escape_byte c =
     (if unreserved c then [c] else if c = CHR '' '' then ''+''
      else [CHR ''%'', upperhex (byte c div 16), upperhex (byte c mod 16)])"

definition QueryEscape :: "string \<Rightarrow> string" where
  "QueryEscape s = concat (map escape_byte s)"

definition unhex :: "char \<Rightarrow> nat option" where
  "unhex c =
     (let b = byte c in
      if 48 \<le> b \<and> b \<le> 57 then Some (b - 48)
      else if 97 \<le> b \<and> b \<le> 102 then Some (b - 87)
      else if 65 \<le> b \<and> b \<le> 70 then Some (b - 55) else None)"

text \<open>A percent sign without two hexadecimal digits behind it is an error.\<close>

fun QueryUnescape :: "string \<Rightarrow> string option" where
  "QueryUnescape [] = Some []"
| "QueryUnescape (c # s) =
     (if c = CHR ''%'' then
        (case s of
           a # b # t \<Rightarrow>
             (case (unhex a, unhex b) of
                (Some x, Some y) \<Rightarrow> map_option (Cons (char_of (16 * x + y))) (QueryUnescape t)
              | _ \<Rightarrow> None)
         | _ \<Rightarrow> None)
      else map_option (Cons (if c = CHR ''+'' then CHR '' '' else c)) (QueryUnescape s))"

lemma less_16_cases:
  "(d :: nat) < 16 \<Longrightarrow> d < 10 \<or> d = 10 \<or> d = 11 \<or> d = 12 \<or> d = 13 \<or> d = 14 \<or> d = 15"
  by arith

lemma byte_upperhex: "d < 16 \<Longrightarrow> byte (upperhex d) = (if d < 10 then 48 + d else 55 + d)"
  by (drule less_16_cases, elim disjE, drule less_10_cases, (elim disjE)?; simp add: upperhex_def byte_def)

lemma unhex_upperhex [simp]: "d < 16 \<Longrightarrow> unhex (upperhex d) = Some d"
  by (auto simp: unhex_def byte_upperhex Let_def)

lemma char_of_byte [simp]: "char_of (byte c) = c"
  by (simp add: byte_def)

lemma byte_split: "16 * (byte c div 16) + byte c mod 16 = byte c"
  by simp

lemma unescape_byte: "QueryUnescape (escape_byte c @ s) = map_option (Cons c) (QueryUnescape s)"
proof -
  have "byte c div 16 < 16" using byte_less [of c] by linarith
  moreover have "unreserved c \<Longrightarrow> c \<noteq> CHR ''%'' \<and> c \<noteq> CHR ''+''"
    by (auto simp: unreserved_def byte_def)
  ultimately show ?thesis
    by (simp add: escape_byte_def byte_split)
qed

theorem QueryUnescape_QueryEscape [simp]: "QueryUnescape (QueryEscape s) = Some s"
  by (induction s) (simp_all add: QueryEscape_def unescape_byte)

text \<open>An escaped component has none of the separators of a query.\<close>

lemma upperhex_unreserved: "d < 16 \<Longrightarrow> unreserved (upperhex d)"
  by (simp add: unreserved_def Let_def byte_upperhex)

lemma escape_byte_chars: "x \<in> set (escape_byte c) \<Longrightarrow> unreserved x \<or> x = CHR ''+'' \<or> x = CHR ''%''"
proof -
  have "byte c div 16 < 16" using byte_less [of c] by linarith
  then show "x \<in> set (escape_byte c) \<Longrightarrow> unreserved x \<or> x = CHR ''+'' \<or> x = CHR ''%''"
    by (auto simp: escape_byte_def upperhex_unreserved split: if_splits)
qed

lemma QueryEscape_chars: "x \<in> set (QueryEscape s) \<Longrightarrow> unreserved x \<or> x = CHR ''+'' \<or> x = CHR ''%''"
  using escape_byte_chars by (fastforce simp: QueryEscape_def)

lemma QueryEscape_separators [simp]:
  "CHR ''&'' \<notin> set (QueryEscape s)" "CHR ''='' \<notin> set (QueryEscape s)" "CHR '';'' \<notin> set (QueryEscape s)"
  "CHR ''?'' \<notin> set (QueryEscape s)" "CHR ''/'' \<notin> set (QueryEscape s)" "CHR ''#'' \<notin> set (QueryEscape s)"
  by (auto dest!: QueryEscape_chars simp: unreserved_def byte_def)

lemma QueryEscape_plain: "list_all unreserved s \<Longrightarrow> QueryEscape s = s"
  by (induction s) (auto simp: QueryEscape_def escape_byte_def)

section \<open>url.Values\<close>

text \<open>
  A Go map from names to lists of values, as an association list with distinct keys. The order
  of its keys stands for the order in which the map is built and is never observed.
\<close>

type_synonym url_Values = "(string \<times> string list) list"

definition Values_Lookup :: "url_Values \<Rightarrow> string \<Rightarrow> string list" where
  "Values_Lookup m k = (case map_of m k of None \<Rightarrow> [] | Some vs \<Rightarrow> vs)"

fun Values_update :: "string \<Rightarrow> string list \<Rightarrow> url_Values \<Rightarrow> url_Values" where
  "Values_update k vs [] = [(k, vs)]"
| "Values_update k vs ((k', vs') # m) = (if k = k' then (k, vs) # m else (k', vs') # Values_update k vs m)"

definition Values_Set :: "url_Values \<Rightarrow> string \<Rightarrow> string \<Rightarrow> url_Values" where
  "Values_Set m k v = Values_update k [v] m"

definition Values_Add :: "url_Values \<Rightarrow> string \<Rightarrow> string \<Rightarrow> url_Values" where
  "Values_Add m k v = Values_update k (Values_Lookup m k @ [v]) m"

definition Values_Del :: "url_Values \<Rightarrow> string \<Rightarrow> url_Values" where
  "Values_Del m k = filter (\<lambda>(k', _). k' \<noteq> k) m"

definition Values_Get :: "url_Values \<Rightarrow> string \<Rightarrow> string" where
  "Values_Get m k = (case Values_Lookup m k of [] \<Rightarrow> [] | v # _ \<Rightarrow> v)"

lemma map_of_Values_update [simp]: "map_of (Values_update k vs m) = (map_of m)(k \<mapsto> vs)"
  by (induction k vs m rule: Values_update.induct) (auto simp: fun_eq_iff)

lemma Values_Lookup_update [simp]:
  "Values_Lookup (Values_update k vs m) k' = (if k' = k then vs else Values_Lookup m k')"
  by (simp add: Values_Lookup_def)

lemma Values_Lookup_Set [simp]:
  "Values_Lookup (Values_Set m k v) k' = (if k' = k then [v] else Values_Lookup m k')"
  by (simp add: Values_Set_def)

lemma Values_Lookup_Add [simp]:
  "Values_Lookup (Values_Add m k v) k' = (if k' = k then Values_Lookup m k @ [v] else Values_Lookup m k')"
  by (simp add: Values_Add_def)

lemma Values_Lookup_Del [simp]:
  "Values_Lookup (Values_Del m k) k' = (if k' = k then [] else Values_Lookup m k')"
  by (induction m) (auto simp: Values_Lookup_def Values_Del_def split: prod.splits)

lemma Values_Lookup_Nil [simp]: "Values_Lookup [] k = []"
  by (simp add: Values_Lookup_def)

lemma Values_update_keys: "set (map fst (Values_update k vs m)) = insert k (set (map fst m))"
  by (induction k vs m rule: Values_update.induct) auto

lemma Values_update_distinct: "distinct (map fst m) \<Longrightarrow> distinct (map fst (Values_update k vs m))"
  using Values_update_keys by (induction k vs m rule: Values_update.induct) fastforce+

lemma Values_Del_distinct: "distinct (map fst m) \<Longrightarrow> distinct (map fst (Values_Del m k))"
  by (auto simp: Values_Del_def distinct_map_filter)

section \<open>Reading and writing a query\<close>

text \<open>
  One field of a query between two ampersands: an empty field, one with a semicolon and one that
  cannot be unescaped are passed over (\<open>URL.Query\<close> drops the error \<open>ParseQuery\<close> returns).
\<close>

definition add_field :: "url_Values \<Rightarrow> string \<Rightarrow> url_Values" where
  "add_field m f =
     (if CHR '';'' \<in> set f \<or> f = [] then m
      else let (k, v, _) = strings_Cut f (CHR ''='') in
           case (QueryUnescape k, QueryUnescape v) of (Some k', Some v') \<Rightarrow> Values_Add m k' v' | _ \<Rightarrow> m)"

definition ParseQuery :: "string \<Rightarrow> url_Values" where
  "ParseQuery q = foldl add_field [] (strings_Split q (CHR ''&''))"

definition encode_field :: "string \<Rightarrow> string \<Rightarrow> string" where
  "encode_field k v = QueryEscape k @ ''='' @ QueryEscape v"

text \<open>The pairs of a map in the order in which \<open>Encode\<close> writes them: by key, then as they were added.\<close>

definition Values_pairs :: "url_Values \<Rightarrow> (string \<times> string) list" where
  "Values_pairs m = concat (map (\<lambda>k. map (Pair k) (Values_Lookup m k)) (sort (map fst m)))"

definition Encode :: "url_Values \<Rightarrow> string" where
  "Encode m = strings_Join (map (\<lambda>(k, v). encode_field k v) (Values_pairs m)) ''&''"

lemma add_field_encode: "add_field m (encode_field k v) = Values_Add m k v"
proof -
  have "strings_Cut (encode_field k v) (CHR ''='') = (QueryEscape k, QueryEscape v, True)"
    by (simp add: encode_field_def strings_Cut_found)
  then show ?thesis by (simp add: add_field_def) (simp add: encode_field_def)
qed

lemma encode_field_no_amp: "CHR ''&'' \<notin> set (encode_field k v)"
  by (simp add: encode_field_def)

lemma ParseQuery_fields:
  assumes "list_all (\<lambda>f. CHR ''&'' \<notin> set f) fs"
  shows "ParseQuery (strings_Join fs ''&'') = foldl add_field [] fs"
proof (cases "fs = []")
  case True
  then show ?thesis by (simp add: ParseQuery_def strings_Join_def add_field_def)
next
  case False
  then show ?thesis using assms by (simp add: ParseQuery_def strings_Split_Join)
qed

lemma foldl_encode:
  "foldl add_field m (map (\<lambda>(k, v). encode_field k v) ps) = foldl (\<lambda>m (k, v). Values_Add m k v) m ps"
  by (induction ps arbitrary: m) (auto simp: add_field_encode)

lemma Lookup_foldl_Add:
  "Values_Lookup (foldl (\<lambda>m (k, v). Values_Add m k v) m ps) k =
     Values_Lookup m k @ map snd (filter (\<lambda>p. fst p = k) ps)"
  by (induction ps arbitrary: m) auto

lemma filter_pairs:
  "distinct ks \<Longrightarrow>
     map snd (filter (\<lambda>p. fst p = k) (concat (map (\<lambda>k. map (Pair k) (f k)) ks))) = (if k \<in> set ks then f k else [])"
  by (induction ks) (auto simp: filter_map comp_def filter_empty_conv)

theorem Lookup_ParseQuery_Encode:
  assumes "distinct (map fst m)"
  shows "Values_Lookup (ParseQuery (Encode m)) k = Values_Lookup m k"
proof -
  have "ParseQuery (Encode m) = foldl (\<lambda>m (k, v). Values_Add m k v) [] (Values_pairs m)"
    unfolding Encode_def
    by (subst ParseQuery_fields) (auto simp: list_all_iff encode_field_no_amp foldl_encode)
  then have "Values_Lookup (ParseQuery (Encode m)) k = map snd (filter (\<lambda>p. fst p = k) (Values_pairs m))"
    by (simp add: Lookup_foldl_Add)
  also have "\<dots> = (if k \<in> fst ` set m then Values_Lookup m k else [])"
    using assms by (simp add: Values_pairs_def filter_pairs)
  also have "\<dots> = Values_Lookup m k"
    by (simp add: Values_Lookup_def map_of_eq_None_iff [THEN iffD2])
  finally show ?thesis .
qed

lemma ParseQuery_distinct: "distinct (map fst (ParseQuery q))"
proof -
  have "distinct (map fst m) \<Longrightarrow> distinct (map fst (foldl add_field m fs))" for m fs
    by (induction fs arbitrary: m)
      (auto simp: add_field_def Values_Add_def Values_update_distinct Let_def split: prod.splits option.splits)
  then show ?thesis by (simp add: ParseQuery_def)
qed

text \<open>Writing a changed copy of a query and reading it again.\<close>

corollary Lookup_reencoded_Set:
  "Values_Lookup (ParseQuery (Encode (Values_Set (ParseQuery q) k v))) k' =
     (if k' = k then [v] else Values_Lookup (ParseQuery q) k')"
  by (simp add: Lookup_ParseQuery_Encode Values_Set_def Values_update_distinct ParseQuery_distinct)

text \<open>A field appended to the text of a query comes after the values the query already has.\<close>

lemma strings_Split_append_sep: "strings_Split (a @ c # b) c = strings_Split a c @ strings_Split b c"
  by (induction a) (auto split: list.splits)

lemma ParseQuery_append:
  "ParseQuery (q @ ''&'' @ encode_field k v) = Values_Add (ParseQuery q) k v"
  by (simp add: ParseQuery_def strings_Split_append_sep strings_Split_plain encode_field_no_amp add_field_encode)

lemma ParseQuery_single: "ParseQuery (encode_field k v) = Values_Add [] k v"
  by (simp add: ParseQuery_def strings_Split_plain encode_field_no_amp add_field_encode)

end
