(* ===== verification/GoErrors.thy ===== *)
theory GoErrors
  imports GoStd
begin

text \<open>
  Errors as the infrastructure code sees them: a text and the sentinel values that \<open>errors.Is\<close> and
  \<open>errors.As\<close> find in the chain behind it; the ways a Go function can end; and the logger.
\<close>

section \<open>Errors\<close>

text \<open>A piece of a message: literal text, or a value printed by \<open>%q\<close>.\<close>

datatype text_part = Txt string | Quo string

datatype sentinel =
    ErrNoChange        \<comment> \<open>\<open>migrate.ErrNoChange\<close>\<close>
  | ErrFailed          \<comment> \<open>\<open>redsync.ErrFailed\<close>\<close>
  | ErrTaken           \<comment> \<open>\<open>*redsync.ErrTaken\<close>\<close>
  | ErrServerClosed    \<comment> \<open>\<open>http.ErrServerClosed\<close>\<close>
  | ErrContextDone     \<comment> \<open>\<open>context.Canceled\<close> or \<open>context.DeadlineExceeded\<close>\<close>

record go_error =
  err_text :: "text_part list"
  err_chain :: "sentinel list"

definition errors_New :: "string \<Rightarrow> go_error" where
  "errors_New m = \<lparr>err_text = [Txt m], err_chain = []\<rparr>"

definition error_Is :: "go_error \<Rightarrow> sentinel \<Rightarrow> bool" where
  "error_Is e k \<longleftrightarrow> k \<in> set (err_chain e)"

text \<open>\<open>fmt.Errorf("...: %w", err)\<close>: the parts of the format before the verb, then the error.\<close>

definition wrap_error :: "text_part list \<Rightarrow> go_error \<Rightarrow> go_error" where
  "wrap_error ps e = \<lparr>err_text = ps @ err_text e, err_chain = err_chain e\<rparr>"

text \<open>\<open>errors.Join\<close> of an error that may be nil and one that is not.\<close>

definition join_error :: "go_error option \<Rightarrow> go_error \<Rightarrow> go_error" where
  "join_error a e =
     (case a of None \<Rightarrow> e
      | Some a' \<Rightarrow> \<lparr>err_text = err_text a' @ [Txt [CHR 0x0A]] @ err_text e, err_chain = err_chain a' @ err_chain e\<rparr>)"

lemma error_Is_wrap [simp]: "error_Is (wrap_error ps e) k = error_Is e k"
  by (simp add: error_Is_def wrap_error_def)

lemma error_Is_join [simp]:
  "error_Is (join_error a e) k \<longleftrightarrow> error_Is e k \<or> (\<exists>a'. a = Some a' \<and> error_Is a' k)"
  by (auto simp: error_Is_def join_error_def split: option.splits)

text \<open>How a function ends: it returns an error or nil, or it panics.\<close>

datatype go_exit = Ret "go_error option" | Panic string

section \<open>Operations and resources\<close>

text \<open>A call that may fail and returns nothing else, and one that returns a value or an error.\<close>

type_synonym 's action = "'s \<Rightarrow> go_error option \<times> 's"
type_synonym ('s, 'a) acquire = "'s \<Rightarrow> (go_error + 'a) \<times> 's"

text \<open>\<open>*slog.Logger\<close>: a level and a message; the attributes of a record are left out.\<close>

datatype log_level = Info | Warn | ErrorLevel

type_synonym 's slog = "log_level \<Rightarrow> string \<Rightarrow> 's \<Rightarrow> 's"

end
