(* ===== verification/SqlDatabase.thy ===== *)
theory SqlDatabase
  imports GoErrors ConfigTypes
begin

text \<open>
  Access to the SQL database (\<open>internal/database\<close>): opening the pool for the configured type of
  database, and \<open>Transactor.Within\<close>, which runs a function inside a transaction. The driver
  (\<open>database/sql\<close> with pgx or mysql behind it) is a record of operations; what the code relies
  on is the locale \<open>sql_database\<close>.
\<close>

section \<open>The driver\<close>

record ('s, 't, 'o) sql_DB =
  sql_BeginTxx :: "'o option \<Rightarrow> ('s, 't) acquire"
  sql_Exec :: "'t \<Rightarrow> string \<Rightarrow> string list \<Rightarrow> 's action"
  sql_Commit :: "'t \<Rightarrow> 's action"
  sql_Rollback :: "'t \<Rightarrow> 's action"
  sql_Close :: "'s action"

section \<open>Opening the pool\<close>

text \<open>
  The settings of the two drivers, as far as the code reads or writes them; the rest of a parsed
  data source name is opaque. Parsing, printing, time zones and the pool itself are the libraries'.
\<close>

record 'p pgx_Config =
  pgx_Database :: string
  pgx_RuntimeParams :: "string \<rightharpoonup> string"
  pgx_rest :: 'p

record ('l, 'p) mysql_Config =
  my_DBName :: string
  my_ParseTime :: bool
  my_Loc :: 'l
  my_rest :: 'p

record ('s, 'h, 'l, 'p, 'q) sql_lib =
  lib_pgx_ParseConfig :: "string \<Rightarrow> go_error + 'p pgx_Config"
  lib_stdlib_OpenDB :: "'p pgx_Config \<Rightarrow> 's \<Rightarrow> 'h \<times> 's"
  lib_mysql_ParseDSN :: "string \<Rightarrow> go_error + ('l, 'q) mysql_Config"
  lib_FormatDSN :: "('l, 'q) mysql_Config \<Rightarrow> string"
  lib_LoadLocation :: "string \<Rightarrow> go_error + 'l"
  lib_sqlx_Open :: "string \<Rightarrow> string \<Rightarrow> ('s, 'h) acquire"
  lib_SetMaxOpenConns :: "'h \<Rightarrow> int \<Rightarrow> 's \<Rightarrow> 's"
  lib_SetMaxIdleConns :: "'h \<Rightarrow> int \<Rightarrow> 's \<Rightarrow> 's"
  lib_SetConnMaxLifetime :: "'h \<Rightarrow> duration \<Rightarrow> 's \<Rightarrow> 's"
  lib_SetConnMaxIdleTime :: "'h \<Rightarrow> duration \<Rightarrow> 's \<Rightarrow> 's"
  lib_PingContext :: "'h \<Rightarrow> duration \<Rightarrow> 's action"
  lib_db_Close :: "'h \<Rightarrow> 's action"

definition driverName :: "string \<Rightarrow> go_error + string" where
  "driverName dbType =
     (if dbType = ''mysql'' then Inr ''mysql''
      else if dbType = ''postgres'' \<or> dbType = ''kingbase'' then Inr ''pgx''
      else Inl \<lparr>err_text = [Txt ''unsupported database type '', Quo dbType], err_chain = []\<rparr>)"

definition pgx_settings :: "Database \<Rightarrow> 'p pgx_Config \<Rightarrow> 'p pgx_Config" where
  "pgx_settings cfg c =
     (let c1 = (if db_Name cfg \<noteq> '''' then c\<lparr>pgx_Database := db_Name cfg\<rparr> else c);
          ps = (if db_Schema cfg \<noteq> '''' then (pgx_RuntimeParams c1)(''search_path'' \<mapsto> db_Schema cfg) else pgx_RuntimeParams c1)
      in c1\<lparr>pgx_RuntimeParams := ps(''timezone'' \<mapsto> ''Asia/Shanghai'')\<rparr>)"

definition open_pool :: "('s, 'h, 'l, 'p, 'q) sql_lib \<Rightarrow> Database \<Rightarrow> string \<Rightarrow> ('s, 'h) acquire" where
  "open_pool lib cfg driver s =
     (if driver = ''pgx'' then
        (case lib_pgx_ParseConfig lib (db_DSN cfg) of
           Inl e \<Rightarrow> (Inl (wrap_error [Txt ''parse database dsn: ''] e), s)
         | Inr c \<Rightarrow> (case lib_stdlib_OpenDB lib (pgx_settings cfg c) s of (h, s1) \<Rightarrow> (Inr h, s1)))
      else if driver = ''mysql'' then
        (case lib_mysql_ParseDSN lib (db_DSN cfg) of
           Inl e \<Rightarrow> (Inl (wrap_error [Txt ''parse database dsn: ''] e), s)
         | Inr c \<Rightarrow>
             (let c1 = (if db_Name cfg \<noteq> '''' then c\<lparr>my_DBName := db_Name cfg\<rparr> else c) in
              case lib_LoadLocation lib ''Asia/Shanghai'' of
                Inl e \<Rightarrow> (Inl (wrap_error [Txt ''load database timezone: ''] e), s)
              | Inr loc \<Rightarrow>
                  (case lib_sqlx_Open lib driver (lib_FormatDSN lib (c1\<lparr>my_ParseTime := True, my_Loc := loc\<rparr>)) s of
                     (Inl e, s1) \<Rightarrow> (Inl (wrap_error [Txt ''open database: ''] e), s1)
                   | (Inr h, s1) \<Rightarrow> (Inr h, s1))))
      else
        (case lib_sqlx_Open lib driver (db_DSN cfg) s of
           (Inl e, s1) \<Rightarrow> (Inl (wrap_error [Txt ''open database: ''] e), s1)
         | (Inr h, s1) \<Rightarrow> (Inr h, s1)))"

definition database_Open :: "('s, 'h, 'l, 'p, 'q) sql_lib \<Rightarrow> Database \<Rightarrow> ('s, 'h) acquire" where
  "database_Open lib cfg s =
     (case driverName (db_Type cfg) of
        Inl e \<Rightarrow> (Inl e, s)
      | Inr driver \<Rightarrow>
          (case open_pool lib cfg driver s of
             (Inl e, s1) \<Rightarrow> (Inl e, s1)
           | (Inr h, s1) \<Rightarrow>
               (let s2 = lib_SetMaxOpenConns lib h (db_MaxOpenConns cfg) s1;
                    s3 = lib_SetMaxIdleConns lib h (db_MaxIdleConns cfg) s2;
                    s4 = lib_SetConnMaxLifetime lib h (db_ConnMaxLifetime cfg) s3;
                    s5 = lib_SetConnMaxIdleTime lib h (db_ConnMaxIdleTime cfg) s4
                in case lib_PingContext lib h (db_PingTimeout cfg) s5 of
                     (Some e, s6) \<Rightarrow> (Inl (wrap_error [Txt ''ping database: ''] e), snd (lib_db_Close lib h s6))
                   | (None, s6) \<Rightarrow> (Inr h, s6))))"

text \<open>The drivers the code opens are exactly those of the types the configuration accepts.\<close>

lemma driverName_iff: "(\<exists>d. driverName t = Inr d) \<longleftrightarrow> t \<in> {''mysql'', ''postgres'', ''kingbase''}"
  by (auto simp: driverName_def)

section \<open>Transactions\<close>

record ('s, 't, 'o) Transactor =
  tr_db :: "('s, 't, 'o) sql_DB option"

definition NewTransactor :: "('s, 't, 'o) sql_DB option \<Rightarrow> ('s, 't, 'o) Transactor" where
  "NewTransactor db = \<lparr>tr_db = db\<rparr>"

definition Available :: "('s, 't, 'o) Transactor \<Rightarrow> bool" where
  "Available t \<longleftrightarrow> tr_db t \<noteq> None"

text \<open>
  \<open>rollback transaction after %v: %w\<close>: both texts are printed, but only the rollback error is wrapped.
\<close>

definition rollback_error :: "go_error \<Rightarrow> go_error \<Rightarrow> go_error" where
  "rollback_error e r = wrap_error (Txt ''rollback transaction after '' # err_text e @ [Txt '': '']) r"

definition Within ::
  "('s, 't, 'o) Transactor \<Rightarrow> 'o option \<Rightarrow> ('t \<Rightarrow> 's \<Rightarrow> go_exit \<times> 's) \<Rightarrow> 's \<Rightarrow> go_exit \<times> 's" where
  "Within t opts fn s =
     (case tr_db t of
        None \<Rightarrow> (Ret (Some (errors_New ''begin transaction: database is disabled'')), s)
      | Some d \<Rightarrow>
          (case sql_BeginTxx d opts s of
             (Inl e, s1) \<Rightarrow> (Ret (Some (wrap_error [Txt ''begin transaction: ''] e)), s1)
           | (Inr tx, s1) \<Rightarrow>
               (case fn tx s1 of
                  (Panic v, s2) \<Rightarrow> (Panic v, s2)
                | (Ret (Some e), s2) \<Rightarrow>
                    (case sql_Rollback d tx s2 of
                       (Some r, s3) \<Rightarrow> (Ret (Some (rollback_error e r)), s3)
                     | (None, s3) \<Rightarrow> (Ret (Some e), s3))
                | (Ret None, s2) \<Rightarrow>
                    (case sql_Commit d tx s2 of
                       (Some e, s3) \<Rightarrow> (Ret (Some (wrap_error [Txt ''commit transaction: ''] e)), s3)
                     | (None, s3) \<Rightarrow> (Ret None, s3)))))"

text \<open>
  What a database promises. \<open>committed\<close> is what every other connection sees, \<open>staged t\<close> what the
  open transaction \<open>t\<close> sees, \<open>active\<close> the transactions that hold a connection. Ending a
  transaction releases its connection whether it succeeds or not; a commit that fails may or may
  not have taken effect, a rollback never changes what others see.
\<close>

locale sql_database =
  fixes d :: "('s, 't, 'o) sql_DB"
    and committed :: "'s \<Rightarrow> 'd"
    and staged :: "'t \<Rightarrow> 's \<Rightarrow> 'd"
    and active :: "'s \<Rightarrow> 't set"
  assumes begin_ok: "sql_BeginTxx d opts s = (Inr t, s') \<Longrightarrow>
      t \<notin> active s \<and> active s' = insert t (active s) \<and> committed s' = committed s \<and> staged t s' = committed s"
    and begin_failed: "sql_BeginTxx d opts s = (Inl e, s') \<Longrightarrow> active s' = active s \<and> committed s' = committed s"
    and exec_local: "t \<in> active s \<Longrightarrow> sql_Exec d t q args s = (r, s') \<Longrightarrow>
      active s' = active s \<and> committed s' = committed s"
    and commit_ok: "t \<in> active s \<Longrightarrow> sql_Commit d t s = (None, s') \<Longrightarrow>
      active s' = active s - {t} \<and> committed s' = staged t s"
    and commit_failed: "t \<in> active s \<Longrightarrow> sql_Commit d t s = (Some e, s') \<Longrightarrow>
      active s' = active s - {t} \<and> (committed s' = committed s \<or> committed s' = staged t s)"
    and rollback_done: "t \<in> active s \<Longrightarrow> sql_Rollback d t s = (r, s') \<Longrightarrow>
      active s' = active s - {t} \<and> committed s' = committed s"
    and rollback_again: "t \<notin> active s \<Longrightarrow> snd (sql_Rollback d t s) = s"
begin

text \<open>A function that works inside a transaction: it neither commits nor opens or ends transactions.\<close>

definition inside :: "('t \<Rightarrow> 's \<Rightarrow> 'r \<times> 's) \<Rightarrow> bool" where
  "inside f \<longleftrightarrow> (\<forall>t s. t \<in> active s \<longrightarrow> active (snd (f t s)) = active s \<and> committed (snd (f t s)) = committed s)"

lemma insideD:
  "inside f \<Longrightarrow> t \<in> active s \<Longrightarrow> f t s = (r, s') \<Longrightarrow> active s' = active s \<and> committed s' = committed s"
  unfolding inside_def by (metis snd_conv)

text \<open>The outcomes of a transaction, one lemma per way it can end.\<close>

lemma within_success:
  assumes "inside fn" and "Within (NewTransactor (Some d)) opts fn s = (Ret None, s')"
  shows "\<exists>t s1 s2. sql_BeginTxx d opts s = (Inr t, s1) \<and> fn t s1 = (Ret None, s2) \<and>
    committed s' = staged t s2 \<and> active s' = active s"
proof -
  obtain t s1 s2 where *: "sql_BeginTxx d opts s = (Inr t, s1)" "fn t s1 = (Ret None, s2)" "sql_Commit d t s2 = (None, s')"
    using assms(2) by (auto simp: Within_def NewTransactor_def split: sum.splits prod.splits go_exit.splits option.splits)
  have "t \<notin> active s" "active s1 = insert t (active s)" using begin_ok [OF *(1)] by auto
  moreover have "active s2 = active s1" using insideD [OF assms(1) _ *(2)] calculation by simp
  ultimately show ?thesis using commit_ok [OF _ *(3)] * by auto
qed

lemma within_error:
  assumes "inside fn" and "Within (NewTransactor (Some d)) opts fn s = (Ret (Some e), s')"
  shows "active s' = active s \<and>
    (committed s' = committed s \<or>
     (\<exists>t s1 s2 c. sql_BeginTxx d opts s = (Inr t, s1) \<and> fn t s1 = (Ret None, s2) \<and>
        sql_Commit d t s2 = (Some c, s') \<and> committed s' = staged t s2))"
proof (cases "sql_BeginTxx d opts s")
  case (Pair b s1)
  show ?thesis
  proof (cases b)
    case (Inl f)
    then show ?thesis using assms(2) Pair begin_failed by (auto simp: Within_def NewTransactor_def)
  next
    case (Inr t)
    obtain r s2 where f: "fn t s1 = (r, s2)" by fastforce
    have b: "t \<notin> active s" "active s1 = insert t (active s)" "committed s1 = committed s"
      using begin_ok Pair Inr by auto
    then have w: "active s2 = active s1" "committed s2 = committed s1" "t \<in> active s2"
      using insideD [OF assms(1) _ f] by auto
    show ?thesis
      using assms(2) Pair Inr f b w rollback_done [OF w(3)] commit_failed [OF w(3)]
      by (fastforce simp: Within_def NewTransactor_def split: go_exit.splits option.splits prod.splits)
  qed
qed

lemma within_panic:
  assumes "inside fn" and "Within (NewTransactor (Some d)) opts fn s = (Panic v, s')"
  shows "committed s' = committed s \<and> (\<exists>t. t \<notin> active s \<and> active s' = insert t (active s))"
proof -
  obtain t s1 where *: "sql_BeginTxx d opts s = (Inr t, s1)" "fn t s1 = (Panic v, s')"
    using assms(2) by (auto simp: Within_def NewTransactor_def split: sum.splits prod.splits go_exit.splits option.splits)
  show ?thesis using begin_ok [OF *(1)] insideD [OF assms(1) _ *(2)] by auto
qed

end

section \<open>A database in memory\<close>

text \<open>
  The laws hold of a store that keeps the statements executed so far: a transaction works on its
  own copy, a commit installs the copy. \<open>ms_faults\<close> decides which calls fail.
\<close>

record mem_sql =
  ms_data :: "string list"
  ms_open :: "(nat \<times> string list) list"
  ms_next :: nat
  ms_faults :: "go_error option list"

definition mem_fault :: "'z mem_sql_scheme \<Rightarrow> go_error option" where
  "mem_fault s = (case ms_faults s of [] \<Rightarrow> None | f # _ \<Rightarrow> f)"

definition mem_tick :: "'z mem_sql_scheme \<Rightarrow> 'z mem_sql_scheme" where
  "mem_tick s = s\<lparr>ms_faults := tl (ms_faults s)\<rparr>"

definition mem_committed :: "'z mem_sql_scheme \<Rightarrow> string list" where
  "mem_committed s = ms_data s"

definition mem_staged :: "nat \<Rightarrow> 'z mem_sql_scheme \<Rightarrow> string list" where
  "mem_staged t s = (case map_of (ms_open s) t of None \<Rightarrow> [] | Some d \<Rightarrow> d)"

definition mem_active :: "'z mem_sql_scheme \<Rightarrow> nat set" where
  "mem_active s = set (filter (\<lambda>t. t < ms_next s) (map fst (ms_open s)))"

definition mem_Begin :: "unit option \<Rightarrow> ('z mem_sql_scheme, nat) acquire" where
  "mem_Begin opts s =
     (case mem_fault s of
        Some e \<Rightarrow> (Inl e, mem_tick s)
      | None \<Rightarrow> (Inr (ms_next s), (mem_tick s)\<lparr>ms_open := (ms_next s, ms_data s) # ms_open s, ms_next := Suc (ms_next s)\<rparr>))"

definition mem_Exec :: "nat \<Rightarrow> string \<Rightarrow> string list \<Rightarrow> 'z mem_sql_scheme action" where
  "mem_Exec t q args s =
     (case mem_fault s of
        Some e \<Rightarrow> (Some e, mem_tick s)
      | None \<Rightarrow> (None, (mem_tick s)\<lparr>ms_open := map (\<lambda>(u, d). if u = t then (u, d @ [q]) else (u, d)) (ms_open s)\<rparr>))"

definition mem_end :: "nat \<Rightarrow> 'z mem_sql_scheme \<Rightarrow> 'z mem_sql_scheme" where
  "mem_end t s = s\<lparr>ms_open := filter (\<lambda>(u, _). u \<noteq> t) (ms_open s)\<rparr>"

definition mem_Commit :: "nat \<Rightarrow> 'z mem_sql_scheme action" where
  "mem_Commit t s =
     (case mem_fault s of
        Some e \<Rightarrow> (Some e, mem_end t (mem_tick s))
      | None \<Rightarrow> (None, (mem_end t (mem_tick s))\<lparr>ms_data := mem_staged t s\<rparr>))"

definition mem_Rollback :: "nat \<Rightarrow> 'z mem_sql_scheme action" where
  "mem_Rollback t s = (if t \<in> mem_active s then (mem_fault s, mem_end t (mem_tick s)) else (None, s))"

definition mem_DB :: "('z mem_sql_scheme, nat, unit) sql_DB" where
  "mem_DB = \<lparr>sql_BeginTxx = mem_Begin, sql_Exec = mem_Exec, sql_Commit = mem_Commit, sql_Rollback = mem_Rollback,
     sql_Close = (\<lambda>s. (None, s))\<rparr>"

lemmas mem_sql_defs = mem_Begin_def mem_Exec_def mem_Commit_def mem_Rollback_def mem_end_def mem_tick_def
  mem_committed_def mem_active_def mem_DB_def

lemma mem_active_end: "mem_active (mem_end t (mem_tick s)) = mem_active s - {t}"
  by (auto simp: mem_sql_defs)

lemma mem_Exec_keeps: "mem_active (snd (mem_Exec t q args s)) = mem_active s" "mem_committed (snd (mem_Exec t q args s)) = mem_committed s"
proof -
  have "fst \<circ> (\<lambda>(u, d). if u = t then (u, d @ [q]) else (u, d)) = (fst :: nat \<times> string list \<Rightarrow> nat)"
    by auto
  then show "mem_active (snd (mem_Exec t q args s)) = mem_active s"
    by (simp add: mem_active_def mem_Exec_def mem_tick_def image_comp split: option.splits)
qed (simp add: mem_sql_defs split: option.splits)

interpretation mem_sql: sql_database mem_DB mem_committed mem_staged mem_active
proof unfold_locales
  fix opts :: "unit option" and s s' t
  assume "sql_BeginTxx mem_DB opts s = (Inr t, s')"
  then show "t \<notin> mem_active s \<and> mem_active s' = insert t (mem_active s) \<and>
      mem_committed s' = mem_committed s \<and> mem_staged t s' = mem_committed s"
    by (auto simp: mem_sql_defs mem_staged_def less_Suc_eq image_iff split: option.splits)
next
  fix opts :: "unit option" and s s' e
  assume "sql_BeginTxx mem_DB opts s = (Inl e, s')"
  then show "mem_active s' = mem_active s \<and> mem_committed s' = mem_committed s"
    by (auto simp: mem_sql_defs split: option.splits)
next
  fix t s q args r s'
  assume "sql_Exec mem_DB t q args s = (r, s')"
  then show "mem_active s' = mem_active s \<and> mem_committed s' = mem_committed s"
    using mem_Exec_keeps [of t q args s] by (simp add: mem_DB_def)
next
  fix t s s'
  assume "sql_Commit mem_DB t s = (None, s')"
  then show "mem_active s' = mem_active s - {t} \<and> mem_committed s' = mem_staged t s"
    by (auto simp: mem_sql_defs split: option.splits)
next
  fix t s s' e
  assume "sql_Commit mem_DB t s = (Some e, s')"
  then show "mem_active s' = mem_active s - {t} \<and> (mem_committed s' = mem_committed s \<or> mem_committed s' = mem_staged t s)"
    by (auto simp: mem_sql_defs split: option.splits)
next
  fix t s r s'
  assume "t \<in> mem_active s" and "sql_Rollback mem_DB t s = (r, s')"
  then show "mem_active s' = mem_active s - {t} \<and> mem_committed s' = mem_committed s"
    by (auto simp: mem_sql_defs)
next
  fix t s
  assume "t \<notin> mem_active s"
  then show "snd (sql_Rollback mem_DB t s) = s"
    by (simp add: mem_DB_def mem_Rollback_def)
qed

section \<open>Transactions are atomic\<close>

text \<open>
  C13. A transaction run by \<open>Transactor.Within\<close> is all or nothing, on any database that keeps
  the laws. When it returns nil, the function was run in a fresh transaction and returned nil, and what others
  see is exactly what it left in the transaction. When it returns an error, no connection is
  lost and nothing of the function's work is visible, unless the function had succeeded and the
  commit itself failed, in which case the database may have kept the work. When the function
  panics nothing becomes visible, but its transaction keeps its connection: nothing rolls it back.
\<close>

theorem transaction_atomic:
  assumes "sql_database d committed staged active"
    and "\<And>t s. t \<in> active s \<Longrightarrow> active (snd (fn t s)) = active s \<and> committed (snd (fn t s)) = committed s"
    and "Within (NewTransactor (Some d)) opts fn s = (r, s')"
  shows "case r of
      Ret None \<Rightarrow> \<exists>t s1 s2. sql_BeginTxx d opts s = (Inr t, s1) \<and> fn t s1 = (Ret None, s2) \<and>
        committed s' = staged t s2 \<and> active s' = active s
    | Ret (Some e) \<Rightarrow> active s' = active s \<and>
        (committed s' = committed s \<or>
         (\<exists>t s1 s2 c. sql_BeginTxx d opts s = (Inr t, s1) \<and> fn t s1 = (Ret None, s2) \<and>
            sql_Commit d t s2 = (Some c, s') \<and> committed s' = staged t s2))
    | Panic v \<Rightarrow> committed s' = committed s \<and> (\<exists>t. t \<notin> active s \<and> active s' = insert t (active s))"
proof -
  have "sql_database.inside committed active fn"
    using assms(2) by (simp add: sql_database.inside_def [OF assms(1)])
  note facts = sql_database.within_success [OF assms(1) this] sql_database.within_error [OF assms(1) this]
    sql_database.within_panic [OF assms(1) this]
  show ?thesis using assms(3) facts by (auto split: go_exit.splits option.splits)
qed

definition demo_sql :: mem_sql where
  "demo_sql = \<lparr>ms_data = [''a''], ms_open = [], ms_next = 0, ms_faults = []\<rparr>"

text \<open>A function that writes and then fails: its statement is gone, the connection is back.\<close>

definition demo_fn :: "nat \<Rightarrow> mem_sql \<Rightarrow> go_exit \<times> mem_sql" where
  "demo_fn t s = (Ret (Some (errors_New ''no'')), snd (mem_Exec t ''b'' [] s))"

lemma demo_fn_inside:
  "t \<in> mem_active s \<Longrightarrow> mem_active (snd (demo_fn t s)) = mem_active s \<and> mem_committed (snd (demo_fn t s)) = mem_committed s"
  by (simp add: demo_fn_def mem_Exec_keeps)

lemma demo_sql_run:
  "Within (NewTransactor (Some mem_DB)) None demo_fn demo_sql = (Ret (Some (errors_New ''no'')), demo_sql\<lparr>ms_next := 1\<rparr>)"
  by (simp add: Within_def NewTransactor_def demo_sql_def demo_fn_def mem_sql_defs mem_fault_def)

theorem transaction_atomic_witness:
  "Within (NewTransactor (Some mem_DB)) None demo_fn demo_sql = (Ret (Some (errors_New ''no'')), demo_sql\<lparr>ms_next := 1\<rparr>) \<and>
   mem_active (demo_sql\<lparr>ms_next := 1\<rparr>) = mem_active demo_sql"
  using transaction_atomic [OF mem_sql.sql_database_axioms demo_fn_inside demo_sql_run] demo_sql_run by simp

end
