(* ===== verification/Migration.thy ===== *)
theory Migration
  imports GoUrl SqlDatabase ConfigLoad
begin

text \<open>
  Schema migrations: \<open>internal/migration/migration.go\<close>, the step of the service's start that runs
  them (\<open>runStartupMigration\<close> of \<open>internal/app/app.go\<close>) and the command \<open>cmd/migrate\<close>. The
  migration library, the SQL driver, the file system and the parts of \<open>net/url\<close> outside the query
  are records of operations.
\<close>

section \<open>The address of the database\<close>

text \<open>A parsed URL: the two fields the code changes; the rest is opaque.\<close>

record 'u goURL =
  url_Path :: string
  url_RawQuery :: string
  url_rest :: 'u

record 'u url_lib =
  url_Parse :: "string \<Rightarrow> go_error + 'u goURL"
  url_String :: "'u goURL \<Rightarrow> string"
  url_File :: "string \<Rightarrow> string"   \<comment> \<open>\<open>(&url.URL{Scheme: "file", Path: p}).String()\<close>\<close>

definition url_Query :: "'u goURL \<Rightarrow> url_Values" where
  "url_Query u = ParseQuery (url_RawQuery u)"

definition mysql_prefix :: string where
  "mysql_prefix = ''mysql://''"

text \<open>The name of the database in a MySQL address: between the last slash and the query.\<close>

definition with_database_name :: "string \<Rightarrow> string \<Rightarrow> go_error + string" where
  "with_database_name databaseURL databaseName =
     (if databaseName = '''' then Inr databaseURL
      else let queryIndex = strings_IndexByte databaseURL (CHR ''?'');
               pathEnd = (if queryIndex \<ge> 0 then queryIndex else int (length databaseURL));
               slash = strings_LastIndexByte (take (nat pathEnd) databaseURL) (CHR ''/'')
           in if slash < 0 then Inl (errors_New ''mysql migration URL is missing database path'')
              else Inr (take (nat (slash + 1)) databaseURL @ databaseName @ drop (nat pathEnd) databaseURL))"

definition with_table :: "string \<Rightarrow> string \<Rightarrow> string" where
  "with_table databaseURL table =
     (if table = '''' then databaseURL
      else databaseURL @ (if CHR ''?'' \<in> set databaseURL then ''&'' else ''?'') @ ''x-migrations-table='' @ QueryEscape table)"

definition withMigrationOptions :: "'u url_lib \<Rightarrow> string \<Rightarrow> string \<Rightarrow> string \<Rightarrow> string \<Rightarrow> go_error + string" where
  "withMigrationOptions U databaseURL databaseName table schema =
     (if databaseName = '''' \<and> table = '''' \<and> schema = '''' then Inr databaseURL
      else if strings_HasPrefix databaseURL mysql_prefix then
        (case with_database_name databaseURL databaseName of
           Inl e \<Rightarrow> Inl e
         | Inr url \<Rightarrow> Inr (with_table url table))
      else
        (case url_Parse U databaseURL of
           Inl e \<Rightarrow> Inl (wrap_error [Txt ''parse migration database URL: ''] e)
         | Inr parsed \<Rightarrow>
             (let query = url_Query parsed;
                  parsed = (if databaseName \<noteq> '''' then parsed\<lparr>url_Path := ''/'' @ databaseName\<rparr> else parsed);
                  query = (if table \<noteq> '''' then Values_Set query ''x-migrations-table'' table else query);
                  query = (if schema \<noteq> '''' then Values_Set query ''search_path'' schema else query)
              in Inr (url_String U (parsed\<lparr>url_RawQuery := Encode query\<rparr>)))))"

section \<open>The schema\<close>

definition lock_statement :: string where
  "lock_statement = ''SELECT pg_advisory_xact_lock(hashtext($1))''"

definition schema_statement :: "string \<Rightarrow> string" where
  "schema_statement schema = ''CREATE SCHEMA IF NOT EXISTS '' @ [CHR 0x22] @ schema @ [CHR 0x22]"

definition schema_lock_key :: "string \<Rightarrow> string" where
  "schema_lock_key schema = ''service-registry-service:schema:'' @ schema"

text \<open>The deferred function of \<open>createSchema\<close>: it rolls back whenever an error is returned.\<close>

definition rolled_back :: "('s, 't, 'o) sql_DB \<Rightarrow> 't \<Rightarrow> string \<Rightarrow> go_error \<Rightarrow> 's \<Rightarrow> go_error option \<times> 's" where
  "rolled_back d tx what e s = (Some (wrap_error [Txt (what @ '': '')] e), snd (sql_Rollback d tx s))"

definition createSchema :: "('s, 't, 'o) sql_DB \<Rightarrow> string \<Rightarrow> 's action" where
  "createSchema d schema s =
     (case sql_BeginTxx d None s of
        (Inl e, s1) \<Rightarrow> (Some (wrap_error [Txt ''begin schema creation: ''] e), s1)
      | (Inr tx, s1) \<Rightarrow>
          (case sql_Exec d tx lock_statement [schema_lock_key schema] s1 of
             (Some e, s2) \<Rightarrow> rolled_back d tx ''lock schema creation'' e s2
           | (None, s2) \<Rightarrow>
               (case sql_Exec d tx (schema_statement schema) [] s2 of
                  (Some e, s3) \<Rightarrow> rolled_back d tx ''execute schema creation'' e s3
                | (None, s3) \<Rightarrow>
                    (case sql_Commit d tx s3 of
                       (Some e, s4) \<Rightarrow> rolled_back d tx ''commit schema creation'' e s4
                     | (None, s4) \<Rightarrow> (None, s4)))))"

type_synonym ('s, 't, 'o) sql_opener = "string \<Rightarrow> string \<Rightarrow> ('s, ('s, 't, 'o) sql_DB) acquire"

definition ensureSchema :: "'u url_lib \<Rightarrow> ('s, 't, 'o) sql_opener \<Rightarrow> Migration \<Rightarrow> string \<Rightarrow> 's action" where
  "ensureSchema U sql_Open cfg databaseURL s =
     (if \<not> mig_CreateSchema cfg \<or> mig_Schema cfg = '''' \<or> strings_HasPrefix (mig_DatabaseURL cfg) mysql_prefix then (None, s)
      else if \<not> re_match validMigrationTable (mig_Schema cfg) then (Some (errors_New ''invalid migration schema''), s)
      else
        (case url_Parse U databaseURL of
           Inl e \<Rightarrow> (Some (wrap_error [Txt ''parse database URL for schema creation: ''] e), s)
         | Inr parsed \<Rightarrow>
             (let query = Values_Del (url_Query parsed) ''x-migrations-table'' in
              case sql_Open ''postgres'' (url_String U (parsed\<lparr>url_RawQuery := Encode query\<rparr>)) s of
                (Inl e, s1) \<Rightarrow> (Some (wrap_error [Txt ''open database to create schema: ''] e), s1)
              | (Inr d, s1) \<Rightarrow>
                  (case createSchema d (mig_Schema cfg) s1 of
                     (r, s2) \<Rightarrow>
                       (map_option (wrap_error [Txt ''create migration schema '', Quo (mig_Schema cfg), Txt '': '']) r,
                        snd (sql_Close d s2))))))"

section \<open>Running the migrations\<close>

record ('s, 'm) migrate_lib =
  mg_Abs :: "string \<Rightarrow> go_error + string"
  mg_New :: "string \<Rightarrow> string \<Rightarrow> ('s, 'm) acquire"
  mg_Steps :: "'m \<Rightarrow> int \<Rightarrow> 's action"
  mg_Down :: "'m \<Rightarrow> 's action"
  mg_Up :: "'m \<Rightarrow> 's action"
  mg_Close :: "'m \<Rightarrow> 's \<Rightarrow> (go_error option \<times> go_error option) \<times> 's"

definition migrate_step :: "('s, 'm) migrate_lib \<Rightarrow> 'm \<Rightarrow> string \<Rightarrow> int \<Rightarrow> 's action" where
  "migrate_step M m direction steps =
     (if steps \<noteq> 0 then mg_Steps M m steps else if direction = ''down'' then mg_Down M m else mg_Up M m)"

text \<open>The deferred function: the errors of closing the two ends are joined to the result.\<close>

definition close_migrator :: "('s, 'm) migrate_lib \<Rightarrow> 'm \<Rightarrow> go_error option \<Rightarrow> 's action" where
  "close_migrator M m runErr s =
     (case mg_Close M m s of
        ((sourceErr, databaseErr), s1) \<Rightarrow>
          (let r = (case sourceErr of None \<Rightarrow> runErr
                    | Some e \<Rightarrow> Some (join_error runErr (wrap_error [Txt ''close migration source: ''] e)));
               r = (case databaseErr of None \<Rightarrow> r
                    | Some e \<Rightarrow> Some (join_error r (wrap_error [Txt ''close migration database: ''] e)))
           in (r, s1)))"

definition migration_Run ::
    "'u url_lib \<Rightarrow> ('s, 't, 'o) sql_opener \<Rightarrow> ('s, 'm) migrate_lib \<Rightarrow> Migration \<Rightarrow> string \<Rightarrow> int \<Rightarrow> 's action" where
  "migration_Run U sql_Open M cfg direction steps s =
     (if mig_DatabaseURL cfg = '''' then (Some (errors_New ''migration.database_url is required''), s)
      else
        (case mg_Abs M (mig_Path cfg) of
           Inl e \<Rightarrow> (Some (wrap_error [Txt ''resolve migration path: ''] e), s)
         | Inr absPath \<Rightarrow>
         (case withMigrationOptions U (mig_DatabaseURL cfg) (mig_DatabaseName cfg) (mig_Table cfg) (mig_Schema cfg) of
           Inl e \<Rightarrow> (Some e, s)
         | Inr databaseURL \<Rightarrow>
         (case ensureSchema U sql_Open cfg databaseURL s of
           (Some e, s1) \<Rightarrow> (Some e, s1)
         | (None, s1) \<Rightarrow>
         (case mg_New M (url_File U absPath) databaseURL s1 of
           (Inl e, s2) \<Rightarrow> (Some (wrap_error [Txt ''create migrator: ''] e), s2)
         | (Inr m, s2) \<Rightarrow>
             (case migrate_step M m direction steps s2 of
                (Some e, s3) \<Rightarrow>
                  close_migrator M m (if error_Is e ErrNoChange then None else Some (wrap_error [Txt ''run migration: ''] e)) s3
              | (None, s3) \<Rightarrow> close_migrator M m None s3))))))"

text \<open>The step of the start of the service.\<close>

definition runStartupMigration ::
    "'u url_lib \<Rightarrow> ('s, 't, 'o) sql_opener \<Rightarrow> ('s, 'm) migrate_lib \<Rightarrow> 's slog \<Rightarrow> Config \<Rightarrow> 's action" where
  "runStartupMigration U sql_Open M log cfg s =
     (if \<not> mig_AutoUp (cfg_Migration cfg) then (None, s)
      else
        (case migration_Run U sql_Open M (cfg_Migration cfg) ''up'' 0 (log Info ''running startup database migration'' s) of
           (Some e, s1) \<Rightarrow> (Some (wrap_error [Txt ''startup database migration: ''] e), s1)
         | (None, s1) \<Rightarrow> (None, log Info ''startup database migration completed'' s1)))"

text \<open>
  The command: its flags (already parsed), what it prints to the standard error and its exit status.
\<close>

record migrate_flags =
  fl_config :: string
  fl_env :: string
  fl_direction :: string
  fl_steps :: int

datatype migrate_output = BadDirection | LoadFailed config_err | MigrationFailed go_error

definition migrate_main ::
    "(string list \<Rightarrow> string list) \<Rightarrow> 'v viper \<Rightarrow> 'u url_lib \<Rightarrow> ('s, 't, 'o) sql_opener \<Rightarrow> ('s, 'm) migrate_lib \<Rightarrow>
     migrate_flags \<Rightarrow> 's \<Rightarrow> (nat \<times> migrate_output option) \<times> 's" where
  "migrate_main visit V U sql_Open M fl s =
     (if fl_direction fl \<noteq> ''up'' \<and> fl_direction fl \<noteq> ''down'' then ((2, Some BadDirection), s)
      else
        (case LoadWithProfile visit V (fl_config fl) (fl_env fl) of
           Inl e \<Rightarrow> ((1, Some (LoadFailed e)), s)
         | Inr cfg \<Rightarrow>
             (case migration_Run U sql_Open M (cfg_Migration cfg) (fl_direction fl) (fl_steps fl) s of
                (Some e, s1) \<Rightarrow> ((1, Some (MigrationFailed e)), s1)
              | (None, s1) \<Rightarrow> ((0, None), s1))))"

end
