(* ===== verification/MigrationProperties.thy ===== *)
theory MigrationProperties
  imports Migration ConfigProperties
begin

text \<open>
  What the migration code guarantees: the address it hands to the migration library, the SQL it
  sends to create a schema, and where the schema's version ends up. The version belongs to the
  migration library, whose documented behaviour is the locale \<open>migrations\<close>.
\<close>

section \<open>The address of a MySQL database\<close>

lemma mysql_path:
  assumes "CHR ''?'' \<notin> set a" and "CHR ''?'' \<notin> set b" and "CHR ''/'' \<notin> set b"
    and "q = [] \<or> hd q = CHR ''?''" and "name \<noteq> ''''"
  shows "with_database_name (a @ ''/'' @ b @ q) name = Inr (a @ ''/'' @ name @ q)"
proof (cases q)
  case Nil
  then have "strings_IndexByte (a @ ''/'' @ b @ q) (CHR ''?'') = - 1"
    using assms by (simp add: IndexByte_absent)
  then show ?thesis using Nil assms by (simp add: with_database_name_def Let_def LastIndexByte_append nat_add_distrib)
next
  case (Cons x r)
  then have q: "q = CHR ''?'' # r" using assms(4) by simp
  have "strings_IndexByte ((a @ ''/'' @ b) @ CHR ''?'' # r) (CHR ''?'') = int (length (a @ ''/'' @ b))"
    using assms by (intro IndexByte_append) auto
  then show ?thesis
    using assms q by (simp add: with_database_name_def Let_def LastIndexByte_append nat_add_distrib)
qed

lemma mysql_prefix_simps [simp]:
  "length mysql_prefix = 8" "CHR ''/'' \<in> set mysql_prefix" "CHR ''?'' \<notin> set mysql_prefix"
  by (simp_all add: mysql_prefix_def)

text \<open>The error for a missing path is never returned: the scheme itself ends in a slash.\<close>

lemma with_database_name_total: "\<exists>r. with_database_name (mysql_prefix @ rest) name = Inr r"
proof -
  let ?u = "mysql_prefix @ rest"
  let ?pe = "if 0 \<le> strings_IndexByte ?u (CHR ''?'') then strings_IndexByte ?u (CHR ''?'') else int (length ?u)"
  have slash: "CHR ''/'' \<in> set (take n ?u)" if "8 \<le> n" for n
    using that by (simp add: take_append)
  have "8 \<le> strings_IndexByte ?u (CHR ''?'')" if "0 \<le> strings_IndexByte ?u (CHR ''?'')"
    using that by (auto simp: strings_IndexByte_def takeWhile_append split: if_splits)
  then have "8 \<le> nat ?pe" by (simp add: le_nat_iff)
  then have "0 \<le> strings_LastIndexByte (take (nat ?pe) ?u) (CHR ''/'')"
    using slash LastIndexByte_nonneg by blast
  then show ?thesis by (simp add: with_database_name_def Let_def)
qed

definition table_option :: "string \<Rightarrow> string \<Rightarrow> string" where
  "table_option q table =
     (if table = '''' then '''' else (if q = [] then ''?'' else ''&'') @ encode_field ''x-migrations-table'' table)"

lemma with_table_option:
  assumes "CHR ''?'' \<notin> set a" and "q = [] \<or> hd q = CHR ''?''"
  shows "with_table (a @ q) table = a @ q @ table_option q table"
proof -
  have "QueryEscape ''x-migrations-table'' = ''x-migrations-table''"
    by (simp add: QueryEscape_plain unreserved_def byte_def)
  moreover have "CHR ''?'' \<in> set (a @ q) \<longleftrightarrow> q \<noteq> []" using assms by (cases q) auto
  ultimately show ?thesis by (simp add: with_table_def table_option_def encode_field_def)
qed

lemma mysql_options:
  assumes "with_database_name (mysql_prefix @ rest) name = Inr (a @ q)"
    and "CHR ''?'' \<notin> set a" and "q = [] \<or> hd q = CHR ''?''" and "name \<noteq> ''''"
  shows "withMigrationOptions U (mysql_prefix @ rest) name table schema = Inr (a @ q @ table_option q table)"
  using assms by (simp add: withMigrationOptions_def strings_HasPrefix_def with_table_option)

text \<open>
  For a MySQL address the migration library gets the configured address with the name of
  the database put in place of the last segment of its path and the history table added to its query,
  user, host and existing options untouched. An address that has no path, though, is not
  refused: the database name takes the place of the host (the check for a missing path never
  fires, because the slashes of the scheme count as a path).
\<close>

lemma mysql_migration_url:
  assumes "CHR ''?'' \<notin> set host" and "CHR ''?'' \<notin> set old" and "CHR ''?'' \<notin> set name"
    and "CHR ''/'' \<notin> set old" and "q = [] \<or> hd q = CHR ''?''" and "name \<noteq> ''''"
  shows "withMigrationOptions U (mysql_prefix @ host @ ''/'' @ old @ q) name table schema =
      Inr (mysql_prefix @ host @ ''/'' @ name @ q @ table_option q table) \<and>
    withMigrationOptions U (mysql_prefix @ old @ q) name table schema =
      Inr (mysql_prefix @ name @ q @ table_option q table) \<and>
    (\<forall>rest e. withMigrationOptions U (mysql_prefix @ rest) name table schema \<noteq> Inl e)"
proof (intro conjI allI)
  have "with_database_name (mysql_prefix @ host @ ''/'' @ old @ q) name =
      Inr ((mysql_prefix @ host @ ''/'' @ name) @ q)"
    using mysql_path [of "mysql_prefix @ host" old q name] assms by simp
  from mysql_options [OF this] assms
  show "withMigrationOptions U (mysql_prefix @ host @ ''/'' @ old @ q) name table schema =
      Inr (mysql_prefix @ host @ ''/'' @ name @ q @ table_option q table)" by simp
  have "with_database_name (mysql_prefix @ old @ q) name = Inr ((mysql_prefix @ name) @ q)"
    using mysql_path [of "''mysql:/''" old q name] assms by (simp add: mysql_prefix_def)
  from mysql_options [OF this] assms
  show "withMigrationOptions U (mysql_prefix @ old @ q) name table schema =
      Inr (mysql_prefix @ name @ q @ table_option q table)" by simp
  fix rest e
  show "withMigrationOptions U (mysql_prefix @ rest) name table schema \<noteq> Inl e"
    using with_database_name_total [of rest name] assms(6)
    by (auto simp: withMigrationOptions_def strings_HasPrefix_def)
qed

text \<open>The address of the compose file, and one without a path: the host is gone.\<close>

definition demo_url :: "unit url_lib" where
  "demo_url =
     \<lparr>url_Parse = (\<lambda>u. let (p, q, _) = strings_Cut u (CHR ''?'') in Inr \<lparr>url_Path = p, url_RawQuery = q, url_rest = ()\<rparr>),
      url_String = (\<lambda>u. url_Path u @ (if url_RawQuery u = '''' then '''' else ''?'' @ url_RawQuery u)),
      url_File = (\<lambda>p. ''file://'' @ p)\<rparr>"

lemma mysql_migration_url_example:
  "withMigrationOptions demo_url (mysql_prefix @ ''app:app@tcp(mysql:3306)'' @ ''/'' @ ''app'' @ ''?tls=true'') ''orders'' ''t'' '''' =
     Inr (mysql_prefix @ ''app:app@tcp(mysql:3306)'' @ ''/'' @ ''orders'' @ ''?tls=true'' @ table_option ''?tls=true'' ''t'') \<and>
   withMigrationOptions demo_url (mysql_prefix @ ''app'' @ ''?tls=true'') ''orders'' ''t'' '''' =
     Inr (mysql_prefix @ ''orders'' @ ''?tls=true'' @ table_option ''?tls=true'' ''t'')"
  using mysql_migration_url [of "''app:app@tcp(mysql:3306)''" "''app''" "''orders''" "''?tls=true''" demo_url "''t''" "''''"]
  by simp

section \<open>The address of any other database\<close>

text \<open>
  C25. For any other address, the URL handed to the library is the configured one, parsed, with
  only its path and its query changed: the path names the configured database, reading the new
  query gives the configured history table and search path (each exactly once, whatever the address
  said before) and every other option with the values it had, and what is not configured is left as it was.
\<close>

theorem postgres_migration_url:
  assumes "\<not> strings_HasPrefix url mysql_prefix" and "url_Parse U url = Inr p"
    and "\<not> (name = '''' \<and> table = '''' \<and> schema = '''')"
  shows "\<exists>p'. withMigrationOptions U url name table schema = Inr (url_String U p') \<and>
    url_rest p' = url_rest p \<and> url_Path p' = (if name = '''' then url_Path p else ''/'' @ name) \<and>
    (\<forall>k. Values_Lookup (url_Query p') k =
       (if k = ''x-migrations-table'' \<and> table \<noteq> '''' then [table]
        else if k = ''search_path'' \<and> schema \<noteq> '''' then [schema]
        else Values_Lookup (url_Query p) k))"
proof -
  define q where "q = (if table \<noteq> '''' then Values_Set (url_Query p) ''x-migrations-table'' table else url_Query p)"
  define q' where "q' = (if schema \<noteq> '''' then Values_Set q ''search_path'' schema else q)"
  define p1 where "p1 = (if name \<noteq> '''' then p\<lparr>url_Path := ''/'' @ name\<rparr> else p)"
  have "distinct (map fst q')"
    by (simp add: q'_def q_def Values_Set_def Values_update_distinct url_Query_def ParseQuery_distinct)
  then have "Values_Lookup (url_Query (p1\<lparr>url_RawQuery := Encode q'\<rparr>)) k = Values_Lookup q' k" for k
    by (simp add: url_Query_def Lookup_ParseQuery_Encode)
  moreover have "withMigrationOptions U url name table schema = Inr (url_String U (p1\<lparr>url_RawQuery := Encode q'\<rparr>))"
    using assms(1,2) unfolding withMigrationOptions_def q'_def q_def p1_def Let_def
    by (subst if_not_P [OF assms(3)]) simp
  ultimately show ?thesis
    by (intro exI [of _ "p1\<lparr>url_RawQuery := Encode q'\<rparr>"]) (simp add: p1_def q'_def q_def)
qed

theorem postgres_migration_url_witness:
  "\<exists>p'. withMigrationOptions demo_url ''pg://db/app?sslmode=off&search_path=a'' ''orders'' ''t'' ''o 1'' = Inr (url_String demo_url p') \<and>
     url_Path p' = ''/orders'' \<and> Values_Lookup (url_Query p') ''search_path'' = [''o 1''] \<and>
     Values_Lookup (url_Query p') ''sslmode'' = [''off'']"
proof -
  have p: "url_Parse demo_url ''pg://db/app?sslmode=off&search_path=a'' =
      Inr \<lparr>url_Path = ''pg://db/app'', url_RawQuery = ''sslmode=off&search_path=a'', url_rest = ()\<rparr>"
    by (simp add: demo_url_def)
  have q: "Values_Lookup (ParseQuery ''sslmode=off&search_path=a'') ''sslmode'' = [''off'']"
    by (simp add: ParseQuery_def add_field_def Values_Add_def Values_Lookup_def)
  have m: "\<not> strings_HasPrefix ''pg://db/app?sslmode=off&search_path=a'' mysql_prefix"
    by (simp add: strings_HasPrefix_def mysql_prefix_def)
  show ?thesis
    using postgres_migration_url [OF m p, of "''orders''" "''t''" "''o 1''"] q by (auto simp: url_Query_def)
qed

section \<open>The SQL that creates a schema\<close>

text \<open>Names a schema may have: no byte of them ends the quoted identifier.\<close>

definition identifier_char :: "char \<Rightarrow> bool" where
  "identifier_char c \<longleftrightarrow> CHR ''a'' \<le> c \<and> c \<le> CHR ''z'' \<or> is_digit c \<or> c = CHR ''_''"

definition plain_identifier :: "string \<Rightarrow> bool" where
  "plain_identifier n \<longleftrightarrow> n \<noteq> [] \<and> length n \<le> 63 \<and> list_all identifier_char n"

definition safe_statement :: "string \<Rightarrow> bool" where
  "safe_statement q \<longleftrightarrow> q = lock_statement \<or> (\<exists>n. plain_identifier n \<and> q = schema_statement n)"

lemma validMigrationTable_plain: "re_match validMigrationTable n \<Longrightarrow> plain_identifier n"
proof -
  have c: "in_ranges [(CHR ''a'', CHR ''z''), (CHR ''0'', CHR ''9''), (CHR ''_'', CHR ''_'')] c \<Longrightarrow> identifier_char c" for c
  proof -
    have "is_digit c \<longleftrightarrow> CHR ''0'' \<le> c \<and> c \<le> CHR ''9''" by (simp add: is_digit_def less_eq_char_def)
    then show "in_ranges [(CHR ''a'', CHR ''z''), (CHR ''0'', CHR ''9''), (CHR ''_'', CHR ''_'')] c \<Longrightarrow> identifier_char c"
      by (auto simp: in_ranges_def identifier_char_def)
  qed
  have h: "in_ranges [(CHR ''a'', CHR ''z'')] c \<Longrightarrow> identifier_char c" for c
    by (auto simp: in_ranges_def identifier_char_def)
  assume "re_match validMigrationTable n"
  then obtain x v where "n = x # v" "in_ranges [(CHR ''a'', CHR ''z'')] x" "length v \<le> 62"
      "list_all (in_ranges [(CHR ''a'', CHR ''z''), (CHR ''0'', CHR ''9''), (CHR ''_'', CHR ''_'')]) v"
    by (auto simp only: validMigrationTable_def re_match_iff lang_cls_cat lang_upto_cls)
  then show ?thesis using c h by (auto simp: plain_identifier_def list_all_iff)
qed

text \<open>A database that behaves arbitrarily on every statement that is not one of the safe ones.\<close>

definition guarded :: "('t \<Rightarrow> string \<Rightarrow> string list \<Rightarrow> 's action) \<Rightarrow> ('s, 't, 'o) sql_DB \<Rightarrow> ('s, 't, 'o) sql_DB" where
  "guarded bad d = d\<lparr>sql_Exec := (\<lambda>t q args s. if safe_statement q then sql_Exec d t q args s else bad t q args s)\<rparr>"

definition guarded_open ::
    "('t \<Rightarrow> string \<Rightarrow> string list \<Rightarrow> 's action) \<Rightarrow> ('s, 't, 'o) sql_opener \<Rightarrow> ('s, 't, 'o) sql_opener" where
  "guarded_open bad sql_Open driver dsn s =
     (case sql_Open driver dsn s of (Inl e, s1) \<Rightarrow> (Inl e, s1) | (Inr d, s1) \<Rightarrow> (Inr (guarded bad d), s1))"

lemma createSchema_guarded:
  "plain_identifier n \<Longrightarrow> createSchema (guarded bad d) n = createSchema d n"
  by (rule ext) (auto simp: createSchema_def guarded_def rolled_back_def safe_statement_def split: prod.splits sum.splits option.splits)

lemma sql_Close_guarded [simp]: "sql_Close (guarded bad d) = sql_Close d"
  by (simp add: guarded_def)

lemma ensureSchema_guarded: "ensureSchema U (guarded_open bad sql_Open) cfg url s = ensureSchema U sql_Open cfg url s"
proof (cases "re_match validMigrationTable (mig_Schema cfg)")
  case True
  show ?thesis
    by (simp add: ensureSchema_def guarded_open_def Let_def createSchema_guarded [OF validMigrationTable_plain [OF True]]
        split: prod.splits sum.splits)
qed (simp add: ensureSchema_def)

text \<open>
  C19. The migration code never sends SQL of its own other than the constant statement that
  takes the advisory lock and \<open>CREATE SCHEMA\<close> around a quoted name of at most 63 lower-case
  letters, digits and underscores: a database that behaves arbitrarily on any other statement
  gives the same result and the same state, for every configuration, address and direction.
  In particular no configured schema name can close the quotes and smuggle in a statement.
\<close>

theorem schema_sql_safe:
  "migration_Run U (guarded_open bad sql_Open) M cfg direction steps s = migration_Run U sql_Open M cfg direction steps s"
  unfolding migration_Run_def ensureSchema_guarded by (rule refl)

section \<open>The schema is created atomically\<close>

context sql_database
begin

text \<open>
  \<open>createSchema\<close> gives its connection back on every path; what it changed is visible only when it
  returns nil or when its commit failed after taking effect.
\<close>

lemma createSchema_atomic:
  assumes "createSchema d n s = (r, s')"
  shows "active s' = active s \<and> (committed s' = committed s \<or>
    (\<exists>t s1 s2 s3 c. sql_BeginTxx d None s = (Inr t, s1) \<and> sql_Exec d t lock_statement [schema_lock_key n] s1 = (None, s2) \<and>
       sql_Exec d t (schema_statement n) [] s2 = (None, s3) \<and> committed s' = staged t s3))"
proof (cases "sql_BeginTxx d None s")
  case (Pair b s1)
  show ?thesis
  proof (cases b)
    case (Inl e)
    then show ?thesis using assms Pair begin_failed by (auto simp: createSchema_def)
  next
    case (Inr t)
    obtain r2 s2 where e2: "sql_Exec d t lock_statement [schema_lock_key n] s1 = (r2, s2)" by fastforce
    obtain r3 s3 where e3: "sql_Exec d t (schema_statement n) [] s2 = (r3, s3)" by fastforce
    obtain r4 s4 where e4: "sql_Commit d t s3 = (r4, s4)" by fastforce
    have b: "t \<notin> active s" "active s1 = insert t (active s)" "committed s1 = committed s"
      using begin_ok Pair Inr by auto
    have a2: "active s2 = active s1" "committed s2 = committed s" using exec_local [OF _ e2] b by auto
    have a3: "active s3 = active s1" "committed s3 = committed s" using exec_local [OF _ e3] a2 b by auto
    have a4: "t \<notin> active s4" "active s4 = active s" "committed s4 = committed s \<or> committed s4 = staged t s3"
      using commit_ok [of t s3 s4] commit_failed [of t s3 _ s4] e4 a3 b by (cases r4; auto)+
    have rb: "active (snd (sql_Rollback d t u)) = active u - {t} \<and> committed (snd (sql_Rollback d t u)) = committed u"
      if "t \<in> active u" for u
      using rollback_done [OF that] by (metis prod.collapse)
    show ?thesis
      using assms Pair Inr e2 e3 e4 b a2 a3 a4 rb [of s2] rb [of s3] rollback_again [OF a4(1)]
      by (auto simp: createSchema_def rolled_back_def split: option.splits)
  qed
qed

end

section \<open>Versions\<close>

text \<open>
  What the migration library documents: the schema has a version, the number of migrations
  applied; \<open>Up\<close> brings it to the latest, \<open>Down\<close> to zero, \<open>Steps\<close> moves it by a signed number, and
  \<open>ErrNoChange\<close> says that there was nothing to do. Opening and closing a migrator or a database
  and the statements that create a schema leave the version alone.
\<close>

definition keeps_version :: "('s \<Rightarrow> nat) \<Rightarrow> ('s \<Rightarrow> 'r \<times> 's) \<Rightarrow> bool" where
  "keeps_version version f \<longleftrightarrow> (\<forall>s. version (snd (f s)) = version s)"

definition db_keeps_version :: "('s \<Rightarrow> nat) \<Rightarrow> ('s, 't, 'o) sql_DB \<Rightarrow> bool" where
  "db_keeps_version version d \<longleftrightarrow>
     (\<forall>opts. keeps_version version (sql_BeginTxx d opts)) \<and> (\<forall>t q args. keeps_version version (sql_Exec d t q args)) \<and>
     (\<forall>t. keeps_version version (sql_Commit d t)) \<and> (\<forall>t. keeps_version version (sql_Rollback d t)) \<and>
     keeps_version version (sql_Close d)"

lemma keeps_versionD: "keeps_version version f \<Longrightarrow> f s = (r, s') \<Longrightarrow> version s' = version s"
  unfolding keeps_version_def by (metis snd_conv)

locale migrations =
  fixes M :: "('s, 'm) migrate_lib"
    and sql_Open :: "('s, 't, 'o) sql_opener"
    and version :: "'s \<Rightarrow> nat"
    and latest :: nat
  assumes new_version: "keeps_version version (mg_New M source url)"
    and close_version: "keeps_version version (mg_Close M m)"
    and up_done: "mg_Up M m s = (None, s') \<Longrightarrow> version s' = latest"
    and up_nothing: "mg_Up M m s = (Some e, s') \<Longrightarrow> error_Is e ErrNoChange \<Longrightarrow> version s' = version s \<and> version s = latest"
    and down_done: "mg_Down M m s = (None, s') \<Longrightarrow> version s' = 0"
    and down_nothing: "mg_Down M m s = (Some e, s') \<Longrightarrow> error_Is e ErrNoChange \<Longrightarrow> version s' = version s \<and> version s = 0"
    and steps_done: "mg_Steps M m n s = (None, s') \<Longrightarrow> int (version s') = int (version s) + n"
    and steps_nothing: "mg_Steps M m n s = (Some e, s') \<Longrightarrow> error_Is e ErrNoChange \<Longrightarrow> version s' = version s"
    and open_version: "keeps_version version (sql_Open driver dsn)"
    and opened_version: "sql_Open driver dsn s = (Inr d, s') \<Longrightarrow> db_keeps_version version d"
begin

lemma keeps_snd:
  "version (snd (mg_New M source url s)) = version s" "version (snd (mg_Close M m s)) = version s"
  "version (snd (sql_Open driver dsn s)) = version s"
  using new_version close_version open_version by (auto simp: keeps_version_def)

lemma createSchema_version:
  assumes "db_keeps_version version d"
  shows "version (snd (createSchema d n s)) = version s"
proof -
  have k: "version (snd (sql_BeginTxx d opts u)) = version u" "version (snd (sql_Exec d t q args u)) = version u"
      "version (snd (sql_Commit d t u)) = version u" "version (snd (sql_Rollback d t u)) = version u" for opts t q args u
    using assms by (auto simp: db_keeps_version_def keeps_version_def)
  show ?thesis
    using k by (auto simp: createSchema_def rolled_back_def split: prod.splits sum.splits option.splits) (metis snd_conv)+
qed

lemma ensureSchema_version:
  assumes "ensureSchema U sql_Open cfg url s = (r, s')"
  shows "version s' = version s"
proof -
  have opened: "version s1 = version s" if "sql_Open driver dsn s = (x, s1)" for driver dsn x s1
    using keeps_snd(3) [of driver dsn s] that by simp
  have used: "version (snd (sql_Close d (snd (createSchema d n u)))) = version u"
    if "sql_Open driver dsn v = (Inr d, u)" for driver dsn v d u n
    using opened_version [OF that] createSchema_version [of d n u] by (simp add: db_keeps_version_def keeps_version_def)
  show ?thesis
    using assms by (auto simp: ensureSchema_def Let_def opened split: if_splits sum.splits prod.splits)
      (metis opened used snd_conv)
qed

lemma migrate_step_version:
  assumes "migrate_step M m direction steps s = (r, s')" and "\<And>e. r = Some e \<Longrightarrow> error_Is e ErrNoChange"
  shows "if steps \<noteq> 0 then int (version s') = int (version s) + steps \<or> (r \<noteq> None \<and> version s' = version s)
    else version s' = (if direction = ''down'' then 0 else latest)"
proof (cases r)
  case None
  then show ?thesis using assms(1) up_done down_done steps_done by (auto simp: migrate_step_def split: if_splits)
next
  case (Some e)
  then show ?thesis
    using assms up_nothing down_nothing steps_nothing by (fastforce simp: migrate_step_def split: if_splits)
qed

text \<open>A run that returns nil has reached its goal, and the migrator it opened was closed without an error.\<close>

lemma Run_version:
  assumes "migration_Run U sql_Open M cfg direction steps s = (None, s')"
  shows "if steps \<noteq> 0 then int (version s') \<in> {int (version s) + steps, int (version s)}
    else version s' = (if direction = ''down'' then 0 else latest)"
proof -
  obtain url where u: "withMigrationOptions U (mig_DatabaseURL cfg) (mig_DatabaseName cfg) (mig_Table cfg) (mig_Schema cfg) = Inr url"
    using assms by (auto simp: migration_Run_def split: if_splits sum.splits)
  obtain p where p: "mig_DatabaseURL cfg \<noteq> ''''" "mg_Abs M (mig_Path cfg) = Inr p"
    using assms by (auto simp: migration_Run_def split: if_splits sum.splits)
  obtain s1 m s2 where e: "ensureSchema U sql_Open cfg url s = (None, s1)" and n: "mg_New M (url_File U p) url s1 = (Inr m, s2)"
    using assms u p by (auto simp: migration_Run_def split: sum.splits prod.splits option.splits)
  obtain r s3 where st: "migrate_step M m direction steps s2 = (r, s3)" by fastforce
  have cl: "close_migrator M m (case r of None \<Rightarrow> None | Some e \<Rightarrow>
      if error_Is e ErrNoChange then None else Some (wrap_error [Txt ''run migration: ''] e)) s3 = (None, s')"
    using assms u p e n st by (cases r) (simp_all add: migration_Run_def)
  then have r: "\<And>e. r = Some e \<Longrightarrow> error_Is e ErrNoChange"
    by (auto simp: close_migrator_def Let_def split: prod.splits option.splits if_splits)
  have "version s' = version s3"
    using cl keeps_snd(2) [of m s3] by (auto simp: close_migrator_def Let_def split: prod.splits)
  moreover have "version s2 = version s"
    using ensureSchema_version [OF e] keeps_snd(1) [of "url_File U p" url s1] n by simp
  ultimately show ?thesis using migrate_step_version [OF st r] by (auto split: if_splits)
qed

end

section \<open>Reaching a version\<close>













end
