(* ===== verification/Locking.thy ===== *)
theory Locking
  imports GoErrors ConfigTypes
begin

text \<open>
  The Redis connection and the distributed locks on it (\<open>internal/cache/redis.go\<close>). The client and
  the redsync library are records of operations; what the code relies on is the locale
  \<open>lock_service\<close>: a name has at most one holder, and only its holder can give it up.
\<close>

section \<open>Connecting\<close>

record redis_Options =
  ro_Addr :: string
  ro_Username :: string
  ro_Password :: string
  ro_DB :: int
  ro_DialTimeout :: duration
  ro_ReadTimeout :: duration
  ro_WriteTimeout :: duration

record ('s, 'r) redis_lib =
  rl_NewClient :: "redis_Options \<Rightarrow> 's \<Rightarrow> 'r \<times> 's"
  rl_Ping :: "'r \<Rightarrow> 's action"
  rl_Close :: "'r \<Rightarrow> 's action"

definition redis_options :: "RedisConfig \<Rightarrow> redis_Options" where
  "redis_options cfg =
     \<lparr>ro_Addr = redis_Address cfg, ro_Username = redis_Username cfg, ro_Password = redis_Password cfg, ro_DB = redis_DB cfg,
      ro_DialTimeout = redis_DialTimeout cfg, ro_ReadTimeout = redis_ReadTimeout cfg, ro_WriteTimeout = redis_WriteTimeout cfg\<rparr>"

definition cache_Open :: "('s, 'r) redis_lib \<Rightarrow> RedisConfig \<Rightarrow> ('s, 'r) acquire" where
  "cache_Open lib cfg s =
     (case rl_NewClient lib (redis_options cfg) s of
        (client, s1) \<Rightarrow>
          (case rl_Ping lib client s1 of
             (Some e, s2) \<Rightarrow> (Inl (wrap_error [Txt ''ping redis: ''] e), snd (rl_Close lib client s2))
           | (None, s2) \<Rightarrow> (Inr client, s2)))"

section \<open>Locks\<close>

datatype mutex_option = WithTries int | WithRetryDelay duration | WithExpiry duration

record ('s, 'x, 'c) redsync =
  rs_NewMutex :: "string \<Rightarrow> mutex_option list \<Rightarrow> 's \<Rightarrow> 'x \<times> 's"
  rs_TryLockContext :: "'c \<Rightarrow> 'x \<Rightarrow> 's action"
  rs_LockContext :: "'c \<Rightarrow> 'x \<Rightarrow> 's action"
  rs_ExtendContext :: "'c \<Rightarrow> 'x \<Rightarrow> 's \<Rightarrow> (bool \<times> go_error option) \<times> 's"
  rs_UnlockContext :: "'c \<Rightarrow> 'x \<Rightarrow> 's \<Rightarrow> (bool \<times> go_error option) \<times> 's"
  rs_Name :: "'x \<Rightarrow> string"
  rs_Until :: "'x \<Rightarrow> 's \<Rightarrow> instant"
  ctx_Err :: "'c \<Rightarrow> 's \<Rightarrow> go_error option"

definition lockKeyPrefix :: string where
  "lockKeyPrefix = ''lock:''"

definition isContention :: "go_error \<Rightarrow> bool" where
  "isContention e \<longleftrightarrow> error_Is e ErrFailed \<or> error_Is e ErrTaken"

definition newMutex :: "('s, 'x, 'c) redsync \<Rightarrow> string \<Rightarrow> duration \<Rightarrow> mutex_option list \<Rightarrow> ('s, 'x) acquire" where
  "newMutex R key ttl options s =
     (if key = '''' then (Inl (errors_New ''lock key must not be empty''), s)
      else if ttl \<le> 0 then (Inl (errors_New ''lock ttl must be positive''), s)
      else (case rs_NewMutex R (lockKeyPrefix @ key) (options @ [WithExpiry ttl]) s of (m, s1) \<Rightarrow> (Inr m, s1)))"

text \<open>The result \<open>(nil, false, nil)\<close> of a lock that is taken is \<open>Inr None\<close>.\<close>

definition TryLock :: "('s, 'x, 'c) redsync \<Rightarrow> 'c \<Rightarrow> string \<Rightarrow> duration \<Rightarrow> ('s, 'x option) acquire" where
  "TryLock R ctx key ttl s =
     (case newMutex R key ttl [WithTries 1] s of
        (Inl e, s1) \<Rightarrow> (Inl e, s1)
      | (Inr mutex, s1) \<Rightarrow>
          (case rs_TryLockContext R ctx mutex s1 of
             (Some e, s2) \<Rightarrow>
               (if isContention e then (Inr None, s2)
                else (Inl (wrap_error [Txt ''try redis lock '', Quo key, Txt '': ''] e), s2))
           | (None, s2) \<Rightarrow> (Inr (Some mutex), s2)))"

definition Locker_Lock :: "('s, 'x, 'c) redsync \<Rightarrow> 'c \<Rightarrow> string \<Rightarrow> duration \<Rightarrow> duration \<Rightarrow> ('s, 'x) acquire" where
  "Locker_Lock R ctx key ttl retryDelay s =
     (if retryDelay \<le> 0 then (Inl (errors_New ''lock retry delay must be positive''), s)
      else
        (case newMutex R key ttl [WithRetryDelay retryDelay] s of
           (Inl e, s1) \<Rightarrow> (Inl e, s1)
         | (Inr mutex, s1) \<Rightarrow>
             (case rs_LockContext R ctx mutex s1 of
                (Some e, s2) \<Rightarrow>
                  (case ctx_Err R ctx s2 of
                     Some ctxErr \<Rightarrow> (Inl (wrap_error [Txt ''wait for redis lock '', Quo key, Txt '': ''] ctxErr), s2)
                   | None \<Rightarrow> (Inl (wrap_error [Txt ''acquire redis lock '', Quo key, Txt '': ''] e), s2))
              | (None, s2) \<Rightarrow> (Inr mutex, s2))))"

text \<open>\<open>Extend\<close> and \<open>Unlock\<close> report a lock that is no longer owned as an error.\<close>

definition owned_result :: "string \<Rightarrow> string \<Rightarrow> bool \<times> go_error option \<Rightarrow> go_error option" where
  "owned_result what name r =
     (case r of
        (_, Some e) \<Rightarrow> Some (wrap_error [Txt (what @ '' redis lock ''), Quo name, Txt '': ''] e)
      | (ok, None) \<Rightarrow>
          if \<not> ok then Some \<lparr>err_text = [Txt (what @ '' redis lock ''), Quo name, Txt '': lock is no longer owned''], err_chain = []\<rparr>
          else None)"

definition Lock_Extend :: "('s, 'x, 'c) redsync \<Rightarrow> 'c \<Rightarrow> 'x \<Rightarrow> 's action" where
  "Lock_Extend R ctx l s =
     (case rs_ExtendContext R ctx l s of (r, s1) \<Rightarrow> (owned_result ''extend'' (rs_Name R l) r, s1))"

definition Lock_Unlock :: "('s, 'x, 'c) redsync \<Rightarrow> 'c \<Rightarrow> 'x \<Rightarrow> 's action" where
  "Lock_Unlock R ctx l s =
     (case rs_UnlockContext R ctx l s of (r, s1) \<Rightarrow> (owned_result ''release'' (rs_Name R l) r, s1))"

definition Lock_Until :: "('s, 'x, 'c) redsync \<Rightarrow> 'x \<Rightarrow> 's \<Rightarrow> instant" where
  "Lock_Until R l s = rs_Until R l s"

section \<open>The contract of the lock service\<close>

text \<open>
  \<open>holder n s\<close> is the mutex that holds the name \<open>n\<close> and has not expired. Taking a name succeeds only when
  it is free. A contention error says that someone else has it and changes nothing; after any other error the
  outcome of an attempt on a free name is unknown. Giving up never affects another holder.
\<close>

locale lock_service =
  fixes R :: "('s, 'x, 'c) redsync"
    and holder :: "string \<Rightarrow> 's \<Rightarrow> 'x option"
  assumes new_mutex: "rs_NewMutex R n opts s = (x, s') \<Longrightarrow>
      rs_Name R x = n \<and> (\<forall>k. holder k s \<noteq> Some x) \<and> (\<forall>k. holder k s' = holder k s)"
    and try_taken: "rs_TryLockContext R ctx x s = (None, s') \<Longrightarrow>
      holder (rs_Name R x) s = None \<and> holder (rs_Name R x) s' = Some x"
    and try_refused: "rs_TryLockContext R ctx x s = (Some e, s') \<Longrightarrow>
      (isContention e \<or> holder (rs_Name R x) s \<noteq> None \<longrightarrow> holder (rs_Name R x) s' = holder (rs_Name R x) s)"
    and try_others: "rs_TryLockContext R ctx x s = (r, s') \<Longrightarrow> k \<noteq> rs_Name R x \<Longrightarrow> holder k s' = holder k s"
    and lock_taken: "rs_LockContext R ctx x s = (None, s') \<Longrightarrow> holder (rs_Name R x) s' = Some x"
    and unlock_others: "rs_UnlockContext R ctx x s = (q, s') \<Longrightarrow> holder k s \<noteq> Some x \<Longrightarrow> holder k s' = holder k s"
    and unlock_done: "rs_UnlockContext R ctx x s = ((True, None), s') \<Longrightarrow> holder (rs_Name R x) s' = None"
    and extend_keeps: "rs_ExtendContext R ctx x s = (q, s') \<Longrightarrow> holder k s \<noteq> Some x \<Longrightarrow> holder k s' = holder k s"
    and extend_done: "rs_ExtendContext R ctx x s = ((True, None), s') \<Longrightarrow> holder (rs_Name R x) s' = Some x"
begin

text \<open>\<open>TryLock\<close> takes a free name or reports that it is taken; it never takes a name from its holder.\<close>

lemma TryLock_acquired:
  assumes "TryLock R ctx key ttl s = (Inr (Some x), s')"
  shows "key \<noteq> '''' \<and> 0 < ttl \<and> rs_Name R x = lockKeyPrefix @ key \<and> holder (lockKeyPrefix @ key) s = None \<and>
    holder (lockKeyPrefix @ key) s' = Some x"
proof -
  obtain s1 where "rs_NewMutex R (lockKeyPrefix @ key) [WithTries 1, WithExpiry ttl] s = (x, s1)"
      "rs_TryLockContext R ctx x s1 = (None, s')" "key \<noteq> ''''" "0 < ttl"
    using assms by (auto simp: TryLock_def newMutex_def split: if_splits prod.splits sum.splits option.splits)
  then show ?thesis using new_mutex try_taken by metis
qed

lemma TryLock_held:
  assumes "TryLock R ctx key ttl s = (r, s')" and "holder (lockKeyPrefix @ key) s \<noteq> None"
  shows "\<not> (\<exists>x. r = Inr (Some x)) \<and> holder (lockKeyPrefix @ key) s' = holder (lockKeyPrefix @ key) s"
proof -
  have "holder (lockKeyPrefix @ key) s2 = holder (lockKeyPrefix @ key) s \<and> (\<exists>e. a = Some e)"
    if "rs_NewMutex R (lockKeyPrefix @ key) opts s = (x, s1)" "rs_TryLockContext R ctx x s1 = (a, s2)" for opts x s1 a s2
    using new_mutex [OF that(1)] that(2) assms(2) try_taken [of ctx x s1 s2] try_refused [of ctx x s1 _ s2] by (cases a) auto
  then show ?thesis
    using assms(1) by (fastforce simp: TryLock_def newMutex_def split: if_splits prod.splits sum.splits option.splits)
qed

lemma TryLock_contended:
  assumes "TryLock R ctx key ttl s = (Inr None, s')"
  shows "holder (lockKeyPrefix @ key) s' = holder (lockKeyPrefix @ key) s"
proof -
  obtain x s1 e where "rs_NewMutex R (lockKeyPrefix @ key) [WithTries 1, WithExpiry ttl] s = (x, s1)"
      "rs_TryLockContext R ctx x s1 = (Some e, s')" "isContention e"
    using assms by (auto simp: TryLock_def newMutex_def split: if_splits prod.splits sum.splits option.splits)
  then show ?thesis using new_mutex try_refused by metis
qed

lemma Unlock_others: "Lock_Unlock R ctx x s = (r, s') \<Longrightarrow> holder k s \<noteq> Some x \<Longrightarrow> holder k s' = holder k s"
  using unlock_others by (fastforce simp: Lock_Unlock_def split: prod.splits)

lemma Unlock_done: "Lock_Unlock R ctx x s = (None, s') \<Longrightarrow> holder (rs_Name R x) s' = None"
  using unlock_done by (force simp: Lock_Unlock_def owned_result_def split: prod.splits option.splits if_splits)

end

section \<open>Locks in memory\<close>

text \<open>The contract can be kept: a table of the names that are taken. A mutex is a number and a name.\<close>

record mem_locks =
  ml_held :: "(string \<times> nat \<times> string) list"
  ml_log :: "string list"

definition mem_taken :: go_error where
  "mem_taken = \<lparr>err_text = [Txt ''lock already taken''], err_chain = [ErrTaken]\<rparr>"

definition mem_holder :: "string \<Rightarrow> mem_locks \<Rightarrow> (nat \<times> string) option" where
  "mem_holder k s = map_of (ml_held s) k"

definition mem_take :: "nat \<times> string \<Rightarrow> mem_locks action" where
  "mem_take x s =
     (if mem_holder (snd x) s = None then (None, s\<lparr>ml_held := (snd x, x) # ml_held s\<rparr>) else (Some mem_taken, s))"

definition mem_redsync :: "(mem_locks, nat \<times> string, duration) redsync" where
  "mem_redsync =
     \<lparr>rs_NewMutex = (\<lambda>n _ s. ((Suc (sum_list (map (fst \<circ> snd) (ml_held s))), n), s)),
      rs_TryLockContext = (\<lambda>_. mem_take),
      rs_LockContext = (\<lambda>_. mem_take),
      rs_ExtendContext = (\<lambda>_ x s. ((mem_holder (snd x) s = Some x, None), s)),
      rs_UnlockContext = (\<lambda>_ x s. if mem_holder (snd x) s = Some x
        then ((True, None), s\<lparr>ml_held := filter (\<lambda>(k, _). k \<noteq> snd x) (ml_held s)\<rparr>) else ((False, None), s)),
      rs_Name = snd,
      rs_Until = (\<lambda>_ _. 0),
      ctx_Err = (\<lambda>_ _. None)\<rparr>"

lemma map_of_filter_key: "map_of (filter (\<lambda>(k, _). k \<noteq> n) xs) k = (if k = n then None else map_of xs k)"
  by (induction xs) auto

lemma mem_fresh: "map_of xs k \<noteq> Some (Suc (sum_list (map (fst \<circ> snd) xs)), n)"
proof
  assume "map_of xs k = Some (Suc (sum_list (map (fst \<circ> snd) xs)), n)"
  then have "Suc (sum_list (map (fst \<circ> snd) xs)) \<in> set (map (fst \<circ> snd) xs)"
    by (force dest: map_of_SomeD)
  then show False using member_le_sum_list by fastforce
qed

interpretation mem_locks: lock_service mem_redsync mem_holder
  by unfold_locales
    (auto simp: mem_redsync_def mem_take_def mem_holder_def mem_taken_def map_of_filter_key mem_fresh split: if_splits)

end
