(* ===== verification/Lifecycle.thy ===== *)
theory Lifecycle
  imports GoErrors
begin

text \<open>
  The life cycle of the process: components append hooks to \<open>fx.Lifecycle\<close> while they are built.
  A component that holds a connection, a file or a goroutine follows one pattern, the locale
  \<open>managed\<close>: it acquires the resource, or fails and leaves none behind, and the hook it appends
  releases the resource.
\<close>

section \<open>Hooks\<close>

record 's hook =
  hk_OnStart :: "'s action"
  hk_OnStop :: "'s action"

text \<open>A constructor reads and extends the list of hooks while it changes the world.\<close>

type_synonym ('s, 'a) constructor = "'s hook list \<times> 's \<Rightarrow> (go_error + 'a) \<times> ('s hook list \<times> 's)"

definition StopHook :: "'s action \<Rightarrow> 's hook" where
  "StopHook f = \<lparr>hk_OnStart = (\<lambda>s. (None, s)), hk_OnStop = f\<rparr>"

definition provide :: "('s, 'h) acquire \<Rightarrow> ('h \<Rightarrow> 's action) \<Rightarrow> ('s, 'h) constructor" where
  "provide acquire release w =
     (case w of (hooks, s) \<Rightarrow>
        (case acquire s of
           (Inl e, s1) \<Rightarrow> (Inl e, (hooks, s1))
         | (Inr h, s1) \<Rightarrow> (Inr h, (hooks @ [StopHook (release h)], s1))))"

text \<open>A component that the configuration can turn off: nil stands for it then.\<close>

definition when_enabled :: "bool \<Rightarrow> ('s, 'h) constructor \<Rightarrow> ('s, 'h option) constructor" where
  "when_enabled on c w =
     (if \<not> on then (Inr None, w) else (case c w of (Inl e, w1) \<Rightarrow> (Inl e, w1) | (Inr h, w1) \<Rightarrow> (Inr (Some h), w1)))"

text \<open>The hooks run in reverse when the process stops; an error of one does not keep the others from running.\<close>

primrec stop_all :: "'s hook list \<Rightarrow> 's \<Rightarrow> 's" where
  "stop_all [] s = s"
| "stop_all (h # hs) s = snd (hk_OnStop h (stop_all hs s))"

lemma stop_all_append: "stop_all (hs @ hs') s = stop_all hs (stop_all hs' s)"
  by (induction hs) simp_all

section \<open>Resources\<close>

locale managed =
  fixes live :: "'s \<Rightarrow> 'h set"
    and acquire :: "('s, 'h) acquire"
    and release :: "'h \<Rightarrow> 's action"
  assumes acquired: "acquire s = (Inr h, s') \<Longrightarrow> h \<notin> live s \<and> live s' = insert h (live s)"
    and not_acquired: "acquire s = (Inl e, s') \<Longrightarrow> live s' = live s"
    and released: "live (snd (release h s)) = live s - {h}"
begin

text \<open>Whether the component is built or not, stopping what it appended restores the resources there were.\<close>

lemma provide_releases:
  assumes "when_enabled on (provide acquire release) (hooks, s) = (r, (hooks', s'))"
  shows "\<exists>new. hooks' = hooks @ new \<and> live (stop_all new s') = live s \<and>
    (case r of Inl e \<Rightarrow> new = [] | Inr None \<Rightarrow> new = [] \<and> s' = s \<and> \<not> on | Inr (Some h) \<Rightarrow> on \<and> live s' = insert h (live s))"
  using assms acquired not_acquired released
  by (auto simp: when_enabled_def provide_def StopHook_def split: if_splits prod.splits sum.splits)

end

end
