(* ===== verification/Telemetry.thy ===== *)
theory Telemetry
  imports Lifecycle ConfigTypes GoRunes
begin

text \<open>
  Logging, metrics and tracing (\<open>internal/logging\<close>, \<open>internal/observability\<close>): what is configured
  and registered, with the libraries (slog, lumberjack, Prometheus, OpenTelemetry) as operations.
\<close>

section \<open>The logger\<close>

record lumberjack =
  lj_Filename :: string
  lj_MaxSize :: int
  lj_MaxBackups :: int
  lj_MaxAge :: int
  lj_Compress :: bool

datatype slog_handler = TextHandler | JSONHandler

record logger =
  lg_handler :: slog_handler
  lg_level :: int
  lg_file :: lumberjack
  lg_attrs :: "(string \<times> string) list"

record 's log_lib =
  ll_Dir :: "string \<Rightarrow> string"
  ll_MkdirAll :: "string \<Rightarrow> 's action"
  ll_UnmarshalLevel :: "string \<Rightarrow> go_error + int"
  ll_Close :: "lumberjack \<Rightarrow> 's action"

definition logging_New :: "'s log_lib \<Rightarrow> Log \<Rightarrow> ('s, logger) acquire" where
  "logging_New lib cfg s =
     (case ll_MkdirAll lib (ll_Dir lib (log_File cfg)) s of
        (Some e, s1) \<Rightarrow> (Inl (wrap_error [Txt ''create log directory: ''] e), s1)
      | (None, s1) \<Rightarrow>
          (let rotator = \<lparr>lj_Filename = log_File cfg, lj_MaxSize = log_MaxSizeMB cfg, lj_MaxBackups = log_MaxBackups cfg,
                          lj_MaxAge = log_MaxAgeDays cfg, lj_Compress = log_Compress cfg\<rparr>
           in case ll_UnmarshalLevel lib (strings_ToLower (log_Level cfg)) of
                Inl e \<Rightarrow> (Inl (wrap_error [Txt ''parse log level: ''] e), s1)
              | Inr level \<Rightarrow>
                  (Inr \<lparr>lg_handler = (if log_Format cfg = ''text'' then TextHandler else JSONHandler), lg_level = level,
                        lg_file = rotator, lg_attrs = []\<rparr>, s1)))"

definition newLogger :: "'s log_lib \<Rightarrow> Config \<Rightarrow> ('s, logger) constructor" where
  "newLogger lib cfg w =
     (case w of (hooks, s) \<Rightarrow>
        (case logging_New lib (cfg_Log cfg) s of
           (Inl e, s1) \<Rightarrow> (Inl e, (hooks, s1))
         | (Inr l, s1) \<Rightarrow>
             (Inr (l\<lparr>lg_attrs := lg_attrs l @ [(''service'', app_Name (cfg_App cfg)), (''environment'', rt_ActiveProfile (cfg_Runtime cfg))]\<rparr>),
              (hooks @ [StopHook (ll_Close lib (lg_file l))], s1))))"

section \<open>Metrics\<close>

datatype metric_kind = CounterVec | HistogramVec | GaugeFunc

record metric =
  m_kind :: metric_kind
  m_name :: string
  m_help :: string
  m_labels :: "string list"

datatype collector = Own metric | GoCollector | ProcessCollector | DBStatsCollector string

record Metrics =
  mt_enabled :: bool
  mt_registry :: "collector list"

definition HTTPRequests :: metric where
  "HTTPRequests = \<lparr>m_kind = CounterVec, m_name = ''http_requests_total'', m_help = ''Total HTTP requests.'',
     m_labels = [''method'', ''route'', ''status'']\<rparr>"

definition HTTPDuration :: metric where
  "HTTPDuration = \<lparr>m_kind = HistogramVec, m_name = ''http_request_duration_seconds'', m_help = ''HTTP request latency.'',
     m_labels = [''method'', ''route'']\<rparr>"

definition CronRuns :: metric where
  "CronRuns = \<lparr>m_kind = CounterVec, m_name = ''cron_runs_total'', m_help = ''Total cron executions.'',
     m_labels = [''job'', ''status'']\<rparr>"

definition CronDuration :: metric where
  "CronDuration = \<lparr>m_kind = HistogramVec, m_name = ''cron_run_duration_seconds'', m_help = ''Cron execution latency.'',
     m_labels = [''job'']\<rparr>"

definition GRPCRequests :: metric where
  "GRPCRequests = \<lparr>m_kind = CounterVec, m_name = ''grpc_server_requests_total'', m_help = ''Total gRPC requests.'',
     m_labels = [''method'', ''code'']\<rparr>"

definition GRPCDuration :: metric where
  "GRPCDuration = \<lparr>m_kind = HistogramVec, m_name = ''grpc_server_duration_seconds'', m_help = ''gRPC request latency.'',
     m_labels = [''method'']\<rparr>"

definition OutboundRequests :: metric where
  "OutboundRequests = \<lparr>m_kind = CounterVec, m_name = ''outbound_requests_total'', m_help = ''Total outbound requests.'',
     m_labels = [''protocol'', ''client'', ''status'']\<rparr>"

definition OutboundDuration :: metric where
  "OutboundDuration = \<lparr>m_kind = HistogramVec, m_name = ''outbound_request_duration_seconds'',
     m_help = ''Outbound request latency.'', m_labels = [''protocol'', ''client'']\<rparr>"

text \<open>\<open>MustRegister\<close> panics (\<open>None\<close>) when a collector clashes with one that is registered.\<close>

fun MustRegister :: "(collector \<Rightarrow> collector \<Rightarrow> bool) \<Rightarrow> collector list \<Rightarrow> collector list \<Rightarrow> collector list option" where
  "MustRegister clash [] reg = Some reg"
| "MustRegister clash (c # cs) reg = (if list_ex (clash c) reg then None else MustRegister clash cs (reg @ [c]))"

definition redis_metrics :: "metric list" where
  "redis_metrics = map (\<lambda>(name, help). \<lparr>m_kind = GaugeFunc, m_name = name, m_help = help, m_labels = []\<rparr>)
     [(''redis_pool_hits_total'', ''Redis pool hits.''), (''redis_pool_misses_total'', ''Redis pool misses.''),
      (''redis_pool_timeouts_total'', ''Redis pool timeouts.''), (''redis_pool_connections'', ''Current Redis connections.''),
      (''redis_pool_idle_connections'', ''Current idle Redis connections.'')]"

definition registerRedisMetrics :: "(collector \<Rightarrow> collector \<Rightarrow> bool) \<Rightarrow> collector list \<Rightarrow> collector list option" where
  "registerRedisMetrics clash reg = MustRegister clash (map Own redis_metrics) reg"

definition base_collectors :: "collector list" where
  "base_collectors =
     [GoCollector, ProcessCollector, Own HTTPRequests, Own HTTPDuration, Own CronRuns, Own CronDuration,
      Own GRPCRequests, Own GRPCDuration, Own OutboundRequests, Own OutboundDuration]"

definition NewMetrics :: "(collector \<Rightarrow> collector \<Rightarrow> bool) \<Rightarrow> Config \<Rightarrow> 'd option \<Rightarrow> 'r option \<Rightarrow> Metrics option" where
  "NewMetrics clash cfg db client =
     Option.bind (MustRegister clash base_collectors [])
       (\<lambda>reg. Option.bind (if db \<noteq> None then MustRegister clash [DBStatsCollector ''primary''] reg else Some reg)
       (\<lambda>reg. Option.bind (if client \<noteq> None then registerRedisMetrics clash reg else Some reg)
       (\<lambda>reg. Some \<lparr>mt_enabled = obs_MetricsEnabled (cfg_Observability cfg), mt_registry = reg\<rparr>)))"

definition Metrics_Enabled :: "Metrics \<Rightarrow> bool" where
  "Metrics_Enabled m = mt_enabled m"

text \<open>The handler of \<open>/metrics\<close> is the library's for the registry of the service, with its default options.\<close>

definition Metrics_Handler :: "(collector list \<Rightarrow> 'h) \<Rightarrow> Metrics \<Rightarrow> 'h" where
  "Metrics_Handler HandlerFor m = HandlerFor (mt_registry m)"

text \<open>A counter and a histogram of the registry: the metric, its label values, the value observed.\<close>

record 's metric_ops =
  mo_Inc :: "metric \<Rightarrow> string list \<Rightarrow> 's \<Rightarrow> 's"
  mo_Observe :: "metric \<Rightarrow> string list \<Rightarrow> duration \<Rightarrow> 's \<Rightarrow> 's"

definition ObserveCron :: "'s metric_ops \<Rightarrow> Metrics \<Rightarrow> string \<Rightarrow> string \<Rightarrow> duration \<Rightarrow> 's \<Rightarrow> 's" where
  "ObserveCron ops m job status elapsed s =
     (if \<not> mt_enabled m then s
      else mo_Observe ops CronDuration [job] elapsed (mo_Inc ops CronRuns [job, status] s))"

text \<open>The names of the service's own metrics differ: when the library's collectors clash with none, nothing panics.\<close>

lemma MustRegister_ok:
  assumes "\<And>c d. c \<in> set cs \<Longrightarrow> d \<in> set (reg @ cs) \<Longrightarrow> clash c d \<Longrightarrow> c = d" and "distinct (reg @ cs)"
  shows "MustRegister clash cs reg = Some (reg @ cs)"
  using assms
proof (induction cs arbitrary: reg)
  case (Cons c cs)
  have "\<not> list_ex (clash c) reg"
    using Cons.prems by (auto simp: list_ex_iff)
  moreover have "MustRegister clash cs (reg @ [c]) = Some ((reg @ [c]) @ cs)"
    using Cons.prems by (intro Cons.IH) auto
  ultimately show ?case by simp
qed simp

lemmas metric_defs = HTTPRequests_def HTTPDuration_def CronRuns_def CronDuration_def GRPCRequests_def GRPCDuration_def
  OutboundRequests_def OutboundDuration_def

lemma own_metrics_distinct: "distinct (base_collectors @ [DBStatsCollector ''primary''] @ map Own redis_metrics)"
  by (simp add: base_collectors_def redis_metrics_def metric_defs)

lemma NewMetrics_total:
  assumes "\<And>c d. clash c d \<Longrightarrow> c = d"
  shows "\<exists>m. NewMetrics clash cfg db client = Some m"
proof -
  have reg: "MustRegister clash cs reg = Some (reg @ cs)" if "distinct (reg @ cs)" for cs reg
    using assms that by (intro MustRegister_ok) blast+
  have "distinct base_collectors" "distinct (base_collectors @ [DBStatsCollector ''primary''])"
      "distinct (base_collectors @ map Own redis_metrics)"
    using own_metrics_distinct by auto
  then show ?thesis
    using own_metrics_distinct by (cases db; cases client) (simp_all add: NewMetrics_def registerRedisMetrics_def reg del: MustRegister.simps)
qed

text \<open>The switch is the configured one, and the page shows every metric of the service.\<close>

lemma MustRegister_set: "MustRegister clash cs reg = Some reg' \<Longrightarrow> set reg' = set reg \<union> set cs"
  by (induction clash cs reg rule: MustRegister.induct) (auto split: if_splits)

lemma NewMetrics_page:
  assumes "NewMetrics clash cfg db client = Some m"
  shows "Metrics_Enabled m = obs_MetricsEnabled (cfg_Observability cfg)" "set base_collectors \<subseteq> set (Metrics_Handler id m)"
proof -
  obtain r1 r2 r3 where r: "MustRegister clash base_collectors [] = Some r1"
    "(if db \<noteq> None then MustRegister clash [DBStatsCollector ''primary''] r1 else Some r1) = Some r2"
    "(if client \<noteq> None then registerRedisMetrics clash r2 else Some r2) = Some r3"
    "m = \<lparr>mt_enabled = obs_MetricsEnabled (cfg_Observability cfg), mt_registry = r3\<rparr>"
    using assms unfolding NewMetrics_def bind_eq_Some_conv by blast
  have "set base_collectors = set r1" using MustRegister_set [OF r(1)] by simp
  also have "\<dots> \<subseteq> set r2" using r(2) MustRegister_set [of clash "[DBStatsCollector ''primary'']" r1 r2] by (auto split: if_splits)
  also have "\<dots> \<subseteq> set r3"
    using r(3) MustRegister_set [of clash "map Own redis_metrics" r2 r3] by (auto simp: registerRedisMetrics_def split: if_splits)
  finally show "set base_collectors \<subseteq> set (Metrics_Handler id m)" by (simp add: Metrics_Handler_def r(4))
  show "Metrics_Enabled m = obs_MetricsEnabled (cfg_Observability cfg)" by (simp add: Metrics_Enabled_def r(4))
qed

section \<open>Tracing\<close>

record otel_resource =
  or_service_name :: string
  or_service_version :: string

record ('s, 'e, 'p) otel_lib =
  ot_NewExporter :: "string \<Rightarrow> ('s, 'e) acquire"
  ot_NewProvider :: "'e \<Rightarrow> otel_resource \<Rightarrow> float64 \<Rightarrow> 's \<Rightarrow> 'p \<times> 's"
  ot_SetGlobal :: "'p \<Rightarrow> 's \<Rightarrow> 's"   \<comment> \<open>\<open>otel.SetTracerProvider\<close> and \<open>SetTextMapPropagator\<close>\<close>
  ot_Shutdown :: "'p \<Rightarrow> 's action"

record 'p Tracing =
  tc_enabled :: bool
  tc_provider :: "'p option"

definition Tracing_Enabled :: "'p Tracing \<Rightarrow> bool" where
  "Tracing_Enabled t = tc_enabled t"

definition NewTracing :: "('s, 'e, 'p) otel_lib \<Rightarrow> string \<Rightarrow> Config \<Rightarrow> ('s, 'p Tracing) constructor" where
  "NewTracing lib version cfg w =
     (case w of (hooks, s) \<Rightarrow>
        (if \<not> obs_TracingEnabled (cfg_Observability cfg) then (Inr \<lparr>tc_enabled = False, tc_provider = None\<rparr>, (hooks, s))
         else
           (case ot_NewExporter lib (obs_TracingEndpoint (cfg_Observability cfg)) s of
              (Inl e, s1) \<Rightarrow> (Inl (wrap_error [Txt ''create OTLP trace exporter: ''] e), (hooks, s1))
            | (Inr exporter, s1) \<Rightarrow>
                (case ot_NewProvider lib exporter
                        \<lparr>or_service_name = app_Name (cfg_App cfg), or_service_version = version\<rparr>
                        (obs_TracingSampleRatio (cfg_Observability cfg)) s1 of
                   (provider, s2) \<Rightarrow>
                     (Inr \<lparr>tc_enabled = True, tc_provider = Some provider\<rparr>,
                      (hooks @ [StopHook (ot_Shutdown lib provider)], ot_SetGlobal lib provider s2))))))"

end
