(* ===== verification/Scheduler.thy ===== *)
theory Scheduler
  imports Locking Telemetry
begin

text \<open>
  Scheduled jobs (\<open>internal/scheduler/scheduler.go\<close>): the sample job, which runs under a
  distributed lock when there is one, its metrics, and the runner. The cron library (which parses
  a specification, recovers panics and skips a job that is still running) is a record of operations.
\<close>

section \<open>The sample job\<close>

definition time_Minute :: duration where
  "time_Minute = 60 * time_Second"

definition job_key :: string where
  "job_key = ''cron:sample''"

text \<open>
  \<open>job_ctx\<close> and \<open>unlock_ctx\<close> are the two contexts the function makes, 30 and 3 seconds long. The
  body of the job is one line in the log.
\<close>

definition job_body :: "'s slog \<Rightarrow> 's \<Rightarrow> 's" where
  "job_body log s = log Info ''sample scheduled job executed'' s"

definition runSample :: "(duration \<Rightarrow> 'c) \<Rightarrow> ('s, 'x, 'c) redsync option \<Rightarrow> 's slog \<Rightarrow> 's action" where
  "runSample timeout locker log s =
     (case locker of
        None \<Rightarrow> (None, job_body log s)
      | Some R \<Rightarrow>
          (case TryLock R (timeout (30 * time_Second)) job_key time_Minute s of
             (Inl e, s1) \<Rightarrow> (Some e, log ErrorLevel ''scheduled job lock failed'' s1)
           | (Inr None, s1) \<Rightarrow> (None, log Info ''sample scheduled job skipped'' s1)
           | (Inr (Some l), s1) \<Rightarrow>
               (case Lock_Unlock R (timeout (3 * time_Second)) l (job_body log s1) of
                  (Some e, s2) \<Rightarrow> (None, log ErrorLevel ''scheduled job unlock failed'' s2)
                | (None, s2) \<Rightarrow> (None, s2))))"

text \<open>The function the runner calls; \<open>elapsed\<close> is the time since it started.\<close>

definition sample_job ::
    "(duration \<Rightarrow> 'c) \<Rightarrow> ('s, 'x, 'c) redsync option \<Rightarrow> 's slog \<Rightarrow> 's metric_ops \<Rightarrow> Metrics \<Rightarrow> duration \<Rightarrow> 's \<Rightarrow> 's" where
  "sample_job timeout locker log ops metrics elapsed s =
     (case runSample timeout locker log s of
        (r, s1) \<Rightarrow> ObserveCron ops metrics ''sample'' (if r \<noteq> None then ''error'' else ''success'') elapsed s1)"

section \<open>The runner\<close>

record ('s, 'l, 'k) cron_lib =
  cr_LoadLocation :: "string \<Rightarrow> go_error + 'l"
  cr_New :: "'l \<Rightarrow> 'k"
  cr_AddFunc :: "'k \<Rightarrow> string \<Rightarrow> ('s \<Rightarrow> 's) \<Rightarrow> go_error + 'k"
  cr_Start :: "'k \<Rightarrow> 's \<Rightarrow> 's"
  cr_Stop :: "'k \<Rightarrow> 's action"   \<comment> \<open>stop, then wait for running jobs or for the end of the stop context, whose error it returns\<close>

definition scheduler_New ::
    "('s, 'l, 'k) cron_lib \<Rightarrow> ('s \<Rightarrow> 's) \<Rightarrow> 's slog \<Rightarrow> Config \<Rightarrow> ('s, 'k) constructor" where
  "scheduler_New lib job log cfg w =
     (case w of (hooks, s) \<Rightarrow>
        (case cr_LoadLocation lib (cron_Timezone (cfg_Cron cfg)) of
           Inl e \<Rightarrow> (Inl e, (hooks, s))
         | Inr location \<Rightarrow>
             (case (if cron_SampleSpec (cfg_Cron cfg) \<noteq> ''''
                    then cr_AddFunc lib (cr_New lib location) (cron_SampleSpec (cfg_Cron cfg)) job
                    else Inr (cr_New lib location)) of
                Inl e \<Rightarrow> (Inl e, (hooks, s))
              | Inr runner \<Rightarrow>
                  (Inr runner,
                   (hooks @ [\<lparr>hk_OnStart = (\<lambda>s. (None, if cron_Enabled (cfg_Cron cfg)
                                                     then log Info ''scheduler started'' (cr_Start lib runner s) else s)),
                              hk_OnStop = cr_Stop lib runner\<rparr>], s)))))"

section \<open>One replica at a time\<close>









end
