(* ===== verification/TlsConfig.thy ===== *)
theory TlsConfig
  imports ConfigTypes
begin

text \<open>
  How the servers and clients set up TLS: \<open>serverCredentials\<close> of the gRPC server, \<open>httpTransport\<close>
  of the outgoing HTTP client and \<open>transportCredentials\<close> of the outgoing gRPC client. Reading files
  and decoding certificates are parameters.
\<close>

record tls_files =
  tf_LoadX509KeyPair :: "string \<Rightarrow> string \<Rightarrow> string + string"
  tf_ReadFile :: "string \<Rightarrow> string + string"
  tf_AppendCertsFromPEM :: "string \<Rightarrow> string option"

datatype tls_version = VersionTLS12 | VersionOther nat

record tls_Config =
  tls_MinVersion :: tls_version
  tls_ServerName :: string
  tls_Certificates :: "string list"
  tls_RootCAs :: "string option"
  tls_ClientCAs :: "string option"
  tls_RequireAndVerifyClientCert :: bool

definition tls_base :: "string \<Rightarrow> tls_Config" where
  "tls_base serverName = \<lparr>tls_MinVersion = VersionTLS12, tls_ServerName = serverName, tls_Certificates = [], tls_RootCAs = None,
     tls_ClientCAs = None, tls_RequireAndVerifyClientCert = False\<rparr>"

text \<open>Reading the certificates of an authority: the pool, or an error with the texts of the caller.\<close>

definition read_pool :: "tls_files \<Rightarrow> string \<Rightarrow> string \<Rightarrow> string \<Rightarrow> string + string" where
  "read_pool F read_text parse_text file =
     (case tf_ReadFile F file of
        Inl err \<Rightarrow> Inl (read_text @ err)
      | Inr pem \<Rightarrow> (case tf_AppendCertsFromPEM F pem of None \<Rightarrow> Inl parse_text | Some pool \<Rightarrow> Inr pool))"

definition serverCredentials :: "tls_files \<Rightarrow> GRPCTLS \<Rightarrow> string + tls_Config" where
  "serverCredentials F cfg =
     (case tf_LoadX509KeyPair F (gtls_CertFile cfg) (gtls_KeyFile cfg) of
        Inl err \<Rightarrow> Inl (''load grpc certificate: '' @ err)
      | Inr certificate \<Rightarrow>
          let tlsConfig = (tls_base '''')\<lparr>tls_Certificates := [certificate]\<rparr> in
          if gtls_ClientCAFile cfg \<noteq> ''''
          then (case read_pool F ''read grpc client CA: '' ''parse grpc client CA'' (gtls_ClientCAFile cfg) of
                  Inl err \<Rightarrow> Inl err
                | Inr pool \<Rightarrow> Inr (tlsConfig\<lparr>tls_ClientCAs := Some pool, tls_RequireAndVerifyClientCert := True\<rparr>))
          else Inr tlsConfig)"

definition httpTransport :: "tls_files \<Rightarrow> ClientTLS \<Rightarrow> string + tls_Config" where
  "httpTransport F cfg =
     (case (if ctls_CAFile cfg \<noteq> ''''
            then (case read_pool F ''read outbound HTTP CA: '' ''parse outbound HTTP CA'' (ctls_CAFile cfg) of
                    Inl err \<Rightarrow> Inl err
                  | Inr pool \<Rightarrow> Inr ((tls_base (ctls_ServerName cfg))\<lparr>tls_RootCAs := Some pool\<rparr>))
            else Inr (tls_base (ctls_ServerName cfg))) of
        Inl err \<Rightarrow> Inl err
      | Inr tlsConfig \<Rightarrow>
          if ctls_CertFile cfg \<noteq> ''''
          then (case tf_LoadX509KeyPair F (ctls_CertFile cfg) (ctls_KeyFile cfg) of
                  Inl err \<Rightarrow> Inl (''load outbound HTTP client certificate: '' @ err)
                | Inr certificate \<Rightarrow> Inr (tlsConfig\<lparr>tls_Certificates := [certificate]\<rparr>))
          else Inr tlsConfig)"

text \<open>The gRPC client: no TLS at all is \<open>insecure\<close>.\<close>

record TLSConfig =
  gc_Enabled :: bool
  gc_ServerName :: string
  gc_CAFile :: string
  gc_CertFile :: string
  gc_KeyFile :: string
  gc_AllowInsecureToken :: bool

datatype transport_credentials = Insecure | WithTLS tls_Config

definition transportCredentials :: "tls_files \<Rightarrow> TLSConfig \<Rightarrow> string + transport_credentials" where
  "transportCredentials F cfg =
     (if \<not> gc_Enabled cfg then Inr Insecure
      else
        (case (if gc_CAFile cfg \<noteq> ''''
               then (case read_pool F ''read grpc CA: '' ''parse grpc CA'' (gc_CAFile cfg) of
                       Inl err \<Rightarrow> Inl err
                     | Inr pool \<Rightarrow> Inr ((tls_base (gc_ServerName cfg))\<lparr>tls_RootCAs := Some pool\<rparr>))
               else Inr (tls_base (gc_ServerName cfg))) of
           Inl err \<Rightarrow> Inl err
         | Inr tlsConfig \<Rightarrow>
             if gc_CertFile cfg \<noteq> '''' \<or> gc_KeyFile cfg \<noteq> ''''
             then
               if gc_CertFile cfg = '''' \<or> gc_KeyFile cfg = '''' then Inl ''grpc client certificate and key must be configured together''
               else (case tf_LoadX509KeyPair F (gc_CertFile cfg) (gc_KeyFile cfg) of
                       Inl err \<Rightarrow> Inl (''load grpc client certificate: '' @ err)
                     | Inr certificate \<Rightarrow> Inr (WithTLS (tlsConfig\<lparr>tls_Certificates := [certificate]\<rparr>)))
             else Inr (WithTLS tlsConfig)))"

lemma tls_base_simps [simp]:
  "tls_MinVersion (tls_base n) = VersionTLS12" "tls_RequireAndVerifyClientCert (tls_base n) = False" "tls_Certificates (tls_base n) = []"
  by (simp_all add: tls_base_def)

text \<open>Every set-up asks for TLS 1.2 at least; the server checks client certificates exactly when an authority is given.\<close>

lemma serverCredentials_verifies:
  "serverCredentials F cfg = Inr t \<Longrightarrow>
     tls_MinVersion t = VersionTLS12 \<and> (tls_RequireAndVerifyClientCert t \<longleftrightarrow> gtls_ClientCAFile cfg \<noteq> '''') \<and> length (tls_Certificates t) = 1"
  by (auto simp: serverCredentials_def Let_def split: sum.splits if_splits)

lemma transport_encrypted: "transportCredentials F cfg = Inr t \<Longrightarrow> t = Insecure \<longleftrightarrow> \<not> gc_Enabled cfg"
  by (auto simp: transportCredentials_def split: sum.splits if_splits)

end
