(* ===== verification/OutboundHttp.thy ===== *)
theory OutboundHttp
  imports RequestContext TlsConfig GoTime
begin

text \<open>
  The client for outgoing HTTP calls (\<open>internal/outbound/http.go\<close>): relative paths, credentials,
  retries with exponential backoff, and the circuit breaker. The transport, URLs and the breaker are
  parameters; TLS set-up and metrics are not modelled. What was sent and how long the client waited
  is part of the state, so that it can be spoken about.
\<close>

section \<open>Requests and the state of a call\<close>

type_synonym http_header = "string \<Rightarrow> string list"

record out_request =
  oq_Method :: string
  oq_URL :: string
  oq_Header :: http_header
  oq_Body :: string

record out_response =
  or_StatusCode :: int
  or_Body :: string

text \<open>An error by its text, or the error that carries a response with a retryable status.\<close>

datatype out_err = OutErr string | StatusError out_response

type_synonym ('s, 'a) call = "'s \<Rightarrow> (out_err + 'a) \<times> 's"

text \<open>The world behind the transport, the requests sent, the waits, and the outcomes counted.\<close>

record 's out_state =
  os_world :: 's
  os_sent :: "out_request list"
  os_waits :: "duration list"
  os_counted :: "(string \<times> string) list"

type_synonym 's breaker = "('s out_state, out_response) call \<Rightarrow> ('s out_state, out_response) call"

record out_url =
  ou_Scheme :: string
  ou_Host :: string
  ou_IsAbs :: bool
  ou_text :: string

text \<open>
  The environment of a call: the transport (a response or an error), whether the context ends before
  a timer of the given length fires, URL parsing and resolution, whether a request can be built, the
  constructor of circuit breakers, and the integer the machine gives for a \<open>float64\<close> out of the range
  of \<open>int64\<close>, which Go leaves open.
\<close>

record 's out_env =
  oe_Do :: "out_request \<Rightarrow> 's \<Rightarrow> (string + out_response) \<times> 's"
  oe_Done :: "duration \<Rightarrow> 's \<Rightarrow> string option \<times> 's"
  oe_Parse :: "string \<Rightarrow> out_url option"
  oe_Resolve :: "out_url \<Rightarrow> out_url \<Rightarrow> string"
  oe_NewRequest :: "string \<Rightarrow> string \<Rightarrow> string option"
  oe_NewBreaker :: "string \<Rightarrow> Breaker \<Rightarrow> 's breaker"
  oe_outOfRange :: int
  oe_files :: tls_files

record 's HTTPClient =
  hc_name :: string
  hc_baseURL :: out_url
  hc_cfg :: HTTPUpstream
  hc_tls :: tls_Config
  hc_breaker :: "'s breaker option"

section \<open>Helpers\<close>

definition retryableMethod :: "request_ctx \<Rightarrow> string \<Rightarrow> bool" where
  "retryableMethod ctx method =
     (if method = ''GET'' \<or> method = ''HEAD'' \<or> method = ''OPTIONS'' \<or> method = ''PUT'' \<or> method = ''DELETE'' then True
      else ctx_idempotencyKey ctx \<noteq> None)"

definition retryableHTTPStatus :: "int \<Rightarrow> bool" where
  "retryableHTTPStatus status \<longleftrightarrow> status = 429 \<or> status = 502 \<or> status = 503 \<or> status = 504"

definition header_Get :: "http_header \<Rightarrow> string \<Rightarrow> string" where
  "header_Get h k = (case h k of [] \<Rightarrow> '''' | v # _ \<Rightarrow> v)"

definition applyHTTPAuth :: "ClientAuth \<Rightarrow> http_header \<Rightarrow> http_header" where
  "applyHTTPAuth auth h =
     (if ca_Type auth = ''bearer'' then h(''Authorization'' := [''Bearer '' @ ca_Token auth])
      else if ca_Type auth = ''psk'' then h(''Authorization'' := [''PSK '' @ ca_Token auth])
      else h)"

text \<open>\<open>float64(d)\<close> of a duration has 53 significant bits; multiplying by a power of two is exact.\<close>

definition backoff_delay :: "int \<Rightarrow> Retry \<Rightarrow> nat \<Rightarrow> duration" where
  "backoff_delay outOfRange retry attempt =
     (let d = retry_InitialBackoff retry; f = sgn d * int (lua_number (nat \<bar>d\<bar>)) * 2 ^ (attempt - 1);
          delay = (if - (2 ^ 63) \<le> f \<and> f < 2 ^ 63 then f else outOfRange)
      in if retry_MaxBackoff retry < delay then retry_MaxBackoff retry else delay)"

definition waitBackoff :: "'s out_env \<Rightarrow> Retry \<Rightarrow> nat \<Rightarrow> 's out_state \<Rightarrow> string option \<times> 's out_state" where
  "waitBackoff E retry attempt s =
     (let delay = backoff_delay (oe_outOfRange E) retry attempt; (r, w) = oe_Done E delay (os_world s)
      in (r, s\<lparr>os_world := w, os_waits := os_waits s @ [delay]\<rparr>))"

definition client_Do :: "'s out_env \<Rightarrow> out_request \<Rightarrow> 's out_state \<Rightarrow> (string + out_response) \<times> 's out_state" where
  "client_Do E q s = (let (r, w) = oe_Do E q (os_world s) in (r, s\<lparr>os_world := w, os_sent := os_sent s @ [q]\<rparr>))"

section \<open>Calls\<close>

definition build_request :: "HTTPUpstream \<Rightarrow> string \<Rightarrow> string \<Rightarrow> string \<Rightarrow> http_header \<Rightarrow> out_request" where
  "build_request cfg method target body headers =
     (let h = (if 0 < length body \<and> header_Get headers ''Content-Type'' = '''' then headers(''Content-Type'' := [''application/json'']) else headers)
      in \<lparr>oq_Method = method, oq_URL = target, oq_Header = applyHTTPAuth (hup_Auth cfg) h, oq_Body = body\<rparr>)"

text \<open>
  The loop over the attempts: this is number \<open>attempt\<close> of \<open>maxAttempts\<close>, and \<open>left\<close> rounds of the
  loop remain.
\<close>

definition settled :: "nat \<Rightarrow> nat \<Rightarrow> string + out_response \<Rightarrow> (out_err + out_response) option" where
  "settled maxAttempts attempt r =
     (case r of
        Inr response \<Rightarrow>
          if \<not> retryableHTTPStatus (or_StatusCode response) \<or> attempt = maxAttempts then Some (Inr response) else None
      | Inl err \<Rightarrow> if attempt = maxAttempts then Some (Inl (OutErr (''call outbound HTTP service: '' @ err))) else None)"

fun attempts ::
    "'s out_env \<Rightarrow> HTTPUpstream \<Rightarrow> string \<Rightarrow> string \<Rightarrow> string \<Rightarrow> http_header \<Rightarrow> nat \<Rightarrow> nat \<Rightarrow> nat \<Rightarrow>
       ('s out_state, out_response) call" where
  "attempts E cfg method target body headers maxAttempts attempt 0 s = (Inl (OutErr ''outbound HTTP attempts exhausted''), s)"
| "attempts E cfg method target body headers maxAttempts attempt (Suc left) s =
     (case oe_NewRequest E method target of
        Some err \<Rightarrow> (Inl (OutErr (''create outbound HTTP request: '' @ err)), s)
      | None \<Rightarrow>
          (case client_Do E (build_request cfg method target body headers) s of (r, s) \<Rightarrow>
           case settled maxAttempts attempt r of
             Some res \<Rightarrow> (res, s)
           | None \<Rightarrow>
               if attempt < maxAttempts
               then (case waitBackoff E (hup_Retry cfg) attempt s of
                       (Some err, s) \<Rightarrow> (Inl (OutErr err), s)
                     | (None, s) \<Rightarrow> attempts E cfg method target body headers maxAttempts (attempt + 1) left s)
               else attempts E cfg method target body headers maxAttempts (attempt + 1) left s))"

definition doWithRetry ::
    "'s out_env \<Rightarrow> 's HTTPClient \<Rightarrow> request_ctx \<Rightarrow> string \<Rightarrow> string \<Rightarrow> string \<Rightarrow> http_header \<Rightarrow> ('s out_state, out_response) call" where
  "doWithRetry E c ctx method requestPath body headers s =
     (case oe_Parse E requestPath of
        None \<Rightarrow> (Inl (OutErr ''outbound HTTP path must be relative''), s)
      | Some reference \<Rightarrow>
          if ou_IsAbs reference \<or> ou_Host reference \<noteq> '''' then (Inl (OutErr ''outbound HTTP path must be relative''), s)
          else
            let target = oe_Resolve E (hc_baseURL c) reference;
                maxAttempts = (if retryableMethod ctx method then nat (retry_MaxAttempts (hup_Retry (hc_cfg c))) else 1)
            in attempts E (hc_cfg c) method target body headers maxAttempts 1 maxAttempts s)"

text \<open>
  With a breaker, a retryable status counts as a failure for the breaker and is handed back to the
  caller as the response it is.
\<close>

definition execute ::
    "'s out_env \<Rightarrow> 's HTTPClient \<Rightarrow> request_ctx \<Rightarrow> string \<Rightarrow> string \<Rightarrow> string \<Rightarrow> http_header \<Rightarrow> ('s out_state, out_response) call" where
  "execute E c ctx method requestPath body headers s =
     (case hc_breaker c of
        None \<Rightarrow> doWithRetry E c ctx method requestPath body headers s
      | Some breaker_Execute \<Rightarrow>
          let call = (\<lambda>s. case doWithRetry E c ctx method requestPath body headers s of
                 (Inr response, s) \<Rightarrow>
                   if retryableHTTPStatus (or_StatusCode response) then (Inl (StatusError response), s) else (Inr response, s)
               | (Inl err, s) \<Rightarrow> (Inl err, s))
          in (case breaker_Execute call s of
                (Inl (StatusError response), s) \<Rightarrow> (Inr response, s)
              | (r, s) \<Rightarrow> (r, s)))"

definition out_Do ::
    "bool \<Rightarrow> 's out_env \<Rightarrow> 's HTTPClient \<Rightarrow> request_ctx \<Rightarrow> string \<Rightarrow> string \<Rightarrow> string \<Rightarrow> http_header \<Rightarrow> ('s out_state, out_response) call" where
  "out_Do metrics E c ctx method requestPath body headers s =
     (case execute E c ctx method requestPath body headers s of (r, s) \<Rightarrow>
        let status = (case r of Inl _ \<Rightarrow> ''error'' | Inr response \<Rightarrow> dec_int (or_StatusCode response))
        in (r, if metrics then s\<lparr>os_counted := os_counted s @ [(hc_name c, status)]\<rparr> else s))"

definition NewHTTPClient :: "'s out_env \<Rightarrow> string \<Rightarrow> HTTPUpstream \<Rightarrow> config_err + 's HTTPClient" where
  "NewHTTPClient E name cfg =
     (if ca_Type (hup_Auth cfg) \<noteq> '''' \<and> \<not> ctls_Enabled (hup_TLS cfg)
      then Inl (Msg ''refusing to send outbound HTTP credentials without TLS'')
      else
        (case oe_Parse E (hup_BaseURL cfg) of
           None \<Rightarrow> Inl (Quoted ''parse outbound HTTP base URL '' (hup_BaseURL cfg) '''')
         | Some baseURL \<Rightarrow>
             if ou_Scheme baseURL = '''' \<or> ou_Host baseURL = '''' then Inl (Quoted ''parse outbound HTTP base URL '' (hup_BaseURL cfg) '''')
             else
               (case httpTransport (oe_files E) (hup_TLS cfg) of
                  Inl err \<Rightarrow> Inl (Msg err)
                | Inr tls \<Rightarrow>
                    Inr \<lparr>hc_name = name, hc_baseURL = baseURL, hc_cfg = cfg, hc_tls = tls,
                      hc_breaker = (if brk_Enabled (hup_Breaker cfg) then Some (oe_NewBreaker E name (hup_Breaker cfg)) else None)\<rparr>)))"

end
