(* ===== verification/GrpcClient.thy ===== *)
theory GrpcClient
  imports GrpcServer OutboundHttp
begin

text \<open>
  The client for outgoing gRPC calls (\<open>internal/grpcclient/client.go\<close>) and the table of outgoing
  clients (\<open>internal/outbound/registry.go\<close>; the table itself is theory \<open>OutboundTable\<close>): credentials, metadata, timeouts, retries, the circuit
  breaker, and the order in which \<open>Dial\<close> chains them. The connection itself and the breaker are
  parameters.
\<close>

section \<open>Calls\<close>

text \<open>The context of an outgoing call: the values of the request, the metadata to send, the deadline.\<close>

record client_ctx =
  cc_values :: request_ctx
  cc_outgoing :: "(string \<times> string) list"
  cc_deadline :: "duration option"

record 's client_state =
  cs_world :: 's
  cs_waits :: "duration list"
  cs_counted :: "(string \<times> grpc_code option) list"

text \<open>A call fills in the reply, which is part of the state, or gives an error.\<close>

type_synonym 's invoker = "client_ctx \<Rightarrow> string \<Rightarrow> 's client_state \<Rightarrow> grpc_err option \<times> 's client_state"
type_synonym 's client_interceptor = "'s invoker \<Rightarrow> 's invoker"

text \<open>\<open>status.Code\<close>; no error is \<open>OK\<close>, here \<open>None\<close>.\<close>

definition err_code :: "grpc_err option \<Rightarrow> grpc_code option" where
  "err_code e = (case e of None \<Rightarrow> None | Some (Status c _) \<Rightarrow> Some c | Some (Transport _) \<Rightarrow> Some Unknown)"

definition WithRequestID :: "request_ctx \<Rightarrow> string \<Rightarrow> request_ctx" where
  "WithRequestID ctx i = requestid_WithContext ctx i"

definition RequestIDFromContext :: "request_ctx \<Rightarrow> string \<times> bool" where
  "RequestIDFromContext ctx = requestid_FromContext ctx"

definition WithIdempotencyKey :: "request_ctx \<Rightarrow> string \<Rightarrow> request_ctx" where
  "WithIdempotencyKey ctx key = ctx\<lparr>ctx_idempotencyKey := Some key\<rparr>"

section \<open>Interceptors\<close>

definition timeoutInterceptor :: "duration \<Rightarrow> 's client_interceptor" where
  "timeoutInterceptor timeout invoker = (\<lambda>ctx method s.
     if cc_deadline ctx \<noteq> None then invoker ctx method s
     else invoker (ctx\<lparr>cc_deadline := Some timeout\<rparr>) method s)"

definition metadata_pairs :: "string \<Rightarrow> string \<Rightarrow> request_ctx \<Rightarrow> (string \<times> string) list" where
  "metadata_pairs token psk ctx =
     (let pairs = (if token \<noteq> '''' then [(''authorization'', ''Bearer '' @ token)]
                   else if psk \<noteq> '''' then [(''authorization'', ''PSK '' @ psk)] else []);
          pairs = (case RequestIDFromContext ctx of (requestID, ok) \<Rightarrow> if ok then pairs @ [(''x-request-id'', requestID)] else pairs)
      in case ctx_idempotencyKey ctx of Some key \<Rightarrow> pairs @ [(''idempotency-key'', key)] | None \<Rightarrow> pairs)"

definition metadataInterceptor :: "string \<Rightarrow> string \<Rightarrow> 's client_interceptor" where
  "metadataInterceptor token psk invoker = (\<lambda>ctx method s.
     let pairs = metadata_pairs token psk (cc_values ctx)
     in invoker (if 0 < length pairs then ctx\<lparr>cc_outgoing := cc_outgoing ctx @ pairs\<rparr> else ctx) method s)"

definition client_metricsInterceptor :: "string \<Rightarrow> bool \<Rightarrow> 's client_interceptor" where
  "client_metricsInterceptor name enabled invoker = (\<lambda>ctx method s.
     case invoker ctx method s of (err, s) \<Rightarrow>
       (err, if enabled then s\<lparr>cs_counted := cs_counted s @ [(name, err_code err)]\<rparr> else s))"

text \<open>The breaker runs the call or refuses it; which errors count as failures is \<open>IsExcluded\<close>.\<close>

definition IsExcluded :: "grpc_err option \<Rightarrow> bool" where
  "IsExcluded err = (let code = err_code err in code \<noteq> Some Unavailable \<and> code \<noteq> Some ResourceExhausted \<and> code \<noteq> Some DeadlineExceeded)"

type_synonym 's grpc_breaker = "('s client_state \<Rightarrow> grpc_err option \<times> 's client_state) \<Rightarrow> 's client_state \<Rightarrow> grpc_err option \<times> 's client_state"

definition breakerInterceptor ::
    "(string \<Rightarrow> Breaker \<Rightarrow> (grpc_err option \<Rightarrow> bool) \<Rightarrow> 's grpc_breaker) \<Rightarrow> string \<Rightarrow> Breaker \<Rightarrow> 's client_interceptor" where
  "breakerInterceptor NewCircuitBreaker name cfg invoker = (\<lambda>ctx method s.
     NewCircuitBreaker name cfg IsExcluded (\<lambda>s. invoker ctx method s) s)"

definition retryGRPCMethod :: "request_ctx \<Rightarrow> string \<Rightarrow> string list \<Rightarrow> bool" where
  "retryGRPCMethod ctx method patterns =
     (if ctx_idempotencyKey ctx \<noteq> None then True else list_ex (\<lambda>pattern. path_Match pattern method = Some True) patterns)"

text \<open>Shifting a duration wraps at 64 bits.\<close>

definition retry_delay :: "Retry \<Rightarrow> nat \<Rightarrow> duration" where
  "retry_delay cfg attempt =
     (let delay = wrap64 (retry_InitialBackoff cfg * 2 ^ (attempt - 1))
      in if retry_MaxBackoff cfg < delay then retry_MaxBackoff cfg else delay)"

definition waitRetry ::
    "(duration \<Rightarrow> client_ctx \<Rightarrow> 's \<Rightarrow> string option \<times> 's) \<Rightarrow> client_ctx \<Rightarrow> Retry \<Rightarrow> nat \<Rightarrow> 's client_state \<Rightarrow> grpc_err option \<times> 's client_state" where
  "waitRetry Done ctx cfg attempt s =
     (let delay = retry_delay cfg attempt; (r, w) = Done delay ctx (cs_world s)
      in (map_option Transport r, s\<lparr>cs_world := w, cs_waits := cs_waits s @ [delay]\<rparr>))"

text \<open>The loop over the attempts: \<open>left\<close> rounds remain, \<open>err\<close> is the error of the last one.\<close>

fun retry_loop ::
    "(duration \<Rightarrow> client_ctx \<Rightarrow> 's \<Rightarrow> string option \<times> 's) \<Rightarrow> Retry \<Rightarrow> 's invoker \<Rightarrow> client_ctx \<Rightarrow> string \<Rightarrow> nat \<Rightarrow> nat \<Rightarrow>
       grpc_err option \<Rightarrow> 's client_state \<Rightarrow> grpc_err option \<times> 's client_state" where
  "retry_loop Done cfg invoker ctx method attempt 0 err s = (err, s)"
| "retry_loop Done cfg invoker ctx method attempt (Suc left) err s =
     (case invoker ctx method s of (err, s) \<Rightarrow>
        if err_code err \<noteq> Some Unavailable \<and> err_code err \<noteq> Some ResourceExhausted then (err, s)
        else if int attempt < retry_MaxAttempts cfg
        then (case waitRetry Done ctx cfg attempt s of
                (Some waitErr, s) \<Rightarrow> (Some waitErr, s)
              | (None, s) \<Rightarrow> retry_loop Done cfg invoker ctx method (attempt + 1) left err s)
        else retry_loop Done cfg invoker ctx method (attempt + 1) left err s)"

definition retryInterceptor ::
    "(duration \<Rightarrow> client_ctx \<Rightarrow> 's \<Rightarrow> string option \<times> 's) \<Rightarrow> Retry \<Rightarrow> 's client_interceptor" where
  "retryInterceptor Done cfg invoker = (\<lambda>ctx method s.
     if \<not> retryGRPCMethod (cc_values ctx) method (retry_Methods cfg) then invoker ctx method s
     else retry_loop Done cfg invoker ctx method 1 (nat (retry_MaxAttempts cfg)) None s)"

section \<open>Connections\<close>

record client_Config =
  gcc_Target :: string
  gcc_Timeout :: duration
  gcc_Token :: string
  gcc_PSK :: string
  gcc_TLS :: TLSConfig
  gcc_Name :: string
  gcc_Retry :: Retry
  gcc_Breaker :: Breaker
  gcc_Metrics :: "bool option" \<comment> \<open>whether there are metrics, and whether they are enabled\<close>

record 's grpc_lib =
  gl_files :: tls_files
  gl_NewCircuitBreaker :: "string \<Rightarrow> Breaker \<Rightarrow> (grpc_err option \<Rightarrow> bool) \<Rightarrow> 's grpc_breaker"
  gl_Done :: "duration \<Rightarrow> client_ctx \<Rightarrow> 's \<Rightarrow> string option \<times> 's"
  gl_NewClient :: "string \<Rightarrow> transport_credentials \<Rightarrow> string + 's invoker"

record 's ClientConn =
  conn_transport :: transport_credentials
  conn_invoke :: "'s invoker"

definition Dial :: "'s grpc_lib \<Rightarrow> client_Config \<Rightarrow> string + 's ClientConn" where
  "Dial L cfg =
     (if gcc_Target cfg = '''' then Inl ''grpc client target is required''
      else if gcc_Timeout cfg \<le> 0 then Inl ''grpc client timeout must be positive''
      else
        (case transportCredentials (gl_files L) (gcc_TLS cfg) of
           Inl err \<Rightarrow> Inl err
         | Inr transport \<Rightarrow>
             if gcc_Token cfg \<noteq> '''' \<and> \<not> gc_Enabled (gcc_TLS cfg) \<and> \<not> gc_AllowInsecureToken (gcc_TLS cfg)
             then Inl ''refusing to send grpc bearer token without TLS''
             else if gcc_PSK cfg \<noteq> '''' \<and> gcc_Token cfg \<noteq> ''''
             then Inl ''grpc client bearer token and PSK are mutually exclusive''
             else if gcc_PSK cfg \<noteq> '''' \<and> \<not> gc_Enabled (gcc_TLS cfg) \<and> \<not> gc_AllowInsecureToken (gcc_TLS cfg)
             then Inl ''refusing to send grpc PSK without TLS''
             else
               let interceptors =
                     [timeoutInterceptor (gcc_Timeout cfg), metadataInterceptor (gcc_Token cfg) (gcc_PSK cfg)] @
                     (case gcc_Metrics cfg of Some enabled \<Rightarrow> [client_metricsInterceptor (gcc_Name cfg) enabled] | None \<Rightarrow> []) @
                     (if brk_Enabled (gcc_Breaker cfg) then [breakerInterceptor (gl_NewCircuitBreaker L) (gcc_Name cfg) (gcc_Breaker cfg)] else []) @
                     (if 1 < retry_MaxAttempts (gcc_Retry cfg) then [retryInterceptor (gl_Done L) (gcc_Retry cfg)] else [])
               in (case gl_NewClient L (gcc_Target cfg) transport of
                     Inl err \<Rightarrow> Inl err
                   | Inr invoker \<Rightarrow> Inr \<lparr>conn_transport = transport, conn_invoke = foldr (\<lambda>i f. i f) interceptors invoker\<rparr>)))"

section \<open>The settings of one client\<close>

definition upstream_config :: "bool option \<Rightarrow> string \<Rightarrow> GRPCUpstream \<Rightarrow> client_Config" where
  "upstream_config metrics name upstream =
     (let tls = gup_TLS upstream; auth = gup_Auth upstream;
          clientCfg = \<lparr>gcc_Target = gup_Target upstream, gcc_Timeout = gup_Timeout upstream, gcc_Token = '''', gcc_PSK = '''',
            gcc_TLS = \<lparr>gc_Enabled = ctls_Enabled tls, gc_ServerName = ctls_ServerName tls, gc_CAFile = ctls_CAFile tls,
              gc_CertFile = ctls_CertFile tls, gc_KeyFile = ctls_KeyFile tls, gc_AllowInsecureToken = False\<rparr>,
            gcc_Name = name, gcc_Retry = gup_Retry upstream, gcc_Breaker = gup_Breaker upstream, gcc_Metrics = metrics\<rparr>
      in if ca_Type auth = ''bearer'' then clientCfg\<lparr>gcc_Token := ca_Token auth\<rparr>
         else if ca_Type auth = ''psk'' then clientCfg\<lparr>gcc_PSK := ca_Token auth\<rparr>
         else clientCfg)"

end
