(* ===== verification/OutboundProperties.thy ===== *)
theory OutboundProperties
  imports GrpcClient GrpcServerProperties
begin

text \<open>
  Theorems about outgoing calls: how often a request is sent, how long the client waits, and where
  its credentials go.
\<close>

section \<open>Retries\<close>

text \<open>What a run of the loop did: the requests, the waits between them, and why it stopped.\<close>

definition loop_outcome ::
    "'s out_env \<Rightarrow> Retry \<Rightarrow> out_request \<Rightarrow> nat \<Rightarrow> nat \<Rightarrow> 's out_state \<Rightarrow> (out_err + out_response) \<times> 's out_state \<Rightarrow> bool" where
  "loop_outcome E retry q attempt left s out \<longleftrightarrow>
     (\<exists>k j. k \<le> left \<and> j \<le> k \<and> (0 < left \<longrightarrow> j < left) \<and>
        (0 < left \<and> oe_NewRequest E (oq_Method q) (oq_URL q) = None \<longrightarrow> 0 < k) \<and>
        os_sent (snd out) = os_sent s @ replicate k q \<and>
        os_waits (snd out) = os_waits s @ map (backoff_delay (oe_outOfRange E) retry) [attempt..<attempt + j] \<and>
        (\<forall>response. fst out = Inr response \<longrightarrow> 0 < k \<and> (retryableHTTPStatus (or_StatusCode response) \<longrightarrow> k = left)))"

lemma client_Do_state:
  "client_Do E q s = (r, s') \<Longrightarrow> os_sent s' = os_sent s @ [q] \<and> os_waits s' = os_waits s"
  by (auto simp: client_Do_def split: prod.splits)

lemma waitBackoff_state:
  "waitBackoff E retry attempt s = (r, s') \<Longrightarrow>
     os_sent s' = os_sent s \<and> os_waits s' = os_waits s @ [backoff_delay (oe_outOfRange E) retry attempt]"
  by (auto simp: waitBackoff_def Let_def split: prod.splits)

lemma loop_outcome_again:
  assumes "loop_outcome E retry q (attempt + 1) left s2 out" and "0 < left"
    and "os_sent s2 = os_sent s @ [q]" and "os_waits s2 = os_waits s @ [backoff_delay (oe_outOfRange E) retry attempt]"
  shows "loop_outcome E retry q attempt (Suc left) s out"
proof -
  obtain k j where kj: "k \<le> left" "j \<le> k" "j < left" "os_sent (snd out) = os_sent s2 @ replicate k q"
      "os_waits (snd out) = os_waits s2 @ map (backoff_delay (oe_outOfRange E) retry) [attempt + 1..<attempt + 1 + j]"
      "\<forall>response. fst out = Inr response \<longrightarrow> 0 < k \<and> (retryableHTTPStatus (or_StatusCode response) \<longrightarrow> k = left)"
    using assms(1,2) by (auto simp: loop_outcome_def)
  have "[attempt..<attempt + Suc j] = attempt # [attempt + 1..<attempt + 1 + j]" by (simp add: upt_conv_Cons)
  then show ?thesis unfolding loop_outcome_def
    using kj assms(3,4) by (intro exI [of _ "Suc k"] exI [of _ "Suc j"]) (simp del: upt_Suc)
qed

lemma attempts_outcome:
  "attempt + left = Suc maxAttempts \<Longrightarrow>
     loop_outcome E (hup_Retry cfg) (build_request cfg method target body headers) attempt left s
       (attempts E cfg method target body headers maxAttempts attempt left s)"
proof (induction left arbitrary: attempt s)
  case 0
  then show ?case by (auto simp: loop_outcome_def)
next
  case (Suc left)
  let ?q = "build_request cfg method target body headers"
  obtain r s1 where d: "client_Do E ?q s = (r, s1)" by (cases "client_Do E ?q s")
  note d1 = client_Do_state [OF d]
  show ?case
  proof (cases "oe_NewRequest E method target")
    case (Some err)
    then show ?thesis by (auto simp: loop_outcome_def build_request_def Let_def intro: exI [of _ 0])
  next
    case None
    show ?thesis
    proof (cases "settled maxAttempts attempt r")
      case (Some res)
      have "\<forall>response. res = Inr response \<longrightarrow> retryableHTTPStatus (or_StatusCode response) \<longrightarrow> Suc left = 1"
        using Some Suc.prems by (auto simp: settled_def split: sum.splits if_splits)
      then show ?thesis unfolding loop_outcome_def
        using None Some d d1 by (intro exI [of _ 1] exI [of _ 0]) auto
    next
      case unsettled: None
      then have "attempt \<noteq> maxAttempts" by (auto simp: settled_def split: sum.splits if_splits)
      with Suc.prems have lt: "attempt < maxAttempts" "0 < left" by auto
      obtain e s2 where w: "waitBackoff E (hup_Retry cfg) attempt s1 = (e, s2)" by (cases "waitBackoff E (hup_Retry cfg) attempt s1")
      note w1 = waitBackoff_state [OF w]
      show ?thesis
      proof (cases e)
        case (Some err)
        then show ?thesis unfolding loop_outcome_def
          using None unsettled d d1 w w1 lt by (intro exI [of _ 1]) auto
      next
        case e: None
        have "loop_outcome E (hup_Retry cfg) ?q (attempt + 1) left s2 (attempts E cfg method target body headers maxAttempts (attempt + 1) left s2)"
          using Suc.IH Suc.prems by simp
        then have "loop_outcome E (hup_Retry cfg) ?q attempt (Suc left) s (attempts E cfg method target body headers maxAttempts (attempt + 1) left s2)"
          using loop_outcome_again lt(2) d1 w1 by metis
        then show ?thesis using None unsettled d w lt e by simp
      qed
    qed
  qed
qed



text \<open>The policy of an upstream that validation accepts, with a first wait below 104 days.\<close>

definition policy_ok :: "HTTPUpstream \<Rightarrow> bool" where
  "policy_ok cfg \<longleftrightarrow> client_ok (hup_Auth cfg) (hup_Retry cfg) (hup_Breaker cfg) (hup_TLS cfg) \<and> retry_InitialBackoff (hup_Retry cfg) < 2 ^ 53"

definition may_send :: "HTTPUpstream \<Rightarrow> request_ctx \<Rightarrow> string \<Rightarrow> nat" where
  "may_send cfg ctx method = (if retryableMethod ctx method then nat (retry_MaxAttempts (hup_Retry cfg)) else 1)"

lemma doWithRetry_attempts:
  "oe_Parse E path = Some reference \<Longrightarrow> \<not> ou_IsAbs reference \<Longrightarrow> ou_Host reference = '''' \<Longrightarrow>
     doWithRetry E c ctx method path body headers s =
       attempts E (hc_cfg c) method (oe_Resolve E (hc_baseURL c) reference) body headers
         (may_send (hc_cfg c) ctx method) 1 (may_send (hc_cfg c) ctx method) s"
  by (simp add: doWithRetry_def may_send_def Let_def del: attempts.simps)



text \<open>An upstream that is always busy, behind a client that may try three times.\<close>

definition demo_upstream :: HTTPUpstream where
  "demo_upstream = \<lparr>hup_BaseURL = ''http://billing.internal'', hup_Timeout = 1000000000, hup_Auth = \<lparr>ca_Type = ''bearer'', ca_Token = ''secret''\<rparr>,
     hup_Retry = \<lparr>retry_MaxAttempts = 3, retry_InitialBackoff = 100, retry_MaxBackoff = 150, retry_Methods = []\<rparr>,
     hup_Breaker = \<lparr>brk_Enabled = False, brk_FailureThreshold = 0, brk_OpenTimeout = 0\<rparr>,
     hup_TLS = \<lparr>ctls_Enabled = True, ctls_ServerName = '''', ctls_CAFile = '''', ctls_CertFile = '''', ctls_KeyFile = ''''\<rparr>\<rparr>"

definition demo_url :: "string \<Rightarrow> out_url option" where
  "demo_url t = Some (if strings_HasPrefix t ''http://'' then \<lparr>ou_Scheme = ''http'', ou_Host = drop 7 t, ou_IsAbs = True, ou_text = t\<rparr>
     else \<lparr>ou_Scheme = '''', ou_Host = '''', ou_IsAbs = False, ou_text = t\<rparr>)"

definition busy_env :: "unit out_env" where
  "busy_env = \<lparr>oe_Do = (\<lambda>q w. (Inr \<lparr>or_StatusCode = 503, or_Body = ''busy''\<rparr>, w)), oe_Done = (\<lambda>d w. (None, w)), oe_Parse = demo_url,
     oe_Resolve = (\<lambda>base ref. ou_text base @ ou_text ref), oe_NewRequest = (\<lambda>m t. None), oe_NewBreaker = (\<lambda>n b f. f), oe_outOfRange = 0,
     oe_files = \<lparr>tf_LoadX509KeyPair = (\<lambda>c k. Inr c), tf_ReadFile = Inr, tf_AppendCertsFromPEM = Some\<rparr>\<rparr>"


definition empty_ctx :: request_ctx where
  "empty_ctx = \<lparr>ctx_metadata = (\<lambda>_. []), ctx_requestID = None, ctx_environment = None, ctx_idempotencyKey = None, ctx_principal = None,
     ctx_credential = None\<rparr>"

definition no_calls :: "unit out_state" where
  "no_calls = \<lparr>os_world = (), os_sent = [], os_waits = [], os_counted = []\<rparr>"

lemma demo_policy: "policy_ok demo_upstream"
  by (simp add: policy_ok_def client_ok_def demo_upstream_def method_patterns_ok_def)


section \<open>Credentials\<close>

text \<open>
  C33. The client refuses credentials when TLS is not configured, but it looks at the flag only and
  not at the scheme of the base URL: with TLS enabled and a base URL under \<open>http\<close> the client is made,
  and every call sends the token to that plain address.
\<close>

theorem credentials_over_plain_http:
  assumes "ctls_Enabled (hup_TLS cfg)" and "ca_Type (hup_Auth cfg) = ''bearer''" and "policy_ok cfg"
    and "oe_Parse E (hup_BaseURL cfg) = Some base" and "ou_Scheme base = ''http''" and "ou_Host base \<noteq> ''''"
    and "httpTransport (oe_files E) (hup_TLS cfg) = Inr tls"
    and "oe_Parse E path = Some ref" and "\<not> ou_IsAbs ref" and "ou_Host ref = ''''" and "oe_NewRequest E method (oe_Resolve E base ref) = None"
  shows "\<exists>c q. NewHTTPClient E name cfg = Inr c \<and> q \<in> set (os_sent (snd (doWithRetry E c ctx method path body headers s))) \<and>
    oq_URL q = oe_Resolve E base ref \<and> oq_Header q ''Authorization'' = [''Bearer '' @ ca_Token (hup_Auth cfg)]"
proof -
  obtain c where c: "NewHTTPClient E name cfg = Inr c" "hc_cfg c = cfg" "hc_baseURL c = base"
    using assms by (simp add: NewHTTPClient_def)
  let ?q = "build_request cfg method (oe_Resolve E base ref) body headers" and ?n = "may_send cfg ctx method"
  have n: "0 < ?n" using assms(3) by (auto simp: policy_ok_def client_ok_def may_send_def)
  have "loop_outcome E (hup_Retry cfg) ?q 1 ?n s (doWithRetry E c ctx method path body headers s)"
    using attempts_outcome [of 1 ?n ?n E cfg "method" "oe_Resolve E base ref" body headers s] doWithRetry_attempts [OF assms(8-10)] c(2,3)
    by simp
  then have "?q \<in> set (os_sent (snd (doWithRetry E c ctx method path body headers s)))"
    using n assms(11) by (auto simp: loop_outcome_def build_request_def Let_def)
  then show ?thesis using c(1) assms(2) by (intro exI [of _ c] exI [of _ ?q]) (simp add: build_request_def applyHTTPAuth_def Let_def)
qed

theorem credentials_over_plain_http_witness:
  "\<exists>c q. NewHTTPClient busy_env ''billing'' demo_upstream = Inr c \<and>
     q \<in> set (os_sent (snd (doWithRetry busy_env c empty_ctx ''GET'' ''/ping'' '''' (\<lambda>_. []) no_calls))) \<and>
     oq_URL q = ''http://billing.internal/ping'' \<and> oq_Header q ''Authorization'' = [''Bearer secret'']"
  using credentials_over_plain_http [of demo_upstream busy_env "the (demo_url ''http://billing.internal'')" "tls_base ''''" "''/ping''"
      "the (demo_url ''/ping'')" "''GET''" "''billing''" empty_ctx "''''" "\<lambda>_. []" no_calls] demo_policy
  by (simp add: demo_upstream_def busy_env_def demo_url_def strings_HasPrefix_def httpTransport_def)


section \<open>Outgoing gRPC calls\<close>

text \<open>What a server sees of the metadata of a call.\<close>

definition arriving :: "client_ctx \<Rightarrow> request_ctx" where
  "arriving ctx = empty_ctx\<lparr>ctx_metadata := (\<lambda>k. map snd (filter (\<lambda>p. fst p = k) (cc_outgoing ctx)))\<rparr>"

lemma arriving_append:
  "ctx_metadata (arriving (ctx\<lparr>cc_outgoing := cc_outgoing ctx @ ps\<rparr>)) k =
     ctx_metadata (arriving ctx) k @ map snd (filter (\<lambda>p. fst p = k) ps)"
  by (simp add: arriving_def)

lemma metadata_pairs_filter:
  "map snd (filter (\<lambda>p. fst p = ''authorization'') (metadata_pairs token psk ctx)) =
     (if token \<noteq> '''' then [''Bearer '' @ token] else if psk \<noteq> '''' then [''PSK '' @ psk] else [])"
  "map snd (filter (\<lambda>p. fst p = ''x-request-id'') (metadata_pairs token psk ctx)) =
     (if snd (requestid_FromContext ctx) then [fst (requestid_FromContext ctx)] else [])"
  by (auto simp: metadata_pairs_def RequestIDFromContext_def Let_def split: option.splits prod.splits)

text \<open>The context the interceptor passes on.\<close>

definition sent_ctx :: "string \<Rightarrow> string \<Rightarrow> client_ctx \<Rightarrow> client_ctx" where
  "sent_ctx token psk ctx = ctx\<lparr>cc_outgoing := cc_outgoing ctx @ metadata_pairs token psk (cc_values ctx)\<rparr>"

lemma metadataInterceptor_sent: "metadataInterceptor token psk invoker ctx method s = invoker (sent_ctx token psk ctx) method s"
  by (cases "metadata_pairs token psk (cc_values ctx)") (auto simp: metadataInterceptor_def sent_ctx_def Let_def)

lemma cut_scheme: "CHR '' '' \<notin> set scheme \<Longrightarrow> strings_Cut (scheme @ '' '' @ rest) (CHR '' '') = (scheme, rest, True)"
  using strings_Cut_found [of "CHR '' ''" scheme rest] by simp

text \<open>
  C40. Client and server agree: what the client interceptor sends is what the server accepts. A call
  with a pre-shared key is let in, as the principal of the key, on every method the server puts under
  the same key; a call with a token is let in, as the principal the server verifies, on every method
  that needs one; and the identifier of the request travels with the call. The caller must not have
  put metadata of these names there itself.
\<close>

theorem client_server_agree:
  assumes "ctx_metadata (arriving ctx) ''authorization'' = []" and "ctx_metadata (arriving ctx) ''x-request-id'' = []"
  shows "(psk_Enabled (auth_PSK cfg) \<and> MatchesAny method (psk_GRPCMethods (auth_PSK cfg)) \<and> psk_Key (auth_PSK cfg) \<noteq> '''' \<longrightarrow>
      authenticateGRPC J now (arriving (sent_ctx '''' (psk_Key (auth_PSK cfg)) ctx)) method service cfg =
        Inr ((arriving (sent_ctx '''' (psk_Key (auth_PSK cfg)) ctx))\<lparr>ctx_principal := Some psk_principal\<rparr>)) \<and>
    (\<not> (psk_Enabled (auth_PSK cfg) \<and> MatchesAny method (psk_GRPCMethods (auth_PSK cfg))) \<and> \<not> MatchesAny method (auth_SkipGRPCMethods cfg) \<and>
        token \<noteq> '''' \<and> Verify J service now token = Inr identity \<longrightarrow>
      authenticateGRPC J now (arriving (sent_ctx token psk ctx)) method service cfg =
        Inr ((arriving (sent_ctx token psk ctx))\<lparr>ctx_principal := Some identity\<rparr>)) \<and>
    (ctx_requestID (cc_values ctx) = Some i \<and> requestid_Valid i \<longrightarrow> chosen_id fresh (arriving (sent_ctx token psk ctx)) = i) \<and>
    metadataInterceptor token psk invoker ctx method s = invoker (sent_ctx token psk ctx) method s"
proof -
  have auth: "ctx_metadata (arriving (sent_ctx t p ctx)) ''authorization'' =
      (if t \<noteq> '''' then [''Bearer '' @ t] else if p \<noteq> '''' then [''PSK '' @ p] else [])" for t p
    using assms(1) by (simp add: sent_ctx_def arriving_append metadata_pairs_filter)
  have "strings_EqualFold ''PSK'' ''PSK''" "strings_EqualFold ''Bearer'' ''Bearer''" by code_simp+
  then have psk: "VerifyPSK (''PSK '' @ key) key" if "key \<noteq> ''''" for key
    using that by (auto simp: VerifyPSK_iff intro!: exI [of _ "''PSK''"])
  have cut: "strings_Cut (''Bearer '' @ token) (CHR '' '') = (''Bearer'', token, True)"
    using cut_scheme [of "''Bearer''" token] by simp
  have rid: "ctx_metadata (arriving (sent_ctx token psk ctx)) ''x-request-id'' =
      (if snd (requestid_FromContext (cc_values ctx)) then [fst (requestid_FromContext (cc_values ctx))] else [])"
    using assms(2) by (simp add: sent_ctx_def arriving_append metadata_pairs_filter)
  show ?thesis
    using psk cut \<open>strings_EqualFold ''Bearer'' ''Bearer''\<close> metadataInterceptor_sent [of token psk invoker ctx "method" s]
    by (auto simp: authenticateGRPC_def auth Let_def chosen_id_def rid requestid_FromContext_def requestid_Valid_def)
qed


definition demo_call :: client_ctx where
  "demo_call = \<lparr>cc_values = empty_ctx, cc_outgoing = [], cc_deadline = None\<rparr>"

theorem client_server_agree_witness:
  "authenticateGRPC mem_jwt 0 (arriving (sent_ctx '''' demo_secret demo_call)) (registry_method ''GetInstance'') demo_auth_service demo_auth =
     Inr ((arriving (sent_ctx '''' demo_secret demo_call))\<lparr>ctx_principal := Some psk_principal\<rparr>)"
proof -
  have k: "psk_Key (auth_PSK demo_auth) = demo_secret" "psk_Enabled (auth_PSK demo_auth)" "demo_secret \<noteq> ''''"
    by (simp_all add: demo_auth_def demo_secret_def)
  have "path_Match (registry_method ''*'') (registry_method ''GetInstance'') = Some True"
    using path_Match_wildcard [of "registry_method ''''" "registry_method ''GetInstance''"] by (simp add: registry_method_def literal_def)
  then have "MatchesAny (registry_method ''GetInstance'') (psk_GRPCMethods (auth_PSK demo_auth))" by (simp add: demo_auth_def)
  moreover have "ctx_metadata (arriving demo_call) n = []" for n by (simp add: arriving_def demo_call_def)
  ultimately show ?thesis
    using client_server_agree [of demo_call demo_auth "registry_method ''GetInstance''" mem_jwt 0 demo_auth_service, THEN conjunct1] k by simp
qed

text \<open>A connection with credentials is encrypted; the table of clients never asks for an exception.\<close>

lemma Dial_encrypts:
  assumes "Dial L cfg = Inr conn" and "gcc_Token cfg \<noteq> '''' \<or> gcc_PSK cfg \<noteq> ''''" and "\<not> gc_AllowInsecureToken (gcc_TLS cfg)"
  shows "conn_transport conn \<noteq> Insecure \<and> \<not> (gcc_Token cfg \<noteq> '''' \<and> gcc_PSK cfg \<noteq> '''')"
proof -
  obtain t where t: "transportCredentials (gl_files L) (gcc_TLS cfg) = Inr t"
    using assms(1) by (auto simp: Dial_def split: if_splits sum.splits)
  then show ?thesis
    using assms transport_encrypted [OF t] by (auto simp: Dial_def Let_def split: if_splits sum.splits)
qed

end
