(* ===== verification/OutboundTable.thy ===== *)
theory OutboundTable
  imports OutboundProperties Lifecycle
begin

text \<open>
  The table of outgoing clients (\<open>internal/outbound/registry.go\<close>): building it from the
  configuration, looking clients up, closing them, and the authorization client that is looked up
  in it (\<open>internal/authorization/provider.go\<close>). The tables are Go maps; \<open>visit\<close> is the order in
  which a loop sees their keys.
\<close>

section \<open>The table\<close>

record ('s, 't) out_registry =
  reg_http :: "(string, 't HTTPClient) fmap"
  reg_grpc :: "(string, 's ClientConn) fmap"

text \<open>
  The loops over the configured clients. The first client that cannot be made stops them, with its
  protocol, name and error, and with the clients made so far.
\<close>

type_synonym create_err = "string \<times> string \<times> config_err"

fun add_http ::
    "'t out_env \<Rightarrow> (string \<times> HTTPUpstream) list \<Rightarrow> ('s, 't) out_registry \<Rightarrow>
     create_err \<times> ('s, 't) out_registry + ('s, 't) out_registry" where
  "add_http E [] r = Inr r"
| "add_http E ((name, upstream) # rest) r =
     (case NewHTTPClient E name upstream of
        Inl err \<Rightarrow> Inl ((''HTTP'', name, err), r)
      | Inr client \<Rightarrow> add_http E rest (r\<lparr>reg_http := fmupd name client (reg_http r)\<rparr>))"

fun add_grpc ::
    "'s grpc_lib \<Rightarrow> bool option \<Rightarrow> (string \<times> GRPCUpstream) list \<Rightarrow> ('s, 't) out_registry \<Rightarrow>
     create_err \<times> ('s, 't) out_registry + ('s, 't) out_registry" where
  "add_grpc L metrics [] r = Inr r"
| "add_grpc L metrics ((name, upstream) # rest) r =
     (case Dial L (upstream_config metrics name upstream) of
        Inl err \<Rightarrow> Inl ((''gRPC'', name, Msg err), r)
      | Inr connection \<Rightarrow> add_grpc L metrics rest (r\<lparr>reg_grpc := fmupd name connection (reg_grpc r)\<rparr>))"

definition make_clients ::
    "(string list \<Rightarrow> string list) \<Rightarrow> 't out_env \<Rightarrow> 's grpc_lib \<Rightarrow> bool option \<Rightarrow> Config \<Rightarrow>
     create_err \<times> ('s, 't) out_registry + ('s, 't) out_registry" where
  "make_clients visit E L metrics cfg =
     (case add_http E (range_map visit (out_HTTP (cfg_Outbound cfg))) \<lparr>reg_http = fmempty, reg_grpc = fmempty\<rparr> of
        Inl err \<Rightarrow> Inl err
      | Inr registry \<Rightarrow> add_grpc L metrics (range_map visit (out_GRPC (cfg_Outbound cfg))) registry)"

definition Registry_HTTP :: "('s, 't) out_registry \<Rightarrow> string \<Rightarrow> 't HTTPClient option" where
  "Registry_HTTP r name = fmlookup (reg_http r) name"

definition Registry_GRPC :: "('s, 't) out_registry \<Rightarrow> string \<Rightarrow> 's ClientConn option" where
  "Registry_GRPC r name = fmlookup (reg_grpc r) name"

section \<open>Closing\<close>

text \<open>Every connection is closed; the error returned is the first one.\<close>

record ('s, 't, 'w) closing =
  cl_CloseIdleConnections :: "'t HTTPClient \<Rightarrow> 'w \<Rightarrow> 'w"
  cl_Close :: "'s ClientConn \<Rightarrow> 'w action"

definition close_conn :: "('s, 't, 'w) closing \<Rightarrow> string \<times> 's ClientConn \<Rightarrow> go_error option \<times> 'w \<Rightarrow> go_error option \<times> 'w" where
  "close_conn C = (\<lambda>(name, connection) (closeErr, w).
     case cl_Close C connection w of
       (Some e, w1) \<Rightarrow>
         (if closeErr = None then Some (wrap_error [Txt ''close outbound gRPC client '', Quo name, Txt '': ''] e) else closeErr, w1)
     | (None, w1) \<Rightarrow> (closeErr, w1))"

definition Registry_close :: "(string list \<Rightarrow> string list) \<Rightarrow> ('s, 't, 'w) closing \<Rightarrow> ('s, 't) out_registry \<Rightarrow> 'w action" where
  "Registry_close visit C r w =
     fold (close_conn C) (range_map visit (reg_grpc r))
       (None, fold (\<lambda>(_, client). cl_CloseIdleConnections C client) (range_map visit (reg_http r)) w)"

definition config_err_text :: "config_err \<Rightarrow> text_part list" where
  "config_err_text e = (case e of Msg m \<Rightarrow> [Txt m] | Quoted a q b \<Rightarrow> [Txt a, Quo q, Txt b])"

definition create_error :: "create_err \<Rightarrow> go_error" where
  "create_error = (\<lambda>(protocol, name, e).
     \<lparr>err_text = [Txt (''create outbound '' @ protocol @ '' client ''), Quo name, Txt '': ''] @ config_err_text e, err_chain = []\<rparr>)"

definition NewRegistry ::
    "(string list \<Rightarrow> string list) \<Rightarrow> 't out_env \<Rightarrow> 's grpc_lib \<Rightarrow> ('s, 't, 'w) closing \<Rightarrow> bool option \<Rightarrow> Config \<Rightarrow>
     ('w, ('s, 't) out_registry) constructor" where
  "NewRegistry visit E L C metrics cfg lw =
     (case lw of (hooks, w) \<Rightarrow>
        (case make_clients visit E L metrics cfg of
           Inl (err, partial) \<Rightarrow> (Inl (create_error err), (hooks, snd (Registry_close visit C partial w)))
         | Inr registry \<Rightarrow> (Inr registry, (hooks @ [StopHook (Registry_close visit C registry)], w))))"

section \<open>The authorization client\<close>

text \<open>
  The authorizer of the platform library, made from a client of the authorization service and a
  timeout; without a configured connection it is made from nil.
\<close>

definition authorization_New :: "('s ClientConn option \<Rightarrow> duration \<Rightarrow> 'a) \<Rightarrow> ('s, 't) out_registry \<Rightarrow> 'a" where
  "authorization_New NewGRPCAuthorizer registry =
     (case Registry_GRPC registry ''authorization'' of
        None \<Rightarrow> NewGRPCAuthorizer None (2 * time_Second)
      | Some connection \<Rightarrow> NewGRPCAuthorizer (Some connection) (2 * time_Second))"

section \<open>What the table holds\<close>

lemma add_grpc_entries:
  "add_grpc L metrics ups r = Inr r' \<Longrightarrow> fmlookup (reg_grpc r') name = Some conn \<Longrightarrow>
     fmlookup (reg_grpc r) name = Some conn \<or>
     (\<exists>upstream. (name, upstream) \<in> set ups \<and> Dial L (upstream_config metrics name upstream) = Inr conn)"
proof (induction L metrics ups r rule: add_grpc.induct)
  case (2 L metrics n upstream rest r)
  then obtain c where c: "Dial L (upstream_config metrics n upstream) = Inr c"
      "add_grpc L metrics rest (r\<lparr>reg_grpc := fmupd n c (reg_grpc r)\<rparr>) = Inr r'"
    by (auto split: sum.splits)
  with 2 show ?case by (auto split: if_splits)
qed simp

lemma add_grpc_http: "add_grpc L metrics ups r = Inr r' \<Longrightarrow> reg_http r' = reg_http r"
  by (induction L metrics ups r rule: add_grpc.induct) (auto split: sum.splits)

lemma add_http_grpc: "add_http E ups r = Inr r' \<Longrightarrow> reg_grpc r' = reg_grpc r"
  by (induction E ups r rule: add_http.induct) (auto split: sum.splits)

lemma add_grpc_names: "add_grpc L metrics ups r = Inr r' \<Longrightarrow> fmdom' (reg_grpc r') = fmdom' (reg_grpc r) \<union> fst ` set ups"
  by (induction L metrics ups r rule: add_grpc.induct) (auto split: sum.splits)

text \<open>The table has a connection for exactly the configured names, each dialled with its own settings.\<close>

lemma make_clients_grpc:
  assumes "make_clients visit E L metrics cfg = Inr r" and "\<And>ks. set (visit ks) = set ks"
  shows "fmdom' (reg_grpc r) = fmdom' (out_GRPC (cfg_Outbound cfg))"
    and "Registry_GRPC r name = Some conn \<Longrightarrow> fmlookup (out_GRPC (cfg_Outbound cfg)) name = Some upstream \<Longrightarrow>
      Dial L (upstream_config metrics name upstream) = Inr conn"
proof -
  obtain r0 where r0: "add_http E (range_map visit (out_HTTP (cfg_Outbound cfg))) \<lparr>reg_http = fmempty, reg_grpc = fmempty\<rparr> = Inr r0"
      "add_grpc L metrics (range_map visit (out_GRPC (cfg_Outbound cfg))) r0 = Inr r"
    using assms(1) by (auto simp: make_clients_def split: sum.splits)
  have e: "reg_grpc r0 = fmempty" using add_http_grpc [OF r0(1)] by simp
  show "fmdom' (reg_grpc r) = fmdom' (out_GRPC (cfg_Outbound cfg))"
  proof -
    have "fst ` set (range_map visit (out_GRPC (cfg_Outbound cfg))) = fmdom' (out_GRPC (cfg_Outbound cfg))"
      using assms(2) by (simp add: set_range_map) (auto simp: fmlookup_dom'_iff image_iff)
    then show ?thesis using add_grpc_names [OF r0(2)] e by simp
  qed
  show "Dial L (upstream_config metrics name upstream) = Inr conn"
    if "Registry_GRPC r name = Some conn" "fmlookup (out_GRPC (cfg_Outbound cfg)) name = Some upstream"
    using add_grpc_entries [OF r0(2), of name conn] that e assms(2) by (auto simp: Registry_GRPC_def set_range_map)
qed

text \<open>A client with credentials never talks over an unencrypted connection.\<close>

lemma make_clients_encrypts:
  assumes "make_clients visit E L metrics cfg = Inr r" and "Registry_GRPC r name = Some conn" and "\<And>ks. set (visit ks) = set ks"
    and "fmlookup (out_GRPC (cfg_Outbound cfg)) name = Some upstream" and "ca_Type (gup_Auth upstream) \<in> {''bearer'', ''psk''}"
    and "ca_Token (gup_Auth upstream) \<noteq> ''''"
  shows "conn_transport conn \<noteq> Insecure"
  using make_clients_grpc(2) [OF assms(1,3,2,4)] assms(5,6) Dial_encrypts [of L "upstream_config metrics name upstream" conn]
  by (auto simp: upstream_config_def Let_def)

end
