(* ===== verification/Startup.thy ===== *)
theory Startup
  imports MigrationProperties Scheduler OutboundTable Health GoTime
begin

text \<open>
  The constructors of the process (\<open>internal/app/app.go\<close>, \<open>internal/eventbus\<close>,
  \<open>internal/idempotency\<close>, and the life cycle of the two servers), with the resources they hold,
  and the commands \<open>cmd/api\<close>. Opening the database and opening Redis keep the contract \<open>managed\<close>
  of theory \<open>Lifecycle\<close>, whatever goes wrong on the way.
\<close>

section \<open>Database and Redis\<close>

definition newDatabase :: "('s, 'h, 'l, 'p, 'q) sql_lib \<Rightarrow> Config \<Rightarrow> ('s, 'h option) constructor" where
  "newDatabase lib cfg =
     when_enabled (db_Enabled (cfg_Database cfg)) (provide (database_Open lib (cfg_Database cfg)) (lib_db_Close lib))"

text \<open>Opening the client and, with tracing, instrumenting it; a client that cannot be instrumented is closed.\<close>

definition open_redis :: "('s, 'r) redis_lib \<Rightarrow> ('r \<Rightarrow> 's action) \<Rightarrow> bool \<Rightarrow> RedisConfig \<Rightarrow> ('s, 'r) acquire" where
  "open_redis lib InstrumentTracing tracing cfg s =
     (case cache_Open lib cfg s of
        (Inl e, s1) \<Rightarrow> (Inl e, s1)
      | (Inr client, s1) \<Rightarrow>
          if tracing then
            (case InstrumentTracing client s1 of
               (Some e, s2) \<Rightarrow> (Inl (wrap_error [Txt ''instrument redis tracing: ''] e), snd (rl_Close lib client s2))
             | (None, s2) \<Rightarrow> (Inr client, s2))
          else (Inr client, s1))"

definition newRedis :: "('s, 'r) redis_lib \<Rightarrow> ('r \<Rightarrow> 's action) \<Rightarrow> 'p Tracing \<Rightarrow> Config \<Rightarrow> ('s, 'r option) constructor" where
  "newRedis lib InstrumentTracing tracing cfg =
     when_enabled (redis_Enabled (cfg_Redis cfg))
       (provide (open_redis lib InstrumentTracing (tc_enabled tracing) (cfg_Redis cfg)) (rl_Close lib))"

definition newLocker :: "('r \<Rightarrow> ('s, 'x, 'c) redsync) \<Rightarrow> 'r option \<Rightarrow> ('s, 'x, 'c) redsync option" where
  "newLocker NewLocker client = (case client of None \<Rightarrow> None | Some c \<Rightarrow> Some (NewLocker c))"

section \<open>Event bus and idempotency\<close>

record bus_config =
  bc_URLs :: "string list"
  bc_ClientName :: string
  bc_StreamName :: string
  bc_Subjects :: "string list"
  bc_Storage :: string
  bc_MaxAge :: duration
  bc_DuplicateWindow :: duration
  bc_ConnectTimeout :: duration
  bc_ReconnectWait :: duration
  bc_PublishTimeout :: duration
  bc_ConsumerAckWait :: duration
  bc_ConsumerMaxDeliver :: int

record ('s, 'b, 'e) bus_lib =
  bl_New :: "bus_config \<Rightarrow> ('s, 'b) acquire"
  bl_Publish :: "'b \<Rightarrow> string \<Rightarrow> 'e \<Rightarrow> 's action"
  bl_Close :: "'b \<Rightarrow> 's action"

definition eventbus_New :: "('s, 'b, 'e) bus_lib \<Rightarrow> Config \<Rightarrow> ('s, 'b option) acquire" where
  "eventbus_New lib cfg s =
     (let e = cfg_EventBus cfg in
      if \<not> bus_Enabled e then (Inr None, s)
      else
        (case bl_New lib \<lparr>bc_URLs = bus_URLs e, bc_ClientName = app_Name (cfg_App cfg), bc_StreamName = bus_StreamName e,
                bc_Subjects = bus_Subjects e, bc_Storage = bus_Storage e, bc_MaxAge = bus_MaxAge e,
                bc_DuplicateWindow = bus_DuplicateWindow e, bc_ConnectTimeout = bus_ConnectTimeout e,
                bc_ReconnectWait = bus_ReconnectWait e, bc_PublishTimeout = bus_PublishTimeout e,
                bc_ConsumerAckWait = bus_ConsumerAckWait e, bc_ConsumerMaxDeliver = bus_ConsumerMaxDeliver e\<rparr> s of
           (Inl err, s1) \<Rightarrow> (Inl err, s1)
         | (Inr b, s1) \<Rightarrow> (Inr (Some b), s1)))"

definition eventbus_Publish :: "('s, 'b, 'e) bus_lib \<Rightarrow> 'b option \<Rightarrow> string \<Rightarrow> 'e \<Rightarrow> 's action" where
  "eventbus_Publish lib bus subject envelope s =
     (case bus of None \<Rightarrow> (Some (errors_New ''event bus is disabled''), s) | Some b \<Rightarrow> bl_Publish lib b subject envelope s)"

definition eventbus_Close :: "('s, 'b, 'e) bus_lib \<Rightarrow> 'b option \<Rightarrow> 's action" where
  "eventbus_Close lib bus s = (case bus of None \<Rightarrow> (None, s) | Some b \<Rightarrow> bl_Close lib b s)"

definition newBus :: "('s, 'b, 'e) bus_lib \<Rightarrow> Config \<Rightarrow> ('s, 'b option) constructor" where
  "newBus lib cfg = provide (eventbus_New lib cfg) (eventbus_Close lib)"

record idempotency_config =
  ic_Enabled :: bool
  ic_Service :: string
  ic_ProcessingTTL :: duration
  ic_ResultTTL :: duration
  ic_FailureTTL :: duration

definition idempotency_New :: "('r option \<Rightarrow> idempotency_config \<Rightarrow> 'm) \<Rightarrow> 'r option \<Rightarrow> Config \<Rightarrow> 'm" where
  "idempotency_New New client cfg =
     New client \<lparr>ic_Enabled = idem_Enabled (cfg_Idempotency cfg), ic_Service = app_Name (cfg_App cfg),
       ic_ProcessingTTL = idem_ProcessingTTL (cfg_Idempotency cfg), ic_ResultTTL = idem_ResultTTL (cfg_Idempotency cfg),
       ic_FailureTTL = idem_FailureTTL (cfg_Idempotency cfg)\<rparr>"

text \<open>The key in the context of a request: the platform library keeps and checks it.\<close>

record 'c idempotency_lib =
  il_Valid :: "string \<Rightarrow> bool"
  il_WithContext :: "'c \<Rightarrow> string \<Rightarrow> 'c"
  il_FromContext :: "'c \<Rightarrow> string \<times> bool"

definition idempotency_Valid :: "'c idempotency_lib \<Rightarrow> string \<Rightarrow> bool" where
  "idempotency_Valid lib key = il_Valid lib key"

definition idempotency_WithContext :: "'c idempotency_lib \<Rightarrow> 'c \<Rightarrow> string \<Rightarrow> 'c" where
  "idempotency_WithContext lib ctx key = il_WithContext lib ctx key"

definition idempotency_FromContext :: "'c idempotency_lib \<Rightarrow> 'c \<Rightarrow> string \<times> bool" where
  "idempotency_FromContext lib ctx = il_FromContext lib ctx"

section \<open>The servers\<close>

text \<open>
  Listening, serving in a goroutine and shutting down are operations of the libraries; \<open>sv_Serve\<close>
  starts the goroutine, which reports in the log when it ends. \<open>sv_GracefulStop\<close> says whether it
  finished before the stop context did.
\<close>

record ('s, 'n, 'g) server_lib =
  sv_Listen :: "string \<Rightarrow> ('s, 'n) acquire"
  sv_Serve :: "'g \<Rightarrow> 'n \<Rightarrow> 's \<Rightarrow> 's"
  sv_GracefulStop :: "'g \<Rightarrow> 's \<Rightarrow> go_error option \<times> 's"   \<comment> \<open>the error of the context that ended first, if it did\<close>
  sv_Stop :: "'g \<Rightarrow> 's \<Rightarrow> 's"
  sv_Shutdown :: "'g \<Rightarrow> 's action"

record grpc_server =
  gs_MaxRecvMsgSize :: int
  gs_Creds :: "tls_Config option"
  gs_Services :: "string list"
  gs_Address :: string

definition grpc_services :: "Config \<Rightarrow> string list" where
  "grpc_services cfg =
     [''platform.registry.v1.RegistryService'', ''grpc.health.v1.Health''] @
     (if grpc_ReflectionEnabled (cfg_GRPC cfg) then [''grpc.reflection''] else [])"

definition Server_start :: "('s, 'n, grpc_server) server_lib \<Rightarrow> 's slog \<Rightarrow> bool \<Rightarrow> grpc_server \<Rightarrow> 's action" where
  "Server_start lib log enabled g s =
     (if \<not> enabled then (None, log Warn ''grpc server is disabled'' s)
      else
        (case sv_Listen lib (gs_Address g) s of
           (Inl e, s1) \<Rightarrow> (Some (wrap_error [Txt ''listen grpc: ''] e), s1)
         | (Inr listener, s1) \<Rightarrow> (None, log Info ''grpc server started'' (sv_Serve lib g listener s1))))"

definition Server_stop :: "('s, 'n, 'g) server_lib \<Rightarrow> 'g \<Rightarrow> 's action" where
  "Server_stop lib g s =
     (case sv_GracefulStop lib g s of
        (None, s1) \<Rightarrow> (None, s1)
      | (Some ctxErr, s1) \<Rightarrow> (Some ctxErr, sv_Stop lib g s1))"

definition grpc_NewServer ::
    "tls_files \<Rightarrow> ('s, 'n, grpc_server) server_lib \<Rightarrow> 's slog \<Rightarrow> Config \<Rightarrow> ('s, grpc_server) constructor" where
  "grpc_NewServer F lib log cfg w =
     (case w of (hooks, s) \<Rightarrow>
        (case (if gtls_Enabled (grpc_TLS (cfg_GRPC cfg))
               then map_sum id Some (serverCredentials F (grpc_TLS (cfg_GRPC cfg))) else Inr None) of
           Inl e \<Rightarrow> (Inl (errors_New e), (hooks, s))
         | Inr creds \<Rightarrow>
             (let server = \<lparr>gs_MaxRecvMsgSize = grpc_MaxReceiveBytes (cfg_GRPC cfg), gs_Creds = creds,
                            gs_Services = grpc_services cfg, gs_Address = grpc_Address (cfg_GRPC cfg)\<rparr>
              in (Inr server,
                  (hooks @ [\<lparr>hk_OnStart = Server_start lib log (grpc_Enabled (cfg_GRPC cfg)) server,
                             hk_OnStop = Server_stop lib server\<rparr>], s)))))"

record http_server =
  hs_Addr :: string
  hs_ReadTimeout :: duration
  hs_WriteTimeout :: duration
  hs_IdleTimeout :: duration

text \<open>The routes and the middleware of the router are theories \<open>HttpRoutes\<close> and \<open>HttpPipeline\<close>.\<close>

definition http_start :: "('s, 'n, http_server) server_lib \<Rightarrow> 's slog \<Rightarrow> http_server \<Rightarrow> 's action" where
  "http_start lib log server s =
     (case sv_Listen lib (hs_Addr server) s of
        (Inl e, s1) \<Rightarrow> (Some (wrap_error [Txt ''listen http: ''] e), s1)
      | (Inr listener, s1) \<Rightarrow> (None, log Info ''http server started'' (sv_Serve lib server listener s1)))"

definition http_NewServer ::
    "(string list \<Rightarrow> go_error option) \<Rightarrow> ('s, 'n, http_server) server_lib \<Rightarrow> 's slog \<Rightarrow> Config \<Rightarrow> ('s, http_server) constructor" where
  "http_NewServer SetTrustedProxies lib log cfg w =
     (case w of (hooks, s) \<Rightarrow>
        (case SetTrustedProxies (http_TrustedProxies (cfg_HTTP cfg)) of
           Some e \<Rightarrow> (Inl (wrap_error [Txt ''configure trusted proxies: ''] e), (hooks, s))
         | None \<Rightarrow>
             (let server = \<lparr>hs_Addr = http_Address (cfg_HTTP cfg), hs_ReadTimeout = http_ReadTimeout (cfg_HTTP cfg),
                            hs_WriteTimeout = http_WriteTimeout (cfg_HTTP cfg), hs_IdleTimeout = http_IdleTimeout (cfg_HTTP cfg)\<rparr>
              in (Inr server,
                  (hooks @ [\<lparr>hk_OnStart = http_start lib log server, hk_OnStop = sv_Shutdown lib server\<rparr>], s)))))"

section \<open>The contracts of the drivers\<close>

text \<open>\<open>live\<close> is the set of pools that are open: opening adds one, closing removes it, using it does neither.\<close>

locale sql_pools =
  fixes lib :: "('s, 'h, 'l, 'p, 'q) sql_lib"
    and live :: "'s \<Rightarrow> 'h set"
  assumes pgx_opens: "lib_stdlib_OpenDB lib c s = (h, s') \<Longrightarrow> h \<notin> live s \<and> live s' = insert h (live s)"
    and sqlx_opens: "lib_sqlx_Open lib driver dsn s = (Inr h, s') \<Longrightarrow> h \<notin> live s \<and> live s' = insert h (live s)"
    and sqlx_fails: "lib_sqlx_Open lib driver dsn s = (Inl e, s') \<Longrightarrow> live s' = live s"
    and setters_keep: "live (lib_SetMaxOpenConns lib h n s) = live s" "live (lib_SetMaxIdleConns lib h n s) = live s"
      "live (lib_SetConnMaxLifetime lib h d s) = live s" "live (lib_SetConnMaxIdleTime lib h d s) = live s"
    and ping_keeps: "live (snd (lib_PingContext lib h d s)) = live s"
    and pool_closes: "live (snd (lib_db_Close lib h s)) = live s - {h}"
begin

lemma open_pool_live:
  "open_pool lib cfg driver s = (Inr h, s') \<Longrightarrow> h \<notin> live s \<and> live s' = insert h (live s)"
  "open_pool lib cfg driver s = (Inl e, s') \<Longrightarrow> live s' = live s"
  using pgx_opens sqlx_opens sqlx_fails
  by (auto simp: open_pool_def Let_def split: if_splits sum.splits prod.splits)

lemma database_Open_live:
  "database_Open lib cfg s = (Inr h, s') \<Longrightarrow> h \<notin> live s \<and> live s' = insert h (live s)"
  "database_Open lib cfg s = (Inl e, s') \<Longrightarrow> live s' = live s"
proof -
  have ping: "live u = live v" if "lib_PingContext lib x d v = (r, u)" for x d v r u
    using ping_keeps [of x d v] that by simp
  show "database_Open lib cfg s = (Inr h, s') \<Longrightarrow> h \<notin> live s \<and> live s' = insert h (live s)"
    by (auto simp: database_Open_def Let_def setters_keep dest!: open_pool_live ping
        split: sum.splits prod.splits option.splits)
  show "database_Open lib cfg s = (Inl e, s') \<Longrightarrow> live s' = live s"
    by (auto simp: database_Open_def Let_def setters_keep pool_closes dest!: open_pool_live ping
        split: sum.splits prod.splits option.splits)
qed

end

sublocale sql_pools \<subseteq> database: managed live "database_Open lib cfg" "lib_db_Close lib" for cfg
  by unfold_locales (auto simp: pool_closes dest: database_Open_live)

locale redis_clients =
  fixes lib :: "('s, 'r) redis_lib"
    and InstrumentTracing :: "'r \<Rightarrow> 's action"
    and live :: "'s \<Rightarrow> 'r set"
  assumes client_opens: "rl_NewClient lib opts s = (c, s') \<Longrightarrow> c \<notin> live s \<and> live s' = insert c (live s)"
    and client_ping_keeps: "live (snd (rl_Ping lib c s)) = live s"
    and instrument_keeps: "live (snd (InstrumentTracing c s)) = live s"
    and client_closes: "live (snd (rl_Close lib c s)) = live s - {c}"
begin

lemma cache_Open_live:
  "cache_Open lib cfg s = (Inr c, s') \<Longrightarrow> c \<notin> live s \<and> live s' = insert c (live s)"
  "cache_Open lib cfg s = (Inl e, s') \<Longrightarrow> live s' = live s"
proof -
  have ping: "live u = live v" if "rl_Ping lib x v = (r, u)" for x v r u
    using client_ping_keeps [of x v] that by simp
  show "cache_Open lib cfg s = (Inr c, s') \<Longrightarrow> c \<notin> live s \<and> live s' = insert c (live s)"
    by (auto simp: cache_Open_def dest!: client_opens ping split: prod.splits option.splits)
  show "cache_Open lib cfg s = (Inl e, s') \<Longrightarrow> live s' = live s"
    by (auto simp: cache_Open_def client_closes dest!: client_opens ping split: prod.splits option.splits)
qed

lemma open_redis_live:
  "open_redis lib InstrumentTracing tracing cfg s = (Inr c, s') \<Longrightarrow> c \<notin> live s \<and> live s' = insert c (live s)"
  "open_redis lib InstrumentTracing tracing cfg s = (Inl e, s') \<Longrightarrow> live s' = live s"
proof -
  have ins: "live u = live v" if "InstrumentTracing x v = (r, u)" for x v r u
    using instrument_keeps [of x v] that by simp
  show "open_redis lib InstrumentTracing tracing cfg s = (Inr c, s') \<Longrightarrow> c \<notin> live s \<and> live s' = insert c (live s)"
    by (auto simp: open_redis_def dest!: cache_Open_live ins split: prod.splits sum.splits option.splits if_splits)
  show "open_redis lib InstrumentTracing tracing cfg s = (Inl e, s') \<Longrightarrow> live s' = live s"
    by (auto simp: open_redis_def client_closes dest!: cache_Open_live ins split: prod.splits sum.splits option.splits if_splits)
qed

end

sublocale redis_clients \<subseteq> redis: managed live "open_redis lib InstrumentTracing tracing cfg" "rl_Close lib" for tracing cfg
  by unfold_locales (auto simp: client_closes dest: open_redis_live)

section \<open>Nothing is left open\<close>

text \<open>What holds of every managed resource, for the two constructors.\<close>

context sql_pools
begin

lemmas newDatabase_releases = database.provide_releases
  [of "db_Enabled (cfg_Database cfg)" "cfg_Database cfg" for cfg :: Config, folded newDatabase_def]

end

context redis_clients
begin

lemmas newRedis_releases = redis.provide_releases
  [of "redis_Enabled (cfg_Redis cfg)" "tc_enabled tracing" "cfg_Redis cfg" for cfg :: Config and tracing :: "'e Tracing", folded newRedis_def]

end

text \<open>
  C32. Building the database pool and the Redis client leaks nothing. A constructor that fails,
  at whatever point (parsing, opening, the first ping, instrumenting), leaves no connection of its own
  behind and appends no hook; one that succeeds appends hooks whose execution at
  shutdown gives back exactly what it opened; with the component disabled nothing is opened and nothing is changed.
\<close>

theorem startup_releases:
  assumes "sql_pools L live_db" and "redis_clients R instr live_redis"
  shows "(newDatabase L cfg (hooks, s) = (r, (hooks1, s1)) \<longrightarrow>
      (\<exists>new. hooks1 = hooks @ new \<and> live_db (stop_all new s1) = live_db s \<and>
        (case r of Inl e \<Rightarrow> new = [] | Inr None \<Rightarrow> new = [] \<and> s1 = s \<and> \<not> db_Enabled (cfg_Database cfg)
         | Inr (Some h) \<Rightarrow> db_Enabled (cfg_Database cfg) \<and> live_db s1 = insert h (live_db s)))) \<and>
    (newRedis R instr tracing cfg (hooks, s) = (q, (hooks2, s2)) \<longrightarrow>
      (\<exists>new. hooks2 = hooks @ new \<and> live_redis (stop_all new s2) = live_redis s \<and>
        (case q of Inl e \<Rightarrow> new = [] | Inr None \<Rightarrow> new = [] \<and> s2 = s \<and> \<not> redis_Enabled (cfg_Redis cfg)
         | Inr (Some c) \<Rightarrow> redis_Enabled (cfg_Redis cfg) \<and> live_redis s2 = insert c (live_redis s))))"
proof (intro conjI impI)
  assume "newDatabase L cfg (hooks, s) = (r, (hooks1, s1))"
  then show "\<exists>new. hooks1 = hooks @ new \<and> live_db (stop_all new s1) = live_db s \<and>
      (case r of Inl e \<Rightarrow> new = [] | Inr None \<Rightarrow> new = [] \<and> s1 = s \<and> \<not> db_Enabled (cfg_Database cfg)
       | Inr (Some h) \<Rightarrow> db_Enabled (cfg_Database cfg) \<and> live_db s1 = insert h (live_db s))"
    by (rule sql_pools.newDatabase_releases [OF assms(1)])
next
  assume "newRedis R instr tracing cfg (hooks, s) = (q, (hooks2, s2))"
  then show "\<exists>new. hooks2 = hooks @ new \<and> live_redis (stop_all new s2) = live_redis s \<and>
      (case q of Inl e \<Rightarrow> new = [] | Inr None \<Rightarrow> new = [] \<and> s2 = s \<and> \<not> redis_Enabled (cfg_Redis cfg)
       | Inr (Some c) \<Rightarrow> redis_Enabled (cfg_Redis cfg) \<and> live_redis s2 = insert c (live_redis s))"
    by (rule redis_clients.newRedis_releases [OF assms(2)])
qed

text \<open>Both contracts hold of tables of open handles; \<open>mp_down\<close> makes every ping fail.\<close>

record mem_pools =
  mp_db :: "nat list"
  mp_redis :: "nat list"
  mp_down :: bool

definition mem_ping :: "mem_pools action" where
  "mem_ping s = (if mp_down s then Some (errors_New ''refused'') else None, s)"

definition mem_open_db :: "mem_pools \<Rightarrow> nat \<times> mem_pools" where
  "mem_open_db s = (let h = Suc (sum_list (mp_db s)) in (h, s\<lparr>mp_db := h # mp_db s\<rparr>))"

definition mem_sql_lib :: "(mem_pools, nat, unit, unit, unit) sql_lib" where
  "mem_sql_lib =
     \<lparr>lib_pgx_ParseConfig = (\<lambda>_. Inr \<lparr>pgx_Database = '''', pgx_RuntimeParams = Map.empty, pgx_rest = ()\<rparr>),
      lib_stdlib_OpenDB = (\<lambda>_. mem_open_db),
      lib_mysql_ParseDSN = (\<lambda>_. Inr \<lparr>my_DBName = '''', my_ParseTime = False, my_Loc = (), my_rest = ()\<rparr>),
      lib_FormatDSN = (\<lambda>_. ''''), lib_LoadLocation = (\<lambda>_. Inr ()),
      lib_sqlx_Open = (\<lambda>_ _ s. case mem_open_db s of (h, s1) \<Rightarrow> (Inr h, s1)),
      lib_SetMaxOpenConns = (\<lambda>_ _ s. s), lib_SetMaxIdleConns = (\<lambda>_ _ s. s),
      lib_SetConnMaxLifetime = (\<lambda>_ _ s. s), lib_SetConnMaxIdleTime = (\<lambda>_ _ s. s),
      lib_PingContext = (\<lambda>_ _. mem_ping),
      lib_db_Close = (\<lambda>h s. (None, s\<lparr>mp_db := removeAll h (mp_db s)\<rparr>))\<rparr>"

definition mem_redis_lib :: "(mem_pools, nat) redis_lib" where
  "mem_redis_lib =
     \<lparr>rl_NewClient = (\<lambda>_ s. let c = Suc (sum_list (mp_redis s)) in (c, s\<lparr>mp_redis := c # mp_redis s\<rparr>)),
      rl_Ping = (\<lambda>_. mem_ping),
      rl_Close = (\<lambda>c s. (None, s\<lparr>mp_redis := removeAll c (mp_redis s)\<rparr>))\<rparr>"

lemma fresh_handle: "Suc (sum_list xs) \<notin> set (xs :: nat list)"
  using member_le_sum_list by fastforce

interpretation mem_pools: sql_pools mem_sql_lib "set \<circ> mp_db"
  by unfold_locales
    (auto simp: mem_sql_lib_def mem_open_db_def mem_ping_def Let_def fresh_handle split: prod.splits)

interpretation mem_clients: redis_clients mem_redis_lib "\<lambda>_ s. (None, s)" "set \<circ> mp_redis"
  by unfold_locales (auto simp: mem_redis_lib_def mem_ping_def Let_def fresh_handle)

definition demo_startup_config :: Config where
  "demo_startup_config =
     default_config\<lparr>cfg_Database := (cfg_Database default_config)\<lparr>db_Enabled := True, db_Type := ''postgres''\<rparr>,
       cfg_Redis := (cfg_Redis default_config)\<lparr>redis_Enabled := True\<rparr>\<rparr>"

definition demo_pools :: "bool \<Rightarrow> mem_pools" where
  "demo_pools down = \<lparr>mp_db = [], mp_redis = [], mp_down = down\<rparr>"

text \<open>With the servers up, one pool is opened and closed again; with them down, the pool that was opened is closed at once.\<close>

theorem startup_releases_witness:
  "\<exists>hooks s. newDatabase mem_sql_lib demo_startup_config ([], demo_pools False) = (Inr (Some 1), (hooks, s)) \<and>
     mp_db s = [1] \<and> set (mp_db (stop_all hooks s)) = {} \<and>
   (\<exists>e. newRedis mem_redis_lib (\<lambda>_ s. (None, s)) \<lparr>tc_enabled = True, tc_provider = Some ()\<rparr> demo_startup_config
      ([], demo_pools True) = (Inl e, ([], demo_pools True)))"
proof -
  define hooks where "hooks = [StopHook (lib_db_Close mem_sql_lib (1 :: nat))]"
  have db: "newDatabase mem_sql_lib demo_startup_config ([], demo_pools False) = (Inr (Some 1), (hooks, (demo_pools False)\<lparr>mp_db := [1]\<rparr>))"
    by (simp add: newDatabase_def when_enabled_def provide_def demo_startup_config_def database_Open_def driverName_def
        open_pool_def mem_sql_lib_def mem_open_db_def mem_ping_def demo_pools_def hooks_def Let_def)
  note releases = startup_releases [OF mem_pools.sql_pools_axioms mem_clients.redis_clients_axioms]
  have "set (mp_db (stop_all hooks ((demo_pools False)\<lparr>mp_db := [1]\<rparr>))) = {}"
    using releases [where cfg = demo_startup_config and hooks = "[]" and s = "demo_pools False"
        and tracing = "\<lparr>tc_enabled = True, tc_provider = Some ()\<rparr>"] db
    by (auto simp: demo_pools_def)
  moreover have "\<exists>e. newRedis mem_redis_lib (\<lambda>_ s. (None, s)) \<lparr>tc_enabled = True, tc_provider = Some ()\<rparr> demo_startup_config
      ([], demo_pools True) = (Inl e, ([], demo_pools True))"
    by (simp add: newRedis_def when_enabled_def provide_def demo_startup_config_def open_redis_def cache_Open_def
        mem_redis_lib_def mem_ping_def demo_pools_def Let_def)
  ultimately show ?thesis
    using db by (intro exI [of _ hooks] exI [of _ "(demo_pools False)\<lparr>mp_db := [1]\<rparr>"]) simp
qed

section \<open>The command\<close>

text \<open>The flags of \<open>cmd/api\<close>, and what it does: print its version, fail to load, or run the process.\<close>

record api_flags =
  af_config :: string
  af_env :: string
  af_version :: bool

datatype api_outcome = PrintVersion string string string | LoadError config_err | RunApp Config

definition api_main :: "(string list \<Rightarrow> string list) \<Rightarrow> 'v viper \<Rightarrow> build_vars \<Rightarrow> api_flags \<Rightarrow> nat option \<times> api_outcome" where
  "api_main visit V b fl =
     (if af_version fl then (None, PrintVersion (bv_Version b) (bv_Commit b) (bv_BuildTime b))
      else
        (case LoadWithProfile visit V (af_config fl) (af_env fl) of
           Inl e \<Rightarrow> (Some 1, LoadError e)
         | Inr cfg \<Rightarrow> (None, RunApp cfg)))"

section \<open>Ready without a store\<close>








end
