(* ===== verification/AppGraph.thy ===== *)
theory AppGraph
  imports Startup
begin

text \<open>
  How the process is put together (\<open>app.New\<close> and the modules it lists): which constructor needs
  which, in what order the invocations come, and what follows for the order of construction and
  of shutdown. The container calls a constructor at most once, after everything it needs, and only
  when the invocation whose turn it is needs it; it runs the invocations in their order and stops
  at the first error. Within these rules the order is left open: the theorems hold of every run.
\<close>

section \<open>The graph\<close>

text \<open>The values that are provided, apart from the configuration and the life cycle, which are always there.\<close>

datatype component =
    Logger | Tracing | DB | Transactor | Redis | Locker | Bus | IdempotencyManager | MetricsRegistry
  | OutboundRegistry | Authorizer | CronRunner | Store | RegistryService | GrpcServer | AuthService
  | HealthService | RateLimiter | HttpHandler | HttpServer

text \<open>The parameters of each constructor, from its signature.\<close>

primrec depends :: "component \<Rightarrow> component list" where
  "depends Logger = []"
| "depends Tracing = []"
| "depends DB = []"
| "depends Transactor = [DB]"
| "depends Redis = [Tracing]"
| "depends Locker = [Redis]"
| "depends Bus = []"
| "depends IdempotencyManager = [Redis]"
| "depends MetricsRegistry = [DB, Redis]"
| "depends OutboundRegistry = [MetricsRegistry]"
| "depends Authorizer = [OutboundRegistry]"
| "depends CronRunner = [Locker, MetricsRegistry, Logger]"
| "depends Store = [Redis]"
| "depends RegistryService = [Store]"
| "depends GrpcServer = [AuthService, Authorizer, HealthService, RegistryService, Store, IdempotencyManager, MetricsRegistry, Logger]"
| "depends AuthService = []"
| "depends HealthService = [DB, Redis]"
| "depends RateLimiter = [Redis]"
| "depends HttpHandler = [HealthService, RegistryService, Logger]"
| "depends HttpServer = [HttpHandler, AuthService, Authorizer, RateLimiter, MetricsRegistry, Tracing, Logger]"

text \<open>
  The invocations: the event logger of the container, the migration at startup, the two notices
  about disabled dependencies, and the empty functions that make the modules build their value.
\<close>

datatype invocation =
    EventLogger | StartupMigration | DatabaseNotice | CacheNotice | UseBus | UseOutbound | UseCron | UseGrpc | UseHttp

primrec wants :: "invocation \<Rightarrow> component list" where
  "wants EventLogger = [Logger]"
| "wants StartupMigration = [Logger]"
| "wants DatabaseNotice = [DB, Logger]"
| "wants CacheNotice = [Redis, Logger]"
| "wants UseBus = [Bus]"
| "wants UseOutbound = [OutboundRegistry]"
| "wants UseCron = [CronRunner]"
| "wants UseGrpc = [GrpcServer]"
| "wants UseHttp = [HttpServer]"


text \<open>The constructors an invocation needs, directly or through others.\<close>

inductive needed :: "invocation \<Rightarrow> component \<Rightarrow> bool" for i where
  direct: "c \<in> set (wants i) \<Longrightarrow> needed i c"
| through: "needed i c \<Longrightarrow> d \<in> set (depends c) \<Longrightarrow> needed i d"

section \<open>Runs\<close>





inductive_cases needed_migrationE: "needed StartupMigration c"
inductive_cases needed_loggerE: "needed EventLogger c"

section \<open>Invariants\<close>













section \<open>The end of a run\<close>








section \<open>The order of construction and of shutdown\<close>





end
