(* ===== verification/Spec2Isabelle.thy ===== *)
theory Spec2Isabelle
  imports RegistryRaces RegistryServices ConfigLists ApiDocsProperties AppGraph
begin

text \<open>
  A verification development for the service registry: a Go service that keeps short-lived leases of
  service instances in Redis and offers them over gRPC and HTTP.

  \<^bold>\<open>The program.\<close> Clients register an instance under a service name and get a secret token; they
  renew the lease, change its status or remove it with that token, list live instances, and watch a
  service for changes. All state is in Redis: \<open>internal/registry/store.go\<close> changes it with three
  Lua scripts and reads it with plain commands; \<open>internal/registry/service.go\<close> validates requests,
  sets lease times, filters and pages; \<open>internal/transport/grpc\<close> serves the protocol behind a chain
  of interceptors, \<open>internal/transport/http\<close> the listings behind a chain of middleware. Around them:
  configuration, authentication, request identifiers, readiness, rate limits, application errors; and
  the process itself: schema migrations, the SQL database, locks and a scheduled job, outgoing
  clients, and the container that builds everything in order and takes it down again.

  \<^bold>\<open>Foundations.\<close>
  \<^item> \<open>Prelude\<close>: computations with errors and state (\<open>sem\<close>, \<open>bindE\<close>), shared lemmas.
  \<^item> \<open>GoStd\<close>, \<open>GoBytes\<close>, \<open>GoRegexp\<close>, \<open>GoRunes\<close>, \<open>GoPath\<close>, \<open>GoTime\<close>, \<open>GoUrl\<close>: the parts of Go's
    standard library the source uses, on byte strings and 64-bit integers: numbers, slices, strings,
    UTF-8, regular expressions, \<open>path.Match\<close>, times, URL queries; \<open>GoTime\<close> also has \<open>internal/buildinfo\<close>.
    \<open>GoErrors\<close> and \<open>Lifecycle\<close>: wrapped errors and the hooks of the process.
  \<^item> \<open>Redis\<close>: commands and replies, the laws of a server as the locale \<open>redis_server\<close>, and the
    \<open>world\<close> of a Go function: the server together with a schedule of what other clients do and of
    which round trips fail. A world with an empty schedule is \<open>quiet\<close>. \<open>MemRedis\<close> and \<open>MemPlatform\<close>
    are a server and libraries that satisfy every law, for the witnesses.

  \<^bold>\<open>The registry.\<close>
  \<^item> \<open>RegistryTypes\<close>: messages, and the code outside the repository as the record \<open>platform\<close> (JSON
    codec, SHA-256, URL parsing, sorting) with its laws as locales, together \<open>registry_deps\<close>.
  \<^item> \<open>RegistryStore\<close>, \<open>RegistryService\<close>, \<open>GrpcRegistry\<close>: every operation of \<open>store.go\<close>, \<open>service.go\<close>
    and \<open>grpc/registry.go\<close>.
  \<^item> \<open>RegistryInvariant\<close>, \<open>RegistryContract\<close>: the invariant of the key space and what each script
    does to it. \<open>RegistryAbstract\<close>: the abstract registry, a table of leases and a history of changes.
    \<open>RegistryReads\<close>, \<open>RegistryBehaviour\<close>, \<open>RegistryListing\<close>: reads, refinement, listings.
    \<open>RegistryOwnership\<close>, \<open>RegistryConcurrent\<close>: other clients as steps of the server.
  \<^item> \<open>RegistryProperties\<close>, \<open>RegistryServices\<close>, \<open>GrpcRegistry\<close>, \<open>RegistryRaces\<close>: the theorems. The operations refine the
    abstract ones (C1 to C4); a lease is safe from everybody without its token (C5) and lives exactly
    as long as promised (C6); any interleaving keeps the key space well formed and the history without
    gaps (C7); listings of instances and of services, pages and the feed are exact (C8, C23, C9, C10); a watch
    delivers every later change once and in order (C12). \<open>RegistryRaces\<close> shows what interleavings
    and unusual requests can do: an instance that is alive and never listed (C14), a removal a watch
    never announces (C15), a lost status change (C16), and as lemmas that names cannot clash, a removal under another name, a
    status change that comes too late and an outage reported as a fault of the client.

  \<^bold>\<open>Configuration.\<close> \<open>ConfigTypes\<close>, \<open>ConfigValidate\<close>, \<open>ConfigLoad\<close>: the structs, checks, defaults
  and files of \<open>internal/config/config.go\<close>; viper is a parameter. \<open>ConfigProperties\<close> and \<open>ConfigLists\<close>:
  validation decides a declarative predicate (C21), accepted patterns never fail and never open a
  path outside the interface (C22); as lemmas, only validated configurations are returned, the
  defaults are accepted, and list settings are read back.

  \<^bold>\<open>The servers.\<close> \<open>AppError\<close>, \<open>Auth\<close>, \<open>RequestContext\<close>, \<open>Health\<close>, \<open>RateLimiter\<close> model the
  packages of these names; \<open>GrpcServer\<close> the interceptors and chains of \<open>grpc/server.go\<close>;
  \<open>HttpServer\<close> and \<open>HttpRoutes\<close> the middleware, handlers, chains and routes of \<open>transport/http\<close>.
  A middleware is a function of the rest of the chain. \<open>HttpPipeline\<close> states once, as locales, what
  every middleware and handler respects; \<open>HttpProperties\<close> interprets it for each fact about responses.
  Readiness is exact whatever the order of the answers (C26); callers are admitted exactly as
  they should be (C29); a refused call has no effect (C30, C38); every HTTP
  request is answered and logged exactly once (C35); responses carry one valid identifier
  (C36); security headers (C34) and allowed origins (C37) hold for every response; the HTTP listing is
  exact (C39). As lemmas: the life time of tokens, and that no gRPC call ends in a panic.

  \<^bold>\<open>The API document.\<close> \<open>Swagger\<close> has JSON values, schemas and when a value is what a schema
  describes; \<open>ApiDocs\<close> the document of \<open>docs/docs.go\<close> and the JSON of every body, written and read.
  \<open>ApiDocsProperties\<close> shows that document and program agree: the routes and their protection (C27),
  every answer field by field with its code, up to two values that can be \<open>null\<close> (C31), and that a
  request as documented is read as it stands and accepted (C11).

  \<^bold>\<open>Outgoing calls.\<close> \<open>TlsConfig\<close>, \<open>OutboundHttp\<close>, \<open>GrpcClient\<close> model the TLS set-up of servers and
  clients, \<open>internal/outbound\<close> and \<open>internal/grpcclient\<close>; \<open>OutboundTable\<close> the table of clients, which
  closes what it made when one client fails, and the authorization client. \<open>OutboundProperties\<close>: a call ends and keeps to
  its retry policy (C28); credentials can go over plain HTTP although the client means to refuse it
  (C33); what the gRPC client sends is what the gRPC server accepts (C40).

  \<^bold>\<open>Infrastructure.\<close> \<open>SqlDatabase\<close> models \<open>internal/database\<close>: a transaction is all or nothing, but a
  panic keeps its connection (C13). \<open>Migration\<close> and \<open>MigrationProperties\<close> model
  \<open>internal/migration\<close>, the step at startup and \<open>cmd/migrate\<close>: the version asked for is reached
  (C18), no SQL but the intended statements is ever sent (C19), and the address given to the library
  is the configured one with its name and options replaced (C25, by reading the query back; as a lemma
  the same for MySQL, where an address without a path loses its host). \<open>Locking\<close> and \<open>Scheduler\<close>
  model \<open>internal/cache\<close> and \<open>internal/scheduler\<close>: the job runs only under its lock (C20).
  \<open>Telemetry\<close> is the set-up of logs, metrics and traces. Each library has its documented laws as a
  locale (\<open>sql_database\<close>, \<open>migrations\<close>, \<open>lock_service\<close>, \<open>sql_pools\<close>, \<open>redis_clients\<close>), and an instance in memory.

  \<^bold>\<open>The process.\<close> \<open>Startup\<close> models the constructors of \<open>internal/app\<close>, \<open>internal/eventbus\<close> and
  \<open>internal/idempotency\<close>, the start and stop of both servers and \<open>cmd/api\<close>. Opening the database and
  Redis are instances of one contract (locale \<open>managed\<close>): nothing leaks on any error path and the stop
  hooks give back what was opened (C32). The defaults start a process that reports ready without a
  store (C24). \<open>AppGraph\<close> is the graph of constructors and invocations of \<open>app.New\<close> with the rules of
  the container as a step relation: in every run the migration comes before everything but the logger, construction
  follows the dependencies, and runs neither get stuck nor go on forever (C17).

  \<^bold>\<open>Bounds.\<close> Revisions and page numbers are kept at 64 bits and lists shorter than \<open>2\<^sup>62\<close> where
  arithmetic could wrap; the number of changes is bounded by \<open>max_published\<close>, below which Lua prints
  revisions exactly. \<open>WatchService\<close> loops until its context ends: the list of what each wait of the
  loop answers is an argument, and the theorems hold for every such list. Everything else terminates
  by structural recursion; the retry loops recurse on the number of attempts that are left.

  \<^bold>\<open>Not modelled.\<close> Code outside the repository (the Redis server and its client, SQL drivers, redsync,
  the migration and cron libraries, JSON, JWT, gRPC, gin, fx, viper, the platform library) appears as
  parameters with named laws, and fx as the rules of \<open>AppGraph\<close>. The bodies of \<open>/metrics\<close>,
  \<open>/swagger\<close> and \<open>/debug/pprof\<close> are written by libraries, which also parse and print the text of JSON;
  the identifiers of traces, durations and log lines other than the access log are left out.
\<close>

end
